(* ===== verification/Prelude.thy ===== *)
theory Prelude
imports Complex_Main "HOL-Library.Word" "HOL-Library.Sublist"
begin

text \<open>
  Shared vocabulary of the development: the ways a C computation can leave defined behaviour, the
  result type that carries them, C strings and the \<open>string.h\<close>/\<open>stdlib.h\<close> functions the program
  uses on them, and decimal printing and parsing.

  A C string is the list of its characters before the terminating NUL, so it never contains NUL.
  A \<open>char a[N]\<close> is represented by the characters it holds before its first NUL; it has at most
  \<open>N\<close> of them, and holding exactly \<open>N\<close> means that the array is not terminated, so reading it as a
  string runs off its end.
\<close>

named_theorems model_defs \<open>definitions that symbolic execution unfolds\<close>

section \<open>Undefined behaviour as a value\<close>

datatype ub =
    NullDeref          \<comment> \<open>a null pointer is dereferenced or handed to a string function\<close>
  | UseAfterFree       \<comment> \<open>a freed object, or code of an unloaded library, is used\<close>
  | BufferOverflow     \<comment> \<open>a write past the end of an object\<close>
  | OutOfBounds        \<comment> \<open>a read past the end of an object\<close>
  | UninitRead         \<comment> \<open>an indeterminate value is used\<close>
  | BadShift           \<comment> \<open>a shift count outside the width of the type\<close>
  | BadFree            \<comment> \<open>\<open>free\<close> of something \<open>malloc\<close> did not return\<close>
  | StackOverflow      \<comment> \<open>recursion deeper than the stack allows\<close>
  | Diverges           \<comment> \<open>a loop that revisits a node and never ends\<close>
  | Exited int         \<comment> \<open>not undefined: the program has called \<open>exit\<close>\<close>
  | IllFormed          \<comment> \<open>not a behaviour: a program text the compiler rejects\<close>

type_synonym 'a res = "ub + 'a"

definition bindR :: "'a res \<Rightarrow> ('a \<Rightarrow> 'b res) \<Rightarrow> 'b res" where
  "bindR m f = (case m of Inl u \<Rightarrow> Inl u | Inr x \<Rightarrow> f x)"

lemma bindR_simps [simp]:
  "bindR (Inr x) f = f x"
  "bindR (Inl u) f = Inl u"
  by (simp_all add: bindR_def)

lemma bindR_eq_Inr [simp]: "bindR m f = Inr y \<longleftrightarrow> (\<exists>x. m = Inr x \<and> f x = Inr y)"
  by (cases m) auto

lemma bindR_eq_Inl: "bindR m f = Inl u \<longleftrightarrow> m = Inl u \<or> (\<exists>x. m = Inr x \<and> f x = Inl u)"
  by (cases m) auto

lemma bindR_assoc: "bindR (bindR m f) g = bindR m (\<lambda>x. bindR (f x) g)"
  by (cases m) auto

lemma bindR_cong [fundef_cong]:
  "m = m' \<Longrightarrow> (\<And>x. m' = Inr x \<Longrightarrow> f x = f' x) \<Longrightarrow> bindR m f = bindR m' f'"
  by (cases m') auto

definition defined :: "'a res \<Rightarrow> bool" where
  "defined m \<longleftrightarrow> (case m of Inl _ \<Rightarrow> False | Inr _ \<Rightarrow> True)"

lemma defined_simps [simp]: "defined (Inr x)" "\<not> defined (Inl u)"
  by (simp_all add: defined_def)

lemma defined_iff: "defined m \<longleftrightarrow> (\<exists>x. m = Inr x)"
  by (cases m) auto

section \<open>C strings\<close>

abbreviation NUL :: char where "NUL \<equiv> CHR 0x00"

definition c_string :: "string \<Rightarrow> bool" where
  "c_string s \<longleftrightarrow> NUL \<notin> set s"

lemma c_string_simps [simp]:
  "c_string []"
  "c_string (c # s) \<longleftrightarrow> c \<noteq> NUL \<and> c_string s"
  "c_string (s @ t) \<longleftrightarrow> c_string s \<and> c_string t"
  by (auto simp: c_string_def)

lemma c_string_take [simp]: "c_string s \<Longrightarrow> c_string (take n s)"
  by (auto simp: c_string_def dest: in_set_takeD)

text \<open>\<open>strncpy (a, src, n)\<close> into a \<open>char a[n]\<close>: at most \<open>n\<close> characters, NUL padding only if there is
  room for it.\<close>

definition strncpy :: "string \<Rightarrow> nat \<Rightarrow> string" where
  "strncpy src n = take n src"

lemma length_strncpy [simp]: "length (strncpy src n) = min (length src) n"
  by (simp add: strncpy_def)

lemma strncpy_short [simp]: "length src \<le> n \<Longrightarrow> strncpy src n = src"
  by (simp add: strncpy_def)

lemma c_string_strncpy [simp]: "c_string src \<Longrightarrow> c_string (strncpy src n)"
  by (simp add: strncpy_def)

text \<open>Reading a \<open>char a[n]\<close> as a string.\<close>

definition arr_string :: "nat \<Rightarrow> string \<Rightarrow> string res" where
  "arr_string n a = (if length a < n then Inr a else Inl OutOfBounds)"

text \<open>\<open>sprintf\<close>/\<open>strcpy\<close> of the text \<open>s\<close> into a \<open>char a[n]\<close>.\<close>

definition sprintf_arr :: "nat \<Rightarrow> string \<Rightarrow> string res" where
  "sprintf_arr n s = (if length s < n then Inr s else Inl BufferOverflow)"

lemma arr_string_ok [simp]: "length a < n \<Longrightarrow> arr_string n a = Inr a"
  by (simp add: arr_string_def)

lemma sprintf_arr_ok [simp]: "length a < n \<Longrightarrow> sprintf_arr n a = Inr a"
  by (simp add: sprintf_arr_def)

text \<open>\<open>strstr\<close>: the suffix of \<open>h\<close> that starts at the first occurrence of \<open>n\<close>; \<open>strchr\<close> likewise.\<close>

fun strstr :: "string \<Rightarrow> string \<Rightarrow> string option" where
  "strstr [] n = (if n = [] then Some [] else None)"
| "strstr (c # h) n = (if prefix n (c # h) then Some (c # h) else strstr h n)"

lemma strstr_None_iff: "strstr h n = None \<longleftrightarrow> \<not> sublist n h"
  by (induction h) (auto simp: sublist_Cons_right)

definition strchr :: "string \<Rightarrow> char \<Rightarrow> string option" where
  "strchr s c = (case dropWhile (\<lambda>x. x \<noteq> c) s of [] \<Rightarrow> None | t \<Rightarrow> Some t)"

lemma strchr_append [simp]: "c \<notin> set s \<Longrightarrow> strchr (s @ c # t) c = Some (c # t)"
  by (induction s) (auto simp: strchr_def)

lemma strchr_Cons_same [simp]: "strchr (c # t) c = Some (c # t)"
  by (simp add: strchr_def)

lemma strchr_None_iff: "strchr s c = None \<longleftrightarrow> c \<notin> set s"
  by (induction s) (auto simp: strchr_def)

section \<open>strtok\_r\<close>

text \<open>One call \<open>strtok_r (rest, delims, &rest)\<close>: skip leading delimiters, return the token up to the
  next delimiter and what follows that delimiter.\<close>

definition strtok_r :: "string \<Rightarrow> string \<Rightarrow> (string \<times> string) option" where
  "strtok_r rest delims =
     (let s = dropWhile (\<lambda>c. c \<in> set delims) rest
      in if s = [] then None
         else Some (takeWhile (\<lambda>c. c \<notin> set delims) s, tl (dropWhile (\<lambda>c. c \<notin> set delims) s)))"

lemma set_tl_subset: "set (tl xs) \<subseteq> set xs"
  by (cases xs) auto

lemma set_dropWhile_subset: "set (dropWhile P xs) \<subseteq> set xs"
  by (auto dest: set_dropWhileD)

lemma strtok_r_SomeD:
  assumes "strtok_r rest delims = Some (t, rest')"
  shows "t \<noteq> []" "set t \<inter> set delims = {}" "set t \<subseteq> set rest" "set rest' \<subseteq> set rest"
    "length rest' < length rest"
proof -
  define s where "s = dropWhile (\<lambda>c. c \<in> set delims) rest"
  have s: "s \<noteq> []" "t = takeWhile (\<lambda>c. c \<notin> set delims) s"
    "rest' = tl (dropWhile (\<lambda>c. c \<notin> set delims) s)"
    using assms by (auto simp: strtok_r_def s_def Let_def simp del: dropWhile_eq_Nil_conv split: if_splits)
  have len: "length (dropWhile (\<lambda>c. c \<notin> set delims) s) \<le> length s" "length s \<le> length rest"
    unfolding s_def by (rule length_dropWhile_le)+
  have sub: "set s \<subseteq> set rest" unfolding s_def by (auto dest: set_dropWhileD)
  have "hd s \<notin> set delims" using s(1) unfolding s_def by (rule hd_dropWhile)
  then show "t \<noteq> []" using s by (cases s) auto
  show "set t \<inter> set delims = {}" "set t \<subseteq> set rest"
    using s(2) sub by (auto dest: set_takeWhileD)
  show "set rest' \<subseteq> set rest"
    unfolding s(3) by (rule subset_trans [OF subset_trans [OF set_tl_subset set_dropWhile_subset] sub])
  show "length rest' < length rest"
    using len s(1) unfolding s(3) by (cases s) auto
qed

text \<open>The tokens a loop \<open>while ((token = strtok_r (rest, delims, &rest)))\<close> visits.\<close>

function strtok_all :: "string \<Rightarrow> string \<Rightarrow> string list" where
  "strtok_all delims rest =
     (case strtok_r rest delims of None \<Rightarrow> [] | Some (t, rest') \<Rightarrow> t # strtok_all delims rest')"
  by pat_completeness auto
termination
  by (relation "measure (\<lambda>(_, rest). length rest)") (auto dest: strtok_r_SomeD(5))

declare strtok_all.simps [simp del]

lemma strtok_all_Nil [simp]: "strtok_all delims [] = []"
  by (subst strtok_all.simps) (simp add: strtok_r_def)

lemma strtok_all_delim: "c \<in> set delims \<Longrightarrow> strtok_all delims (c # s) = strtok_all delims s"
  by (subst (1 2) strtok_all.simps) (simp add: strtok_r_def)

lemma strtok_r_append:
  assumes "t \<noteq> []" "set t \<inter> set delims = {}" "s = [] \<or> hd s \<in> set delims"
  shows "strtok_r (t @ s) delims = Some (t, tl s)"
proof -
  have *: "\<forall>x\<in>set t. x \<notin> set delims" using assms(2) by auto
  then have "dropWhile (\<lambda>c. c \<in> set delims) (t @ s) = t @ s"
    using assms(1) by (cases t) auto
  moreover have "takeWhile (\<lambda>c. c \<notin> set delims) (t @ s) = t"
    "dropWhile (\<lambda>c. c \<notin> set delims) (t @ s) = s"
    using * assms(3) by (cases s; simp add: takeWhile_append dropWhile_append)+
  ultimately show ?thesis using assms(1) by (simp add: strtok_r_def)
qed

lemmas strtok_r_token = strtok_r_append [where s = "c # s" for c s, simplified]
lemmas strtok_r_last = strtok_r_append [where s = "[]", simplified]

lemma strtok_all_token:
  "t \<noteq> [] \<Longrightarrow> set t \<inter> set delims = {} \<Longrightarrow> c \<in> set delims \<Longrightarrow>
    strtok_all delims (t @ c # s) = t # strtok_all delims s"
  by (subst strtok_all.simps) (simp add: strtok_r_token)

lemma strtok_all_last:
  "t \<noteq> [] \<Longrightarrow> set t \<inter> set delims = {} \<Longrightarrow> strtok_all delims t = [t]"
  by (subst strtok_all.simps) (simp add: strtok_r_last)

lemma strtok_all_tokens:
  "t \<in> set (strtok_all delims s) \<Longrightarrow> t \<noteq> [] \<and> set t \<inter> set delims = {} \<and> set t \<subseteq> set s"
proof (induction delims s rule: strtok_all.induct)
  case (1 delims s)
  show ?case
  proof (cases "strtok_r s delims")
    case None
    with "1.prems" show ?thesis by (subst (asm) strtok_all.simps) simp
  next
    case (Some p)
    obtain u rest' where p: "p = (u, rest')" by (cases p)
    note u = strtok_r_SomeD [OF Some [unfolded p]]
    have "t = u \<or> t \<in> set (strtok_all delims rest')"
      using "1.prems" Some p by (subst (asm) strtok_all.simps) simp
    with u "1.IH" [OF Some p [symmetric]] show ?thesis by blast
  qed
qed

lemma strtok_all_length: "t \<in> set (strtok_all delims s) \<Longrightarrow> length t \<le> length s"
proof (induction delims s rule: strtok_all.induct)
  case (1 delims s)
  show ?case
  proof (cases "strtok_r s delims")
    case None
    with "1.prems" show ?thesis by (subst (asm) strtok_all.simps) simp
  next
    case (Some p)
    obtain u rest' where p: "p = (u, rest')" by (cases p)
    have "length u \<le> length s"
      using Some unfolding p strtok_r_def Let_def
      by (auto simp del: dropWhile_eq_Nil_conv split: if_splits
          intro: order_trans [OF length_takeWhile_le length_dropWhile_le])
    moreover have "t = u \<or> t \<in> set (strtok_all delims rest')"
      using "1.prems" Some p by (subst (asm) strtok_all.simps) simp
    ultimately show ?thesis
      using "1.IH" [OF Some p [symmetric]] strtok_r_SomeD(5) [OF Some [unfolded p]] by auto
  qed
qed

fun join :: "char \<Rightarrow> string list \<Rightarrow> string" where
  "join c [] = []"
| "join c [t] = t"
| "join c (t # ts) = t @ c # join c ts"

lemma strtok_all_join:
  "\<forall>t\<in>set ts. t \<noteq> [] \<and> set t \<inter> set delims = {} \<Longrightarrow> c \<in> set delims \<Longrightarrow>
    strtok_all delims (join c ts) = ts"
  by (induction c ts rule: join.induct) (auto simp: strtok_all_token strtok_all_last)

text \<open>The pieces of a line between the occurrences of a character, empty ones included.\<close>

definition split_line :: "char \<Rightarrow> string \<Rightarrow> string list" where
  "split_line c s = foldr (\<lambda>x acc. if x = c then [] # acc else (x # hd acc) # tl acc) s [[]]"

lemma split_line_Cons [simp]:
  "split_line c [] = [[]]"
  "split_line c (x # s) = (if x = c then [] # split_line c s else (x # hd (split_line c s)) # tl (split_line c s))"
  by (simp_all add: split_line_def)

lemma split_line_nonempty [simp]: "split_line c s \<noteq> []"
  by (cases s) auto

lemma split_line_token: "c \<notin> set t \<Longrightarrow> split_line c (t @ c # s) = t # split_line c s"
  by (induction t) auto

lemma split_line_last: "c \<notin> set t \<Longrightarrow> split_line c t = [t]"
  by (induction t) auto

lemma split_line_join: "ts \<noteq> [] \<Longrightarrow> \<forall>t\<in>set ts. c \<notin> set t \<Longrightarrow> split_line c (join c ts) = ts"
  by (induction c ts rule: join.induct) (auto simp: split_line_token split_line_last)

section \<open>Decimal numbers\<close>

definition digit_char :: "nat \<Rightarrow> char" where
  "digit_char n = char_of (48 + n)"

definition is_digit :: "char \<Rightarrow> bool" where
  "is_digit c \<longleftrightarrow> 48 \<le> (of_char c :: nat) \<and> (of_char c :: nat) \<le> 57"

definition digit_val :: "char \<Rightarrow> nat" where
  "digit_val c = of_char c - 48"

lemma digit_char_props:
  "n < 10 \<Longrightarrow> is_digit (digit_char n) \<and> digit_val (digit_char n) = n"
  by (simp add: is_digit_def digit_char_def digit_val_def)

lemma digit_char_eval:
  "digit_char 0 = CHR ''0''" "digit_char (Suc 0) = CHR ''1''" "digit_char 2 = CHR ''2''"
  "digit_char 3 = CHR ''3''" "digit_char 4 = CHR ''4''" "digit_char 5 = CHR ''5''"
  "digit_char 6 = CHR ''6''" "digit_char 7 = CHR ''7''" "digit_char 8 = CHR ''8''"
  "digit_char 9 = CHR ''9''"
  by (simp_all add: digit_char_def char_of_def bit_Suc_0_iff)

text \<open>What \<open>printf\<close> writes for \<open>%u\<close> and \<open>%d\<close>.\<close>

fun show_nat :: "nat \<Rightarrow> string" where
  "show_nat n = (if n < 10 then [digit_char n] else show_nat (n div 10) @ [digit_char (n mod 10)])"

declare show_nat.simps [simp del]

definition show_int :: "int \<Rightarrow> string" where
  "show_int i = (if i < 0 then CHR ''-'' # show_nat (nat (- i)) else show_nat (nat i))"

lemmas show_eval = show_int_def show_nat.simps digit_char_eval

definition digits_value :: "string \<Rightarrow> nat" where
  "digits_value s = foldl (\<lambda>n c. 10 * n + digit_val c) 0 s"

lemma show_nat_digits: "\<forall>c\<in>set (show_nat n). is_digit c"
proof (induction n rule: show_nat.induct)
  case (1 n)
  then show ?case
    by (subst show_nat.simps) (auto simp: digit_char_props)
qed

lemma digits_value_show_nat [simp]: "digits_value (show_nat n) = n"
proof (induction n rule: show_nat.induct)
  case (1 n)
  then show ?case
    by (subst show_nat.simps) (auto simp: digits_value_def digit_char_props)
qed

lemma show_nat_nonempty [simp]: "show_nat n \<noteq> []"
  by (subst show_nat.simps) simp

lemma length_show_nat: "n < 10 ^ k \<Longrightarrow> length (show_nat n) \<le> max 1 k"
proof (induction k arbitrary: n)
  case 0
  then show ?case by (subst show_nat.simps) simp
next
  case (Suc k)
  show ?case
  proof (cases "n < 10")
    case True
    then show ?thesis by (subst show_nat.simps) simp
  next
    case False
    with Suc.prems have "n div 10 < 10 ^ k" by (simp add: less_mult_imp_div_less mult.commute)
    then have "length (show_nat (n div 10)) \<le> max 1 k" by (rule Suc.IH)
    moreover have "1 \<le> k"
      using False Suc.prems by (cases k) auto
    ultimately show ?thesis using False by (subst show_nat.simps) simp
  qed
qed

text \<open>\<open>atol\<close>, that is \<open>strtol (s, NULL, 10)\<close>: skip white space, an optional sign, the longest run of
  digits; a value outside the range of \<open>long\<close> saturates.\<close>

definition is_space :: "char \<Rightarrow> bool" where
  "is_space c \<longleftrightarrow> of_char c = (32::nat) \<or> 9 \<le> (of_char c :: nat) \<and> (of_char c :: nat) \<le> 13"

definition atol :: "string \<Rightarrow> int" where
  "atol s =
     (let s1 = dropWhile is_space s;
          (neg, s2) = (case s1 of [] \<Rightarrow> (False, [])
                       | c # t \<Rightarrow> if c = CHR ''-'' then (True, t)
                                  else if c = CHR ''+'' then (False, t) else (False, s1));
          v = int (digits_value (takeWhile is_digit s2));
          w = (if neg then - v else v)
      in max (- (2 ^ 63)) (min (2 ^ 63 - 1) w))"

lemma atol_range: "- (2 ^ 63) \<le> atol s" "atol s < 2 ^ 63"
  by (auto simp: atol_def Let_def split: prod.splits)

lemma is_digit_not_sign:
  "is_digit c \<Longrightarrow> \<not> is_space c \<and> c \<noteq> CHR ''-'' \<and> c \<noteq> CHR ''+''"
  by (auto simp: is_digit_def is_space_def)

lemma atol_show_nat: "n < 2 ^ 63 \<Longrightarrow> atol (show_nat n) = int n"
proof -
  assume n: "n < 2 ^ 63"
  obtain c t where s: "show_nat n = c # t" by (cases "show_nat n") auto
  have d: "\<forall>x\<in>set (c # t). is_digit x" using show_nat_digits [of n] s by simp
  have [simp]: "takeWhile is_digit t = t" using d by (simp add: takeWhile_eq_all_conv)
  moreover have "digits_value (c # t) = n" using digits_value_show_nat [of n] s by simp
  moreover have "int n \<le> 2 ^ 63 - 1" using n by simp
  ultimately show ?thesis
    using n d is_digit_not_sign [of c] by (simp add: s atol_def)
qed

end
