(* ===== verification/Domains_Ops.thy ===== *)
theory Domains_Ops
imports Prelude
begin

unbundle bit_operations_syntax

text \<open>
  \<open>include/domains.h\<close>, \<open>include/ops.h\<close>, and the script \<open>include/enum_to_strings.sh\<close> that derives the
  name tables \<open>domains_names\<close> and \<open>ops_names\<close> from them.

  The name tables are not files of the repository: the Makefile feeds each header to the script. So
  the model has the script as a function on the lines of a header, the headers' lines as they stand,
  and the tables as the result.
\<close>

section \<open>The enumerations\<close>

datatype domain_type =
    LINKS | XATTRS | DIRS | FILE_SYSTEMS | FILE_DESCRIPTORS | SYNCS | SOCKETS | SEEKS |
    FILE_SPACE | PROCESSES | FILE_METADATA | FILE_WRITE | FILE_READ | FILE_OPEN_CLOSE | MISC |
    DIR_METADATA | START_STOP | HTTP | THREADS | END_DOMAINS

datatype op_type =
    OPEN | CLOSE | WRITE | READ | SYNC | SEEK | RENAME | LINK | UNLINK | FCNTL | DUP | STAT |
    ACCESS | CHMOD | CHOWN | FLOCK | READLINK | UTIME | GETXATTR | SETXATTR | LISTXATTR |
    REMOVEXATTR | MOUNT | UMOUNT | FORK | MKNOD | MKDIR | RMDIR | CHDIR | CHROOT | SOCKET |
    FLUSH | ALLOCATE | TRUNCATE | OPENDIR | CLOSEDIR | READDIR | SEEKDIR | TELLDIR |
    REWINDDIR | SCANDIR | CONNECT | ACCEPT | LISTEN | BIND | EXEC | KILL | START | STOP |
    HTTP_REQ_SEND | HTTP_REQ_RECV | HTTP_RESP_SEND | HTTP_RESP_RECV | HTTP_RESP_FINI_SEND |
    HTTP_RESP_FINI_RECV | MUTEX_LOCK | MUTEX_UNLOCK | MUTEX_INIT | MUTEX_DESTROY |
    THREAD_CREATE | COND_WAIT | COND_SIGNAL | COND_BROADCAST | END_OPS

text \<open>The values C gives the enumerators.\<close>

fun domain_index :: "domain_type \<Rightarrow> nat" where
  "domain_index LINKS = 0"
| "domain_index XATTRS = 1"
| "domain_index DIRS = 2"
| "domain_index FILE_SYSTEMS = 3"
| "domain_index FILE_DESCRIPTORS = 4"
| "domain_index SYNCS = 5"
| "domain_index SOCKETS = 6"
| "domain_index SEEKS = 7"
| "domain_index FILE_SPACE = 8"
| "domain_index PROCESSES = 9"
| "domain_index FILE_METADATA = 10"
| "domain_index FILE_WRITE = 11"
| "domain_index FILE_READ = 12"
| "domain_index FILE_OPEN_CLOSE = 13"
| "domain_index MISC = 14"
| "domain_index DIR_METADATA = 15"
| "domain_index START_STOP = 16"
| "domain_index HTTP = 17"
| "domain_index THREADS = 18"
| "domain_index END_DOMAINS = 19"

fun op_index :: "op_type \<Rightarrow> nat" where
  "op_index OPEN = 0"
| "op_index CLOSE = 1"
| "op_index WRITE = 2"
| "op_index READ = 3"
| "op_index SYNC = 4"
| "op_index SEEK = 5"
| "op_index RENAME = 6"
| "op_index LINK = 7"
| "op_index UNLINK = 8"
| "op_index FCNTL = 9"
| "op_index DUP = 10"
| "op_index STAT = 11"
| "op_index ACCESS = 12"
| "op_index CHMOD = 13"
| "op_index CHOWN = 14"
| "op_index FLOCK = 15"
| "op_index READLINK = 16"
| "op_index UTIME = 17"
| "op_index GETXATTR = 18"
| "op_index SETXATTR = 19"
| "op_index LISTXATTR = 20"
| "op_index REMOVEXATTR = 21"
| "op_index MOUNT = 22"
| "op_index UMOUNT = 23"
| "op_index FORK = 24"
| "op_index MKNOD = 25"
| "op_index MKDIR = 26"
| "op_index RMDIR = 27"
| "op_index CHDIR = 28"
| "op_index CHROOT = 29"
| "op_index SOCKET = 30"
| "op_index FLUSH = 31"
| "op_index ALLOCATE = 32"
| "op_index TRUNCATE = 33"
| "op_index OPENDIR = 34"
| "op_index CLOSEDIR = 35"
| "op_index READDIR = 36"
| "op_index SEEKDIR = 37"
| "op_index TELLDIR = 38"
| "op_index REWINDDIR = 39"
| "op_index SCANDIR = 40"
| "op_index CONNECT = 41"
| "op_index ACCEPT = 42"
| "op_index LISTEN = 43"
| "op_index BIND = 44"
| "op_index EXEC = 45"
| "op_index KILL = 46"
| "op_index START = 47"
| "op_index STOP = 48"
| "op_index HTTP_REQ_SEND = 49"
| "op_index HTTP_REQ_RECV = 50"
| "op_index HTTP_RESP_SEND = 51"
| "op_index HTTP_RESP_RECV = 52"
| "op_index HTTP_RESP_FINI_SEND = 53"
| "op_index HTTP_RESP_FINI_RECV = 54"
| "op_index MUTEX_LOCK = 55"
| "op_index MUTEX_UNLOCK = 56"
| "op_index MUTEX_INIT = 57"
| "op_index MUTEX_DESTROY = 58"
| "op_index THREAD_CREATE = 59"
| "op_index COND_WAIT = 60"
| "op_index COND_SIGNAL = 61"
| "op_index COND_BROADCAST = 62"
| "op_index END_OPS = 63"

section \<open>enum\_to\_strings.sh\<close>

text \<open>\<open>grep -v "^//" | grep , | cut -d , -f 1 | cut -d / -f 1 | tr -d " "\<close>, then \<open>read i\<close>, which
  strips surrounding blanks.\<close>

definition cut_first :: "char \<Rightarrow> string \<Rightarrow> string" where
  "cut_first d line = takeWhile (\<lambda>c. c \<noteq> d) line"

definition read_word :: "string \<Rightarrow> string" where
  "read_word s = (let blank = (\<lambda>c. c = CHR '' '' \<or> c = CHR 0x09)
                  in rev (dropWhile blank (rev (dropWhile blank s))))"

definition enum_to_strings :: "string list \<Rightarrow> string list" where
  "enum_to_strings ls =
     map (\<lambda>l. read_word (filter (\<lambda>c. c \<noteq> CHR '' '') (cut_first (CHR ''/'') (cut_first (CHR '','') l))))
       (filter (\<lambda>l. CHR '','' \<in> set l) (filter (\<lambda>l. \<not> prefix ''//'' l) ls))"

definition domains_h :: "string list" where
  \<open>domains_h = [
    ''//'',
    ''// Copyright (c) 2017 Intel Corporation'',
    ''//'',
    ''// Licensed under the Apache License, Version 2.0 (the "License");'',
    ''// you may not use this file except in compliance with the License.'',
    ''// You may obtain a copy of the License at'',
    ''//'',
    ''//    http://www.apache.org/licenses/LICENSE-2.0'',
    ''//'',
    ''// Unless required by applicable law or agreed to in writing, software'',
    ''// distributed under the License is distributed on an "AS IS" BASIS,'',
    ''// WITHOUT WARRANTIES OR CONDITIONS OF ANY KIND, either express or'',
    ''// implied.'',
    ''// See the License for the specific language governing permissions and'',
    ''// limitations under the License.'',
    '''',
    ''#ifndef __DOMAINS_H'',
    ''#define __DOMAINS_H'',
    '''',
    ''// set up some categories to group metrics'',
    ''typedef enum {'',
    ''// domains below are associated with function calls'',
    ''   LINKS,             // 0  (link, unlink)'',
    ''   XATTRS,            // 1  (getxattr, setxattr, listxattr)'',
    ''   DIRS,              // 2  (mkdir, rmdir, chdir)'',
    ''   FILE_SYSTEMS,      // 3  (mount, umount)'',
    ''   FILE_DESCRIPTORS,  // 4  (dup, fcntl)'',
    ''   SYNCS,             // 5  (sync, flush)'',
    ''   SOCKETS,           // 6  (socket, accept, bind, connect, send, recv)'',
    ''   SEEKS,             // 7  (fseek, lseek)'',
    ''   FILE_SPACE,        // 8  (fallocate, ftruncate)'',
    ''   PROCESSES,         // 9  (fork, exec, kill, exit)'',
    ''   FILE_METADATA,     // 10  (stat, access, chmod, chown)'',
    ''   FILE_WRITE,        // 11  (write, send etc.)'',
    ''   FILE_READ,         // 12  (read, recv etc.)'',
    ''   FILE_OPEN_CLOSE,   // 13  (open, close)'',
    ''   MISC,              // 14  (miscellaneous; rename, flock, mknod, chroot, etc.)'',
    ''   DIR_METADATA,      // 15  (opendir, readdir, seekdir, etc.)'',
    ''// domains below are associated with system events not tied directly to function calls'',
    ''   START_STOP,        // 17  (associated with starting and exiting an app)'',
    ''   HTTP,              // 18  (HTTP verb events)'',
    ''   THREADS,           // 19'',
    ''   END_DOMAINS        // keep this one as last'',
    ''} DOMAIN_TYPE;'',
    '''',
    ''#endif'',
    '''']\<close>

definition ops_h :: "string list" where
  \<open>ops_h = [
    ''//'',
    ''// Copyright (c) 2017 Intel Corporation'',
    ''//'',
    ''// Licensed under the Apache License, Version 2.0 (the "License");'',
    ''// you may not use this file except in compliance with the License.'',
    ''// You may obtain a copy of the License at'',
    ''//'',
    ''//    http://www.apache.org/licenses/LICENSE-2.0'',
    ''//'',
    ''// Unless required by applicable law or agreed to in writing, software'',
    ''// distributed under the License is distributed on an "AS IS" BASIS,'',
    ''// WITHOUT WARRANTIES OR CONDITIONS OF ANY KIND, either express or'',
    ''// implied.'',
    ''// See the License for the specific language governing permissions and'',
    ''// limitations under the License.'',
    '''',
    ''#ifndef __OPS_H'',
    ''#define __OPS_H'',
    '''',
    '''',
    ''// define the operations that we're tracking. please note that in some'',
    ''// cases several C library calls all get identified the same (e.g., open,'',
    ''// open64, fopen are all recorded as OPEN).'',
    ''typedef enum {'',
    ''   OPEN,           //  (FILE_OPEN_CLOSE)'',
    ''   CLOSE,          //  (FILE_OPEN_CLOSE)'',
    ''   WRITE,          //  (FILE_WRITE)'',
    ''   READ,           //  (FILE_READ)'',
    ''   SYNC,           //  (SYNCS)'',
    ''   SEEK,           //  (SEEKS)'',
    ''   RENAME,         //  (MISC)'',
    ''   LINK,           //  (LINKS)'',
    ''   UNLINK,         //  (LINKS)'',
    ''   FCNTL,          //  (FILE_DESCRIPTORS)'',
    ''   DUP,            //  (FILE_DESCRIPTORS)'',
    ''   STAT,           //  (FILE_METADATA)'',
    ''   ACCESS,         //  (FILE_METADATA)'',
    ''   CHMOD,          //  (FILE_METADATA)'',
    ''   CHOWN,          //  (FILE_METADATA)'',
    ''   FLOCK,          //  (MISC)'',
    ''   READLINK,       //  (LINKS)'',
    ''   UTIME,          //  (FILE_METADATA)'',
    ''   GETXATTR,       //  (XATTRS)'',
    ''   SETXATTR,       //  (XATTRS)'',
    ''   LISTXATTR,      //  (XATTRS)'',
    ''   REMOVEXATTR,    //  (XATTRS)'',
    ''   MOUNT,          //  (FILE_SYSTEMS)'',
    ''   UMOUNT,         //  (FILE_SYSTEMS)'',
    ''   FORK,           //  (PROCESSES)'',
    ''   MKNOD,          //  (MISC)'',
    ''   MKDIR,          //  (DIRS)'',
    ''   RMDIR,          //  (DIRS)'',
    ''   CHDIR,          //  (DIRS)'',
    ''   CHROOT,         //  (MISC)'',
    ''   SOCKET,         //  (SOCKETS)'',
    ''   FLUSH,          //  (SYNCS)'',
    ''   ALLOCATE,       //  (FILE_SPACE)'',
    ''   TRUNCATE,       //  (FILE_SPACE)'',
    ''   OPENDIR,        //  (DIR_METADATA)'',
    ''   CLOSEDIR,       //  (DIR_METADATA)'',
    ''   READDIR,        //  (DIR_METADATA)'',
    ''   SEEKDIR,        //  (DIR_METADATA)'',
    ''   TELLDIR,        //  (DIR_METADATA)'',
    ''   REWINDDIR,      //  (DIR_METADATA)'',
    ''   SCANDIR,        //  (DIR_METADATA)'',
    ''   CONNECT,        //  (SOCKETS)'',
    ''   ACCEPT,         //  (SOCKETS)'',
    ''   LISTEN,         //  (SOCKETS)'',
    ''   BIND,           //  (SOCKETS)'',
    ''   EXEC,           //  (PROCESSES)'',
    ''   KILL,           //  (PROCESSES)'',
    ''   '',
    ''   // operations listed below are NOT directly associated with'',
    ''   // C functions'',
    ''   START,          // Start execution of program'',
    ''   STOP,           // Stop execution of program'',
    ''   HTTP_REQ_SEND,  // Send an HTTP request. s1 will contain verb and URL'',
    ''   HTTP_REQ_RECV,  // Get an HTTP request.  s1 will contain verb and URL'',
    ''   HTTP_RESP_SEND, // Send an HTTP response. error code field will contain response code'',
    ''   HTTP_RESP_RECV, // Receive HTTP response'',
    ''   HTTP_RESP_FINI_SEND, // Sent final byte of HTTP response'',
    ''   HTTP_RESP_FINI_RECV, // Receive final byte of HTTP response'',
    '''',
    ''   MUTEX_LOCK,'',
    ''   MUTEX_UNLOCK,'',
    ''   MUTEX_INIT,'',
    ''   MUTEX_DESTROY,'',
    ''   THREAD_CREATE,'',
    ''   COND_WAIT,'',
    ''   COND_SIGNAL,'',
    ''   COND_BROADCAST,'',
    ''   '',
    ''   END_OPS         // keep this one as last'',
    ''} OP_TYPE;'',
    '''',
    ''#endif'']\<close>

definition domains_names :: "string list" where
  "domains_names = enum_to_strings domains_h"

definition ops_names :: "string list" where
  "ops_names = enum_to_strings ops_h"

lemma domains_names_eq: "domains_names = [
    ''LINKS'', ''XATTRS'', ''DIRS'', ''FILE_SYSTEMS'', ''FILE_DESCRIPTORS'', ''SYNCS'',
    ''SOCKETS'', ''SEEKS'', ''FILE_SPACE'', ''PROCESSES'', ''FILE_METADATA'', ''FILE_WRITE'',
    ''FILE_READ'', ''FILE_OPEN_CLOSE'', ''MISC'', ''DIR_METADATA'', ''START_STOP'', ''HTTP'',
    ''THREADS'']"
  by code_simp

lemma ops_names_eq: "ops_names = [
    ''OPEN'', ''CLOSE'', ''WRITE'', ''READ'', ''SYNC'', ''SEEK'', ''RENAME'', ''LINK'',
    ''UNLINK'', ''FCNTL'', ''DUP'', ''STAT'', ''ACCESS'', ''CHMOD'', ''CHOWN'', ''FLOCK'',
    ''READLINK'', ''UTIME'', ''GETXATTR'', ''SETXATTR'', ''LISTXATTR'', ''REMOVEXATTR'',
    ''MOUNT'', ''UMOUNT'', ''FORK'', ''MKNOD'', ''MKDIR'', ''RMDIR'', ''CHDIR'', ''CHROOT'',
    ''SOCKET'', ''FLUSH'', ''ALLOCATE'', ''TRUNCATE'', ''OPENDIR'', ''CLOSEDIR'', ''READDIR'',
    ''SEEKDIR'', ''TELLDIR'', ''REWINDDIR'', ''SCANDIR'', ''CONNECT'', ''ACCEPT'', ''LISTEN'',
    ''BIND'', ''EXEC'', ''KILL'', ''START'', ''STOP'', ''HTTP_REQ_SEND'', ''HTTP_REQ_RECV'',
    ''HTTP_RESP_SEND'', ''HTTP_RESP_RECV'', ''HTTP_RESP_FINI_SEND'', ''HTTP_RESP_FINI_RECV'',
    ''MUTEX_LOCK'', ''MUTEX_UNLOCK'', ''MUTEX_INIT'', ''MUTEX_DESTROY'', ''THREAD_CREATE'',
    ''COND_WAIT'', ''COND_SIGNAL'', ''COND_BROADCAST'']"
  by code_simp

end
