(* ===== verification/Domain_Mask.thy ===== *)
theory Domain_Mask
imports Domains_Ops
begin

unbundle bit_operations_syntax

text \<open>
  \<open>domain_list_to_bit_mask\<close> of \<open>include/utility_routines.h\<close>, which both the monitor and the plugin
  \<open>filter_domains\<close> compile in, the bit a domain has in the mask, and the laws a reader of a mask
  relies on.
\<close>

section \<open>The mask of a comma-separated list of domains\<close>

text \<open>The inner loop \<open>for (i = 0; i != END_DOMAINS; ++i)\<close>, which stops at the first name that
  matches. It starts at 0, so it meets \<open>END_DOMAINS\<close> and \<open><\<close> is the same test as \<open>!=\<close>.\<close>

function domain_scan :: "string \<Rightarrow> nat \<Rightarrow> 32 word \<Rightarrow> 32 word" where
  "domain_scan token i bit_mask =
     (if i < domain_index END_DOMAINS
      then if token = domains_names ! i then bit_mask OR push_bit i 1
           else domain_scan token (Suc i) bit_mask
      else bit_mask)"
  by pat_completeness auto
termination
  by (relation "measure (\<lambda>(_, i, _). domain_index END_DOMAINS - i)") auto

declare domain_scan.simps [simp del]

definition mask_token :: "string \<Rightarrow> 32 word \<Rightarrow> 32 word" where
  "mask_token token bit_mask =
     (let m = domain_scan token 0 bit_mask in if token = ''ALL'' then m OR NOT 0 else m)"

definition domain_list_to_bit_mask :: "string \<Rightarrow> 32 word" where
  "domain_list_to_bit_mask domain_list = fold mask_token (strtok_all '','' domain_list) 0"

text \<open>\<open>1 << dom_type\<close> for a domain number read from a record.\<close>

definition domain_bit_flag :: "int \<Rightarrow> 32 word res" where
  "domain_bit_flag d = (if 0 \<le> d \<and> d < 32 then Inr (push_bit (nat d) 1) else Inl BadShift)"

section \<open>Which bits are set\<close>

lemma length_domains_names [simp]: "length domains_names = 19"
  by (simp add: domains_names_eq)

lemma distinct_domains_names: "distinct domains_names"
  by (simp add: domains_names_eq)

lemma ALL_not_domain: "''ALL'' \<notin> set domains_names"
  by (simp add: domains_names_eq)

lemma domains_names_tokens:
  "n \<in> set domains_names \<Longrightarrow> n \<noteq> [] \<and> set n \<inter> set '','' = {}"
  by (auto simp: domains_names_eq)

lemma domain_scan_bit:
  "i \<le> 19 \<Longrightarrow> bit (domain_scan token i m) j \<longleftrightarrow>
    bit m j \<or> (i \<le> j \<and> j < 19 \<and> token = domains_names ! j)"
proof (induction token i m rule: domain_scan.induct)
  case (1 token i m)
  show ?case
  proof (cases "i < 19")
    case False
    with 1 show ?thesis by (subst domain_scan.simps) auto
  next
    case i: True
    show ?thesis
    proof (cases "token = domains_names ! i")
      case True
      have "j < 19 \<and> token = domains_names ! j \<longleftrightarrow> j = i"
        using i True distinct_domains_names by (auto simp: nth_eq_iff_index_eq)
      with i True show ?thesis
        by (subst domain_scan.simps) (auto simp: bit_simps)
    next
      case False
      with i "1.IH" have "bit (domain_scan token (Suc i) m) j \<longleftrightarrow>
        bit m j \<or> (Suc i \<le> j \<and> j < 19 \<and> token = domains_names ! j)" by simp
      with i False show ?thesis
        by (subst domain_scan.simps) (auto simp: Suc_le_eq order_le_less)
    qed
  qed
qed

lemma mask_token_bit:
  "bit (mask_token token m) j \<longleftrightarrow>
    bit m j \<or> (j < 19 \<and> token = domains_names ! j) \<or> (j < 32 \<and> token = ''ALL'')"
  by (auto simp: mask_token_def Let_def domain_scan_bit bit_simps dest: bit_imp_le_length)

lemma mask_tokens_bit:
  "bit (fold mask_token ts m) j \<longleftrightarrow>
    bit m j \<or> (j < 19 \<and> domains_names ! j \<in> set ts) \<or> (j < 32 \<and> ''ALL'' \<in> set ts)"
  by (induction ts arbitrary: m) (auto simp: mask_token_bit)

lemma bit_domain_mask:
  "bit (domain_list_to_bit_mask s) j \<longleftrightarrow>
    (j < 19 \<and> domains_names ! j \<in> set (strtok_all '','' s)) \<or>
    (j < 32 \<and> ''ALL'' \<in> set (strtok_all '','' s))"
  by (simp add: domain_list_to_bit_mask_def mask_tokens_bit)

lemma and_push_bit_eq_0: "m AND push_bit j 1 = 0 \<longleftrightarrow> \<not> bit m j" for m :: "32 word"
proof
  assume "m AND push_bit j 1 = 0"
  then have "\<not> bit (m AND push_bit j 1) j" by simp
  then show "\<not> bit m j" by (auto simp: bit_simps dest: bit_imp_le_length)
next
  assume "\<not> bit m j"
  then show "m AND push_bit j 1 = 0" by (auto intro!: bit_word_eqI simp: bit_simps)
qed

lemma domain_index_less: "d \<noteq> END_DOMAINS \<Longrightarrow> domain_index d < 19"
  by (cases d) auto

lemma domain_index_inj: "domain_index d = domain_index d' \<longleftrightarrow> d = d'"
  by (cases d; cases d') auto

end
