(* ===== verification/C_Float.thy ===== *)
theory C_Float
imports Prelude
begin

text \<open>
  The floating-point values of the program: the monitor computes an elapsed time in \<open>double\<close> and
  stores it as \<open>float\<close>, the plugins print it with \<open>%f\<close>. A finite value is the rational number it
  stands for, and an operation is the exact operation followed by rounding to the nearest number of
  the format, ties to even. The magnitudes here (milliseconds between two \<open>timeval\<close>s) stay far from
  overflow and from the subnormal range, which are not represented.
\<close>

definition pow2 :: "int \<Rightarrow> rat" where
  "pow2 e = (if 0 \<le> e then 2 ^ nat e else 1 / 2 ^ nat (- e))"

definition round_half_even :: "rat \<Rightarrow> int" where
  "round_half_even q =
     (let f = \<lfloor>q\<rfloor>; r = q - of_int f
      in if r < 1 / 2 then f else if 1 / 2 < r then f + 1 else if even f then f else f + 1)"

fun bit_length :: "nat \<Rightarrow> nat" where
  "bit_length n = (if n = 0 then 0 else Suc (bit_length (n div 2)))"

declare bit_length.simps [simp del]

text \<open>The exponent \<open>e\<close> for which \<open>|q| / 2^e\<close> has a \<open>p\<close>-bit integer part.\<close>

definition fl_exponent :: "nat \<Rightarrow> rat \<Rightarrow> int" where
  "fl_exponent p q =
     (let (a, b) = quotient_of \<bar>q\<bar>;
          e = int (bit_length (nat a)) - int (bit_length (nat b)) - int p
      in if 2 ^ p \<le> \<bar>q\<bar> / pow2 e then e + 1 else e)"

definition fl_round :: "nat \<Rightarrow> rat \<Rightarrow> rat" where
  "fl_round p q =
     (if q = 0 then 0
      else let e = fl_exponent p q in of_int (round_half_even (q / pow2 e)) * pow2 e)"

definition to_double :: "rat \<Rightarrow> rat" where
  "to_double = fl_round 53"

definition to_float :: "rat \<Rightarrow> rat" where
  "to_float = fl_round 24"

section \<open>Integers that fit are exact\<close>

lemma pow2_pos [simp]: "0 < pow2 e"
  by (simp add: pow2_def)

lemma pow2_nonneg_exp: "0 \<le> e \<Longrightarrow> pow2 e = 2 ^ nat e"
  by (simp add: pow2_def)

lemma round_half_even_int [simp]: "round_half_even (of_int n) = n"
  by (simp add: round_half_even_def)

lemma round_half_even_error: "\<bar>of_int (round_half_even q) - q\<bar> \<le> 1 / 2"
proof -
  have "of_int \<lfloor>q\<rfloor> \<le> q" "q < of_int \<lfloor>q\<rfloor> + 1" by linarith+
  then show ?thesis by (auto simp: round_half_even_def Let_def abs_le_iff split: if_splits)
qed

lemma round_half_even_nonneg: "0 \<le> q \<Longrightarrow> 0 \<le> round_half_even q"
  by (auto simp: round_half_even_def Let_def)

lemma bit_length_bound: "n < 2 ^ bit_length n"
proof (induction n rule: bit_length.induct)
  case (1 n)
  show ?case
  proof (cases "n = 0")
    case False
    with 1 have "n div 2 < 2 ^ bit_length (n div 2)" by simp
    then have "n < 2 * 2 ^ bit_length (n div 2)" by linarith
    with False show ?thesis by (subst bit_length.simps) simp
  qed simp
qed

lemma bit_length_le: "n < 2 ^ k \<Longrightarrow> bit_length n \<le> k"
proof (induction k arbitrary: n)
  case 0
  then show ?case by (subst bit_length.simps) simp
next
  case (Suc k)
  show ?case
  proof (cases "n = 0")
    case True
    then show ?thesis by (subst bit_length.simps) simp
  next
    case False
    from Suc.prems have "n div 2 < 2 ^ k" by simp
    then have "bit_length (n div 2) \<le> k" by (rule Suc.IH)
    with False show ?thesis by (subst bit_length.simps) simp
  qed
qed

lemma quotient_of_abs_int: "quotient_of \<bar>of_int n :: rat\<bar> = (\<bar>n\<bar>, 1)"
  by (metis of_int_abs of_int_rat quotient_of_Fract normalize_stable coprime_1_right zero_less_one)

lemma bit_length_1 [simp]: "bit_length (Suc 0) = 1"
  by (simp add: bit_length.simps)

lemma fl_exponent_int:
  assumes "\<bar>n\<bar> < 2 ^ p"
  shows "fl_exponent p (of_int n) \<le> 0"
proof -
  define e where "e = int (bit_length (nat \<bar>n\<bar>)) - 1 - int p"
  have "nat \<bar>n\<bar> < 2 ^ p" using assms by (simp add: nat_less_iff)
  then have "bit_length (nat \<bar>n\<bar>) \<le> p" by (rule bit_length_le)
  then have "e \<le> - 1" by (simp add: e_def)
  moreover have "fl_exponent p (of_int n) \<in> {e, e + 1}"
    by (auto simp: fl_exponent_def quotient_of_abs_int e_def Let_def)
  ultimately show ?thesis by auto
qed

lemma fl_round_int:
  assumes "\<bar>n\<bar> < 2 ^ p"
  shows "fl_round p (of_int n) = of_int n"
proof (cases "n = 0")
  case False
  define e where "e = fl_exponent p (of_int n)"
  have "e \<le> 0" using fl_exponent_int [OF assms] by (simp add: e_def)
  then have "(of_int n :: rat) / pow2 e = of_int (n * 2 ^ nat (- e))"
    by (cases "e = 0") (simp_all add: pow2_def)
  then have "round_half_even (of_int n / pow2 e) = n * 2 ^ nat (- e)"
    by (metis round_half_even_int)
  moreover have "(of_int (n * 2 ^ nat (- e)) :: rat) * pow2 e = of_int n"
    using \<open>e \<le> 0\<close> by (cases "e = 0") (simp_all add: pow2_def)
  ultimately show ?thesis using False by (simp add: fl_round_def e_def Let_def)
qed (simp add: fl_round_def)

end
