(* ===== verification/Monitor_Record.thy ===== *)
theory Monitor_Record
imports Domains_Ops C_Float
begin

text \<open>
  The record both programs exchange (\<open>include/monitor_record.h\<close>, \<open>include/mq.h\<close>), the bounds its
  arrays give, and the two C integer conversions the code performs on its fields.
\<close>

section \<open>Sizes and conversions\<close>

definition STR_LEN :: nat where "STR_LEN = 256"
definition HOSTNAME_LEN :: nat where "HOSTNAME_LEN = 64"
definition DEVICE_LEN :: nat where "DEVICE_LEN = 10"
definition PATH_MAX :: nat where "PATH_MAX = 4096"
definition FD_NONE :: int where "FD_NONE = - 1"

lemmas buffer_sizes = STR_LEN_def HOSTNAME_LEN_def DEVICE_LEN_def PATH_MAX_def

text \<open>Conversion of an integer to \<open>int\<close>: the low 32 bits, read as two's complement.\<close>

definition int32 :: "int \<Rightarrow> int" where
  "int32 x = (x + 2 ^ 31) mod 2 ^ 32 - 2 ^ 31"

lemma int32_range: "- (2 ^ 31) \<le> int32 x" "int32 x < 2 ^ 31"
proof -
  have "0 \<le> (x + 2 ^ 31) mod 2 ^ 32" "(x + 2 ^ 31) mod 2 ^ 32 < (2 ^ 31 + 2 ^ 31 :: int)" by simp_all
  then show "- (2 ^ 31) \<le> int32 x" "int32 x < 2 ^ 31"
    unfolding int32_def by linarith+
qed

lemma int32_id: "- (2 ^ 31) \<le> x \<Longrightarrow> x < 2 ^ 31 \<Longrightarrow> int32 x = x"
  unfolding int32_def by (subst mod_pos_pos_trivial) auto

section \<open>struct monitor\_record\_t and MONITOR\_MESSAGE\<close>

text \<open>\<open>dom_type\<close> and \<open>op_type\<close> are plain \<open>int\<close>s in the record: what arrives from the queue need not be
  an enumerator.\<close>

record monitor_record =
  mr_facility :: string
  mr_hostname :: string
  mr_device :: string
  mr_timestamp :: int
  mr_elapsed_time :: rat
  mr_pid :: int
  mr_dom_type :: int
  mr_op_type :: int
  mr_error_code :: int
  mr_fd :: int
  mr_bytes_transferred :: "64 word"
  mr_s1 :: string
  mr_s2 :: string

record monitor_message =
  mm_message_type :: int
  mm_monitor_record :: monitor_record

text \<open>What \<open>bzero\<close> or \<open>memset\<close> leave.\<close>

definition zero_record :: monitor_record where
  "zero_record = \<lparr>mr_facility = [], mr_hostname = [], mr_device = [], mr_timestamp = 0,
     mr_elapsed_time = 0, mr_pid = 0, mr_dom_type = 0, mr_op_type = 0, mr_error_code = 0, mr_fd = 0,
     mr_bytes_transferred = 0, mr_s1 = [], mr_s2 = []\<rparr>"

text \<open>A record as the memory of the struct allows it, and one whose strings are all terminated.\<close>

definition fits_record :: "monitor_record \<Rightarrow> bool" where
  "fits_record r \<longleftrightarrow>
     length (mr_facility r) \<le> STR_LEN \<and> length (mr_hostname r) \<le> HOSTNAME_LEN \<and>
     length (mr_device r) \<le> DEVICE_LEN \<and> length (mr_s1 r) \<le> PATH_MAX \<and> length (mr_s2 r) \<le> STR_LEN"

definition terminated_record :: "monitor_record \<Rightarrow> bool" where
  "terminated_record r \<longleftrightarrow>
     length (mr_facility r) < STR_LEN \<and> length (mr_hostname r) < HOSTNAME_LEN \<and>
     length (mr_device r) < DEVICE_LEN \<and> length (mr_s1 r) < PATH_MAX \<and> length (mr_s2 r) < STR_LEN"

lemma terminated_fits: "terminated_record r \<Longrightarrow> fits_record r"
  by (auto simp: terminated_record_def fits_record_def)

lemma zero_record_terminated: "terminated_record zero_record"
  by (simp add: terminated_record_def zero_record_def buffer_sizes)

end
