(* ===== verification/Monitor_State.thy ===== *)
theory Monitor_State
imports Domain_Mask Monitor_Record
begin

unbundle bit_operations_syntax

text \<open>
  The globals of \<open>io_monitor/io_monitor.c\<close> and their initialisation: \<open>initialize_monitor\<close> and
  \<open>load_library_functions\<close>.

  \<open>io_monitor.h\<close> of this commit no longer defines the macros the file uses, so what depends on them
  is a parameter: the result of \<open>getenv (ENV_X)\<close> is the field \<open>env_X\<close> of the environment, and the
  constants are fields of the platform of theory \<open>Monitor_Send\<close>. \<open>atof\<close> is a parameter as well.
\<close>

section \<open>Globals\<close>

record mon =
  m_failed_socket_connections :: int
  m_failed_ipc_sends :: int
  m_ipc_retries :: int
  m_ipc_retry_wait_lost_time :: int
  m_ipc_records :: int
  m_message_queue_key :: int
  m_message_queue_id :: int
  m_message_queue_path :: "string option"
  m_domain_bit_flags :: "32 word"
  m_facility :: string
  m_start_on_open :: "string option"
  m_socket_fd :: int
  m_paused :: bool
  m_have_elapsed_threshold :: bool
  m_elapsed_threshold :: rat
  m_count_based_sampling :: bool
  m_count_based_sample_frequency :: int
  m_count_intercepts :: int
  m_time_based_sampling :: bool
  m_within_time_based_sample :: bool
  m_start_time_based_sample :: "64 word"
  m_time_based_sample_duration :: "64 word"
  m_time_based_sample_frequency :: "64 word"
  m_libs_loaded :: bool   \<comment> \<open>\<open>NULL != orig_open\<close>\<close>

definition initial_mon :: mon where
  "initial_mon = \<lparr>m_failed_socket_connections = 0, m_failed_ipc_sends = 0, m_ipc_retries = 0,
     m_ipc_retry_wait_lost_time = 0, m_ipc_records = 0, m_message_queue_key = - 1,
     m_message_queue_id = - 1, m_message_queue_path = None, m_domain_bit_flags = 0,
     m_facility = [], m_start_on_open = None, m_socket_fd = - 1, m_paused = False,
     m_have_elapsed_threshold = False, m_elapsed_threshold = 0, m_count_based_sampling = False,
     m_count_based_sample_frequency = 10, m_count_intercepts = 0, m_time_based_sampling = False,
     m_within_time_based_sample = False, m_start_time_based_sample = 0,
     m_time_based_sample_duration = 2, m_time_based_sample_frequency = 10, m_libs_loaded = False\<rparr>"

record environment =
  env_FACILITY_ID :: "string option"
  env_MESSAGE_QUEUE_PATH :: "string option"
  env_MONITOR_DOMAINS :: "string option"
  env_START_ON_OPEN :: "string option"
  env_START_ON_ELAPSED :: "string option"
  env_COUNT_SAMPLE_FREQUENCY :: "string option"
  env_TIME_SAMPLE_FREQUENCY :: "string option"
  env_TIME_SAMPLE_DURATION :: "string option"

section \<open>Initialisation\<close>

definition load_library_functions :: "(string \<Rightarrow> rat) \<Rightarrow> environment \<Rightarrow> mon \<Rightarrow> mon" where
  "load_library_functions atof env m =
     (if m_libs_loaded m then m
      else let m1 = m\<lparr>m_start_on_open := env_START_ON_OPEN env\<rparr>;
               m2 = (case env_START_ON_OPEN env of
                       Some _ \<Rightarrow> m1\<lparr>m_paused := True\<rparr>
                     | None \<Rightarrow>
                        (case env_START_ON_ELAPSED env of
                           None \<Rightarrow> m1
                         | Some s \<Rightarrow>
                            let elapsed_value = atof s
                            in if elapsed_value > to_double (1 / 10)
                               then m1\<lparr>m_elapsed_threshold := elapsed_value,
                                       m_have_elapsed_threshold := True, m_paused := True\<rparr>
                               else m1))
           in m2\<lparr>m_libs_loaded := True\<rparr>)"

definition init_facility :: "environment \<Rightarrow> mon \<Rightarrow> mon" where
  "init_facility env m =
     m\<lparr>m_facility := (case env_FACILITY_ID env of Some f \<Rightarrow> strncpy f 4 | None \<Rightarrow> ''u'')\<rparr>"

definition init_domains :: "environment \<Rightarrow> mon \<Rightarrow> mon" where
  "init_domains env m =
     m\<lparr>m_domain_bit_flags :=
        (case env_MONITOR_DOMAINS env of
           Some l \<Rightarrow> if l = ''ALL'' then - 1 else domain_list_to_bit_mask l
         | None \<Rightarrow> 0)\<rparr>"

text \<open>\<open>unsigned long frequency = atol (...)\<close>.\<close>

definition atol_ulong :: "string \<Rightarrow> 64 word" where
  "atol_ulong s = word_of_int (atol s)"

definition init_count_sampling :: "environment \<Rightarrow> mon \<Rightarrow> mon" where
  "init_count_sampling env m =
     (case env_COUNT_SAMPLE_FREQUENCY env of
        None \<Rightarrow> m
      | Some s \<Rightarrow>
         if length s > 0
         then let frequency = atol_ulong s
              in if frequency > 0
                 then m\<lparr>m_count_based_sampling := True,
                        m_count_based_sample_frequency := int32 (uint frequency)\<rparr>
                 else m
         else m)"

definition init_time_sampling :: "environment \<Rightarrow> mon \<Rightarrow> mon" where
  "init_time_sampling env m =
     (case (env_TIME_SAMPLE_FREQUENCY env, env_TIME_SAMPLE_DURATION env) of
        (Some f, Some d) \<Rightarrow>
         if length f > 0 \<and> length d > 0
         then let frequency = atol_ulong f; duration = atol_ulong d
              in if frequency > 0 \<and> duration > 0
                 then m\<lparr>m_time_based_sampling := True,
                        m_time_based_sample_frequency := frequency,
                        m_time_based_sample_duration := duration\<rparr>
                 else m
         else m
      | _ \<Rightarrow> m)"

definition initialize_monitor :: "(string \<Rightarrow> rat) \<Rightarrow> environment \<Rightarrow> mon \<Rightarrow> mon" where
  "initialize_monitor atof env m =
     load_library_functions atof env
       (init_time_sampling env
         (init_count_sampling env
           (init_domains env
             ((init_facility env m)\<lparr>m_message_queue_path := env_MESSAGE_QUEUE_PATH env\<rparr>))))"

lemmas init_defs = initialize_monitor_def load_library_functions_def init_time_sampling_def
  init_count_sampling_def init_domains_def init_facility_def Let_def

end
