(* ===== verification/Monitor_Gate.thy ===== *)
theory Monitor_Gate
imports Monitor_State
begin

unbundle bit_operations_syntax

text \<open>
  The first half of \<open>record\<close> in \<open>io_monitor/io_monitor.c\<close>, which decides whether an intercepted call
  is reported: what is never captured, the resume conditions of a paused monitor, count-based and
  time-based sampling. The arguments of \<open>record\<close> are the record \<open>event\<close>.
\<close>

section \<open>The arguments of record\<close>

record timeval =
  tv_sec :: int
  tv_usec :: int

record event =
  ev_dom_type :: domain_type
  ev_op_type :: op_type
  ev_fd :: int
  ev_s1 :: "string option"
  ev_s2 :: "string option"
  ev_start_time :: timeval
  ev_end_time :: timeval
  ev_error_code :: int
  ev_bytes_transferred :: "64 word"

section \<open>The guards\<close>

text \<open>The early returns before the path of an OPEN is looked at.\<close>

definition ignore_event :: "mon \<Rightarrow> domain_type \<Rightarrow> int \<Rightarrow> bool" where
  "ignore_event m dm fd \<longleftrightarrow>
     m_failed_socket_connections m > 0 \<or>
     (m_socket_fd m \<noteq> FD_NONE \<and> fd = m_socket_fd m) \<or>
     (fd > - 1 \<and> fd < 3 \<and> dm \<noteq> START_STOP) \<or>
     m_domain_bit_flags m AND push_bit (domain_index dm) 1 = 0"

text \<open>The block \<open>if (op_type == OPEN)\<close>; the flag says whether \<open>record\<close> goes on. \<open>strcmp\<close> reads
  \<open>s1\<close>.\<close>

definition open_check :: "op_type \<Rightarrow> string option \<Rightarrow> mon \<Rightarrow> (bool \<times> mon) res" where
  "open_check op s1 m =
     (if op = OPEN
      then (case s1 of
              None \<Rightarrow> Inl NullDeref
            | Some p \<Rightarrow>
               if p = ''.'' then Inr (False, m)
               else if p = ''..'' then Inr (False, m)
               else Inr (True,
                 if m_paused m \<and> (case m_start_on_open m of None \<Rightarrow> False
                                   | Some needle \<Rightarrow> strstr p needle \<noteq> None)
                 then m\<lparr>m_paused := False\<rparr> else m))
      else Inr (True, m))"

definition elapsed_ms :: "timeval \<Rightarrow> timeval \<Rightarrow> rat" where
  "elapsed_ms start_time end_time =
     (let elapsed_time = to_double (to_double (of_int (tv_sec end_time - tv_sec start_time)) * 1000);
          usec = to_double (to_double (of_int (tv_usec end_time - tv_usec start_time)) / 1000)
      in to_double (elapsed_time + usec))"

definition elapsed_check :: "rat \<Rightarrow> mon \<Rightarrow> mon" where
  "elapsed_check elapsed_time m =
     (if m_paused m \<and> m_have_elapsed_threshold m \<and> elapsed_time > m_elapsed_threshold m
      then m\<lparr>m_paused := False\<rparr> else m)"

section \<open>Sampling\<close>

definition count_sample :: "mon \<Rightarrow> bool \<times> mon" where
  "count_sample m =
     (if m_count_based_sampling m
      then let n = m_count_intercepts m + 1
           in if n < m_count_based_sample_frequency m
              then (False, m\<lparr>m_count_intercepts := n\<rparr>)
              else (True, m\<lparr>m_count_intercepts := 0\<rparr>)
      else (True, m))"

definition time_sample :: "64 word \<Rightarrow> mon \<Rightarrow> bool \<times> mon" where
  "time_sample timestamp m =
     (if m_time_based_sampling m
      then if m_start_time_based_sample m = 0
           then (True, m\<lparr>m_start_time_based_sample := timestamp,
                         m_within_time_based_sample := True\<rparr>)
           else let m1 =
                  (if m_within_time_based_sample m
                   then let turn_off_time = m_start_time_based_sample m + m_time_based_sample_duration m
                        in if timestamp \<ge> turn_off_time
                           then m\<lparr>m_within_time_based_sample := False\<rparr> else m
                   else let turn_on_time = m_start_time_based_sample m + m_time_based_sample_frequency m
                        in if timestamp \<ge> turn_on_time
                           then m\<lparr>m_within_time_based_sample := True,
                                  m_start_time_based_sample := timestamp\<rparr>
                           else m)
                in (m_within_time_based_sample m1, m1)
      else (True, m))"

section \<open>The decision\<close>

text \<open>\<open>timestamp\<close> is what \<open>time (NULL)\<close> returns at this call.\<close>

definition record_gate :: "64 word \<Rightarrow> event \<Rightarrow> mon \<Rightarrow> (bool \<times> mon) res" where
  "record_gate timestamp e m =
     (if ignore_event m (ev_dom_type e) (ev_fd e) then Inr (False, m)
      else bindR (open_check (ev_op_type e) (ev_s1 e) m) (\<lambda>(go, m1).
        if \<not> go then Inr (False, m1)
        else let m2 = elapsed_check (elapsed_ms (ev_start_time e) (ev_end_time e)) m1
             in if m_paused m2 then Inr (False, m2)
                else case count_sample m2 of (pass, m3) \<Rightarrow>
                  if \<not> pass then Inr (False, m3) else Inr (time_sample timestamp m3)))"

lemmas gate_defs = record_gate_def ignore_event_def open_check_def elapsed_check_def
  count_sample_def time_sample_def Let_def

end
