(* ===== verification/Monitor_Send.thy ===== *)
theory Monitor_Send
imports Monitor_Gate
begin

unbundle bit_operations_syntax

text \<open>
  The platform the monitor runs on, as parameters, and the first of its two transports,
  \<open>send_msg_queue\<close>.

  A platform is a record of the operating-system calls on a world of any type \<open>'w\<close>; a call returns
  what C sees (a result, and \<open>errno\<close> where the code reads it) and the world after it. Reading the
  clock or the process id does not change the world. \<open>garbage\<close> is the value the compiler hands out
  where the code uses an \<open>int\<close> it never set. \<open>MQ_KEY_NONE\<close>, \<open>ZERO_BYTES\<close>, \<open>SOCKET_PORT\<close>,
  \<open>message_project_id\<close> and the initial \<open>error_code\<close> of \<open>DECL_VARS\<close> are macros or constants that no
  file of the repository defines.
\<close>

section \<open>The platform\<close>

record sockaddr_in =
  sin_family :: nat
  sin_addr :: "8 word \<times> 8 word \<times> 8 word \<times> 8 word"
  sin_port :: "16 word"   \<comment> \<open>as stored, in network order\<close>

text \<open>What is written to a TCP connection.\<close>

datatype payload = Header string | Payload monitor_record

record 'w platform =
  MQ_KEY_NONE :: int
  message_project_id :: int
  SOCKET_PORT :: "16 word"
  ZERO_BYTES :: "64 word"
  error_code_init :: int
  os_ftok :: "string \<Rightarrow> int \<Rightarrow> 'w \<Rightarrow> int \<times> 'w"
  os_msgget :: "int \<Rightarrow> int \<Rightarrow> 'w \<Rightarrow> int \<times> 'w"
  os_msgsnd :: "int \<Rightarrow> monitor_message \<Rightarrow> 'w \<Rightarrow> (int \<times> int) \<times> 'w"
  os_usleep :: "nat \<Rightarrow> 'w \<Rightarrow> 'w"
  os_time :: "'w \<Rightarrow> 64 word"
  os_clock :: "'w \<Rightarrow> timeval"
  os_getpid :: "'w \<Rightarrow> int"
  os_socket :: "'w \<Rightarrow> (int \<times> int) \<times> 'w"
  os_connect :: "int \<Rightarrow> sockaddr_in \<Rightarrow> 'w \<Rightarrow> (int \<times> int) \<times> 'w"
  os_setsockopt :: "int \<Rightarrow> 'w \<Rightarrow> 'w"
  os_write :: "int \<Rightarrow> payload \<Rightarrow> 'w \<Rightarrow> (int \<times> int) \<times> 'w"
  os_close :: "int \<Rightarrow> 'w \<Rightarrow> (int \<times> int) \<times> 'w"
  garbage :: "'w \<Rightarrow> int"

definition EAGAIN :: int where "EAGAIN = 11"

text \<open>\<open>0600 | IPC_CREAT\<close>.\<close>

definition mq_create_flags :: int where "mq_create_flags = 896"

section \<open>send\_msg\_queue\<close>

definition open_queue :: "'w platform \<Rightarrow> mon \<times> 'w \<Rightarrow> mon \<times> 'w" where
  "open_queue P = (\<lambda>(m, w).
     if m_message_queue_key m = MQ_KEY_NONE P
     then case m_message_queue_path m of
            None \<Rightarrow> (m, w)
          | Some path \<Rightarrow>
             case os_ftok P path (message_project_id P) w of (key, w1) \<Rightarrow>
               let m1 = m\<lparr>m_message_queue_key := key\<rparr>
               in if key \<noteq> - 1
                  then case os_msgget P key mq_create_flags w1 of
                         (qid, w2) \<Rightarrow> (m1\<lparr>m_message_queue_id := qid\<rparr>, w2)
                  else (m1, w1)
     else (m, w))"

text \<open>\<open>512 << retries\<close> microseconds.\<close>

definition backoff :: "nat \<Rightarrow> nat" where
  "backoff retries = push_bit retries 512"

lemma int_backoff: "int (backoff n) = 512 * 2 ^ n"
  by (simp add: backoff_def push_bit_eq_mult)

text \<open>The loop \<open>while (retries < 5)\<close>. After five failures it falls off the end of the function
  without a \<open>return\<close>.\<close>

function retry_send :: "'w platform \<Rightarrow> monitor_message \<Rightarrow> nat \<Rightarrow> mon \<times> 'w \<Rightarrow> int \<times> mon \<times> 'w" where
  "retry_send P msg retries (m, w) =
     (if retries < 5
      then case os_msgsnd P (m_message_queue_id m) msg w of ((r, errno), w1) \<Rightarrow>
        if r \<noteq> 0 \<and> errno = EAGAIN
        then let retries' = Suc retries; wait = backoff retries';
                 w2 = os_usleep P wait w1;
                 m1 = m\<lparr>m_ipc_retries := int32 (m_ipc_retries m + 1),
                        m_ipc_retry_wait_lost_time :=
                          int32 (m_ipc_retry_wait_lost_time m + int wait)\<rparr>
             in retry_send P msg retries' (m1, w2)
        else (r, m, w1)
      else (garbage P w, m, w))"
  by pat_completeness auto
termination
  by (relation "measure (\<lambda>(_, _, retries, _). 5 - retries)") auto

declare retry_send.simps [simp del]

definition send_msg_queue :: "'w platform \<Rightarrow> monitor_record \<Rightarrow> mon \<times> 'w \<Rightarrow> int \<times> mon \<times> 'w" where
  "send_msg_queue P rec mw =
     (case open_queue P mw of (m, w) \<Rightarrow>
        if m_message_queue_id m = MQ_KEY_NONE P then (- 1, m, w)
        else retry_send P \<lparr>mm_message_type = 1, mm_monitor_record = rec\<rparr> 0 (m, w))"

section \<open>What the transport may change\<close>

text \<open>Everything but the queue and the retry counters.\<close>

definition queue_config :: "mon \<Rightarrow> mon" where
  "queue_config m = m\<lparr>m_message_queue_key := 0, m_message_queue_id := 0, m_ipc_retries := 0,
     m_ipc_retry_wait_lost_time := 0\<rparr>"

lemma open_queue_frame: "open_queue P (m, w) = (m', w') \<Longrightarrow>
    queue_config m' = queue_config m \<and> m_ipc_retries m' = m_ipc_retries m \<and>
    m_ipc_retry_wait_lost_time m' = m_ipc_retry_wait_lost_time m"
  by (auto simp: open_queue_def queue_config_def Let_def split: if_splits option.splits prod.splits)

lemma retry_send_frame:
  "retry_send P msg n (m, w) = (r, m', w') \<Longrightarrow> queue_config m' = queue_config m"
proof (induction P msg n "(m, w)" arbitrary: m w rule: retry_send.induct)
  case (1 P msg retries m w)
  show ?case
    using "1.prems"
    by (subst (asm) retry_send.simps)
      (auto simp: Let_def queue_config_def split: if_splits prod.splits dest!: "1.hyps")
qed

lemma send_msg_queue_frame:
  "send_msg_queue P rec (m, w) = (r, m', w') \<Longrightarrow> queue_config m' = queue_config m"
  by (auto simp: send_msg_queue_def split: prod.splits if_splits
      dest!: open_queue_frame retry_send_frame)

text \<open>What the loop does, seen from outside: the world in front of its attempt \<open>i\<close>, counted from 0, if
  all attempts before it have found the queue full and each was followed by its wait, 1024 microseconds
  at first and twice as long every time.\<close>

primrec world_at :: "'w platform \<Rightarrow> int \<Rightarrow> monitor_message \<Rightarrow> 'w \<Rightarrow> nat \<Rightarrow> 'w" where
  "world_at P q msg w 0 = w"
| "world_at P q msg w (Suc i) = os_usleep P (1024 * 2 ^ i) (snd (os_msgsnd P q msg (world_at P q msg w i)))"

definition queue_full :: "'w platform \<Rightarrow> int \<Rightarrow> monitor_message \<Rightarrow> 'w \<Rightarrow> bool" where
  "queue_full P q msg w \<longleftrightarrow> (case os_msgsnd P q msg w of ((r, errno), w') \<Rightarrow> r \<noteq> 0 \<and> errno = EAGAIN)"

text \<open>The waits double from 1024 microseconds, so the first \<open>k\<close> of them add up to
  \<open>1024 * (2 ^ k - 1)\<close>.\<close>

lemma retry_send_rounds:
  assumes "retry_send P msg n (m, world_at P q msg w0 n) = (r, m', w')" "n \<le> 5" "q = m_message_queue_id m"
    and "0 \<le> m_ipc_retries m" "m_ipc_retries m + (5 - int n) < 2 ^ 31"
    and "0 \<le> m_ipc_retry_wait_lost_time m"
    and "m_ipc_retry_wait_lost_time m + 512 * (2 ^ 6 - 2 ^ Suc n) < 2 ^ 31"
  shows "\<exists>k. n \<le> k \<and> k \<le> 5 \<and> (\<forall>i. n \<le> i \<and> i < k \<longrightarrow> queue_full P q msg (world_at P q msg w0 i)) \<and>
    (if k < 5 then \<not> queue_full P q msg (world_at P q msg w0 k) \<and>
       r = fst (fst (os_msgsnd P q msg (world_at P q msg w0 k))) \<and> w' = snd (os_msgsnd P q msg (world_at P q msg w0 k))
     else r = garbage P w' \<and> w' = world_at P q msg w0 5) \<and>
    m_ipc_retries m' = m_ipc_retries m + int (k - n) \<and>
    m_ipc_retry_wait_lost_time m' = m_ipc_retry_wait_lost_time m + 512 * (2 ^ Suc k - 2 ^ Suc n)"
  using assms
proof (induction "5 - n" arbitrary: n m)
  case 0
  then have "n = 5" by simp
  with 0 show ?case by (subst (asm) retry_send.simps) auto
next
  case (Suc j)
  then have n: "n < 5" by simp
  obtain rc errno w1 where s: "os_msgsnd P q msg (world_at P q msg w0 n) = ((rc, errno), w1)"
    by (metis prod.exhaust)
  show ?case
  proof (cases "queue_full P q msg (world_at P q msg w0 n)")
    case False
    with Suc.prems n s show ?thesis
      by (subst (asm) retry_send.simps) (auto simp: queue_full_def intro!: exI [of _ n])
  next
    case True
    then have full: "rc \<noteq> 0" "errno = EAGAIN" using s by (simp_all add: queue_full_def)
    have le: "(2::int) ^ Suc (Suc n) \<le> 2 ^ 6"
      using n by (intro power_increasing) auto
    define m1 where "m1 = m\<lparr>m_ipc_retries := int32 (m_ipc_retries m + 1),
        m_ipc_retry_wait_lost_time := int32 (m_ipc_retry_wait_lost_time m + int (backoff (Suc n)))\<rparr>"
    have m1: "m_ipc_retries m1 = m_ipc_retries m + 1"
      "m_ipc_retry_wait_lost_time m1 = m_ipc_retry_wait_lost_time m + 512 * 2 ^ Suc n"
      "m_message_queue_id m1 = m_message_queue_id m"
      using Suc.prems n le unfolding m1_def int_backoff by (simp_all add: int32_id)
    have "backoff (Suc n) = 1024 * 2 ^ n" by (simp add: backoff_def push_bit_eq_mult)
    then have rs: "retry_send P msg (Suc n) (m1, world_at P q msg w0 (Suc n)) = (r, m', w')"
      using Suc.prems(1,3) n s full
      by (subst (asm) retry_send.simps) (simp add: m1_def Let_def)
    have "\<exists>k. Suc n \<le> k \<and> k \<le> 5 \<and> (\<forall>i. Suc n \<le> i \<and> i < k \<longrightarrow> queue_full P q msg (world_at P q msg w0 i)) \<and>
        (if k < 5 then \<not> queue_full P q msg (world_at P q msg w0 k) \<and>
           r = fst (fst (os_msgsnd P q msg (world_at P q msg w0 k))) \<and> w' = snd (os_msgsnd P q msg (world_at P q msg w0 k))
         else r = garbage P w' \<and> w' = world_at P q msg w0 5) \<and>
        m_ipc_retries m' = m_ipc_retries m1 + int (k - Suc n) \<and>
        m_ipc_retry_wait_lost_time m' = m_ipc_retry_wait_lost_time m1 + 512 * (2 ^ Suc k - 2 ^ Suc (Suc n))"
      using Suc.hyps(2) Suc.prems n le by (intro Suc.hyps(1) [OF _ rs]) (auto simp: m1)
    then obtain k where k: "Suc n \<le> k" "k \<le> 5" "\<forall>i. Suc n \<le> i \<and> i < k \<longrightarrow> queue_full P q msg (world_at P q msg w0 i)"
      "if k < 5 then \<not> queue_full P q msg (world_at P q msg w0 k) \<and>
           r = fst (fst (os_msgsnd P q msg (world_at P q msg w0 k))) \<and> w' = snd (os_msgsnd P q msg (world_at P q msg w0 k))
         else r = garbage P w' \<and> w' = world_at P q msg w0 5"
      "m_ipc_retries m' = m_ipc_retries m1 + int (k - Suc n)"
      "m_ipc_retry_wait_lost_time m' = m_ipc_retry_wait_lost_time m1 + 512 * (2 ^ Suc k - 2 ^ Suc (Suc n))"
      by blast
    have "queue_full P q msg (world_at P q msg w0 i)" if "n \<le> i" "i < k" for i
      using that k(3) True by (cases "i = n") auto
    moreover have "m_ipc_retries m' = m_ipc_retries m + int (k - n)"
      "m_ipc_retry_wait_lost_time m' = m_ipc_retry_wait_lost_time m + 512 * (2 ^ Suc k - 2 ^ Suc n)"
      using k(1,5,6) by (auto simp: m1)
    ultimately show ?thesis using k(1,2,4) by (intro exI [of _ k]) (simp only: Suc_leD simp_thms, blast)
  qed
qed

end
