(* ===== verification/Machine.thy ===== *)
theory Machine
imports Prelude
begin

text \<open>
  Sequences of operations. \<open>run step is s\<close> performs one \<open>step\<close> per input and collects the outputs; it
  ends in undefined behaviour as soon as a step does. The locale \<open>machine\<close> is the contract every
  stateful component of the program is verified against: from a state of its invariant, an
  admissible input gives a defined result, keeps the invariant and meets a postcondition.
\<close>

fun run :: "('i \<Rightarrow> 's \<Rightarrow> ('o \<times> 's) res) \<Rightarrow> 'i list \<Rightarrow> 's \<Rightarrow> ('o list \<times> 's) res" where
  "run step [] s = Inr ([], s)"
| "run step (i # is) s =
     bindR (step i s) (\<lambda>(out, s1). bindR (run step is s1) (\<lambda>(outs, s2). Inr (out # outs, s2)))"

lemma run_append:
  "run step (is @ js) s =
     bindR (run step is s) (\<lambda>(outs, s1). bindR (run step js s1) (\<lambda>(outs', s2). Inr (outs @ outs', s2)))"
proof (induction "is" arbitrary: s)
  case Nil
  show ?case by (cases "run step js s") auto
next
  case (Cons i "is")
  show ?case
  proof (cases "step i s")
    case (Inr p)
    obtain out s1 where p: "p = (out, s1)" by (cases p)
    show ?thesis
    proof (cases "run step is s1")
      case Inr': (Inr q)
      obtain outs s2 where "q = (outs, s2)" by (cases q)
      with Inr p Inr' show ?thesis
        by (cases "run step js s2") (auto simp: Cons.IH)
    qed (simp add: Inr p Cons.IH)
  qed simp
qed

lemma run_length: "run step is s = Inr (outs, s') \<Longrightarrow> length outs = length is"
  by (induction "is" arbitrary: s outs) auto

text \<open>Steps that cannot fail.\<close>

definition total_step :: "('i \<Rightarrow> 's \<Rightarrow> 'o \<times> 's) \<Rightarrow> 'i \<Rightarrow> 's \<Rightarrow> ('o \<times> 's) res" where
  "total_step f i s = Inr (f i s)"

locale machine =
  fixes step :: "'i \<Rightarrow> 's \<Rightarrow> ('o \<times> 's) res"
    and inv :: "'s \<Rightarrow> bool"
    and admissible :: "'i \<Rightarrow> bool"
    and post :: "'s \<Rightarrow> 'i \<Rightarrow> 'o \<Rightarrow> 's \<Rightarrow> bool"
  assumes step_ok: "inv s \<Longrightarrow> admissible i \<Longrightarrow>
    \<exists>out s'. step i s = Inr (out, s') \<and> inv s' \<and> post s i out s'"
begin

lemma step_defined: "inv s \<Longrightarrow> admissible i \<Longrightarrow> defined (step i s)"
  using step_ok by (force simp: defined_iff)

lemma step_inv: "inv s \<Longrightarrow> admissible i \<Longrightarrow> step i s = Inr (out, s') \<Longrightarrow> inv s'"
  using step_ok by force

lemma step_post: "inv s \<Longrightarrow> admissible i \<Longrightarrow> step i s = Inr (out, s') \<Longrightarrow> post s i out s'"
  using step_ok by force

lemma run_ok:
  "inv s \<Longrightarrow> \<forall>i\<in>set is. admissible i \<Longrightarrow>
    \<exists>outs s'. run step is s = Inr (outs, s') \<and> inv s' \<and> length outs = length is"
proof (induction "is" arbitrary: s)
  case Nil
  then show ?case by simp
next
  case (Cons i "is")
  then obtain out s1 where "step i s = Inr (out, s1)" "inv s1" using step_ok by force
  with Cons.IH [of s1] Cons.prems show ?case by fastforce
qed

lemma run_inv: "inv s \<Longrightarrow> \<forall>i\<in>set is. admissible i \<Longrightarrow> run step is s = Inr (outs, s') \<Longrightarrow> inv s'"
  using run_ok by force

text \<open>Every output of a run is the output of a step from a state of the invariant.\<close>

lemma run_nth:
  assumes "inv s" "\<forall>i\<in>set is. admissible i" "run step is s = Inr (outs, s')" "k < length is"
  shows "\<exists>s1 s2. run step (take k is) s = Inr (take k outs, s1) \<and> inv s1 \<and>
    step (is ! k) s1 = Inr (outs ! k, s2) \<and> post s1 (is ! k) (outs ! k) s2"
  using assms
proof (induction "is" arbitrary: s outs k)
  case Nil
  then show ?case by simp
next
  case (Cons i "is")
  then obtain out s1 outs1 where 1: "step i s = Inr (out, s1)" "inv s1" "post s i out s1"
    "outs = out # outs1" "run step is s1 = Inr (outs1, s')"
    using step_ok [of s i] by fastforce
  show ?case
  proof (cases k)
    case 0
    with 1 Cons.prems(1) show ?thesis by auto
  next
    case (Suc k')
    with Cons.IH [OF 1(2) _ 1(5), of k'] Cons.prems 1 show ?thesis by fastforce
  qed
qed

end

end
