(* ===== verification/Sampling.thy ===== *)
theory Sampling
imports Monitor_Gate Machine
begin

unbundle bit_operations_syntax

text \<open>
  What the gate of \<open>record\<close> lets through: resuming, the exact behaviour of count-based sampling, the
  windows of time-based sampling, and the effect of the environment on the sampling parameters.
\<close>

section \<open>The gate on one event\<close>

definition gate_step :: "64 word \<times> event \<Rightarrow> mon \<Rightarrow> (bool \<times> mon) res" where
  "gate_step te = record_gate (fst te) (snd te)"

text \<open>An event that neither the ignore rules nor the path of an OPEN keeps out.\<close>

definition reportable :: "mon \<Rightarrow> event \<Rightarrow> bool" where
  "reportable m e \<longleftrightarrow>
     \<not> ignore_event m (ev_dom_type e) (ev_fd e) \<and>
     (ev_op_type e = OPEN \<longrightarrow> (case ev_s1 e of None \<Rightarrow> False | Some p \<Rightarrow> p \<noteq> ''.'' \<and> p \<noteq> ''..''))"

text \<open>The condition under which an event resumes a paused monitor.\<close>

definition resumes :: "mon \<Rightarrow> event \<Rightarrow> bool" where
  "resumes m e \<longleftrightarrow>
     (ev_op_type e = OPEN \<and>
       (\<exists>p needle. ev_s1 e = Some p \<and> m_start_on_open m = Some needle \<and> sublist needle p)) \<or>
     (m_have_elapsed_threshold m \<and> elapsed_ms (ev_start_time e) (ev_end_time e) > m_elapsed_threshold m)"

lemma strstr_SomeD: "strstr h n = Some s \<Longrightarrow> sublist n h"
  using strstr_None_iff [of h n] by auto

lemma strstr_iff: "strstr h n \<noteq> None \<longleftrightarrow> sublist n h"
  by (simp add: strstr_None_iff)

lemma open_check_running:
  "\<not> m_paused m \<Longrightarrow> reportable m e \<Longrightarrow> open_check (ev_op_type e) (ev_s1 e) m = Inr (True, m)"
  by (auto simp: open_check_def reportable_def split: option.splits)

lemma gate_running:
  assumes "\<not> m_paused m" "reportable m e"
  shows "record_gate t e m =
    Inr (case count_sample m of (pass, m1) \<Rightarrow> if \<not> pass then (False, m1) else time_sample t m1)"
  using assms open_check_running [OF assms]
  by (auto simp: record_gate_def reportable_def elapsed_check_def Let_def split: prod.splits)

lemma count_sample_off [simp]: "\<not> m_count_based_sampling m \<Longrightarrow> count_sample m = (True, m)"
  by (simp add: count_sample_def)

lemma time_sample_off [simp]: "\<not> m_time_based_sampling m \<Longrightarrow> time_sample t m = (True, m)"
  by (simp add: time_sample_def)

section \<open>Pausing\<close>

text \<open>What the gate may change; in particular a running monitor is never paused again.\<close>

definition gate_config :: "mon \<Rightarrow> mon" where
  "gate_config m = m\<lparr>m_paused := False, m_count_intercepts := 0,
     m_within_time_based_sample := False, m_start_time_based_sample := 0\<rparr>"

definition gate_frame :: "mon \<Rightarrow> mon \<Rightarrow> bool" where
  "gate_frame m m' \<longleftrightarrow> gate_config m' = gate_config m \<and> (m_paused m' \<longrightarrow> m_paused m)"

lemma gate_frame_refl [simp]: "gate_frame m m"
  by (simp add: gate_frame_def)

lemma gate_frame_trans: "gate_frame m m' \<Longrightarrow> gate_frame m' m'' \<Longrightarrow> gate_frame m m''"
  by (simp add: gate_frame_def)

lemma open_check_frame: "open_check op s1 m = Inr (b, m') \<Longrightarrow> gate_frame m m'"
  by (auto simp: open_check_def gate_frame_def gate_config_def split: if_splits option.splits)

lemma elapsed_check_frame: "gate_frame m (elapsed_check x m)"
  by (simp add: elapsed_check_def gate_frame_def gate_config_def)

lemma count_sample_frame: "count_sample m = (b, m') \<Longrightarrow> gate_frame m m'"
  by (auto simp: count_sample_def gate_frame_def gate_config_def Let_def split: if_splits)

lemma time_sample_frame: "time_sample t m = (b, m') \<Longrightarrow> gate_frame m m'"
  by (auto simp: time_sample_def gate_frame_def gate_config_def Let_def split: if_splits)

lemma record_gate_frame:
  assumes "record_gate t e m = Inr (b, m')"
  shows "gate_frame m m'"
proof (cases "ignore_event m (ev_dom_type e) (ev_fd e)")
  case True
  with assms show ?thesis by (simp add: record_gate_def)
next
  case False
  with assms obtain go m1 where 1: "open_check (ev_op_type e) (ev_s1 e) m = Inr (go, m1)"
    by (auto simp: record_gate_def)
  define m2 where "m2 = elapsed_check (elapsed_ms (ev_start_time e) (ev_end_time e)) m1"
  have f1: "gate_frame m m1" "gate_frame m1 m2"
    using open_check_frame [OF 1] elapsed_check_frame unfolding m2_def by auto
  obtain pass m3 where 3: "count_sample m2 = (pass, m3)" by fastforce
  from assms False 1 3 have "m' \<in> {m1, m2, m3, snd (time_sample t m3)}"
    by (auto simp: record_gate_def m2_def [symmetric] Let_def split: if_splits)
  with f1 count_sample_frame [OF 3] time_sample_frame [of t m3] show ?thesis
    by (auto intro: gate_frame_trans simp: prod_eq_iff)
qed

lemma gate_paused_pass:
  assumes "record_gate t e m = Inr (True, m')" "m_paused m"
  shows "resumes m e \<and> reportable m e"
  using assms
  by (auto simp: record_gate_def reportable_def open_check_def elapsed_check_def resumes_def
      strstr_None_iff Let_def dest: strstr_SomeD split: if_splits option.splits prod.splits)

lemma count_sample_paused: "count_sample m = (b, m') \<Longrightarrow> m_paused m' = m_paused m"
  by (auto simp: count_sample_def Let_def split: if_splits)

lemma time_sample_paused: "time_sample t m = (b, m') \<Longrightarrow> m_paused m' = m_paused m"
  by (auto simp: time_sample_def Let_def split: if_splits)

lemma gate_pass_running:
  assumes "record_gate t e m = Inr (True, m')"
  shows "\<not> m_paused m'"
  using assms
  by (auto simp: record_gate_def Let_def dest!: count_sample_paused time_sample_paused
      split: if_splits prod.splits)

lemma gate_paused_stays:
  assumes "record_gate t e m = Inr (b, m')" "m_paused m" "\<not> resumes m e"
  shows "b = False \<and> m' = m"
  using assms
  by (auto simp: record_gate_def open_check_def elapsed_check_def resumes_def
      strstr_None_iff Let_def dest: strstr_SomeD split: if_splits option.splits prod.splits)

lemma run_paused_silent:
  assumes "m_paused m" "\<forall>te\<in>set xs. \<not> resumes m (snd te)" "run gate_step xs m = Inr (outs, m')"
  shows "outs = replicate (length xs) False \<and> m' = m"
  using assms
proof (induction xs arbitrary: outs)
  case Nil
  then show ?case by simp
next
  case (Cons te xs)
  then obtain b m1 outs1 where 1: "gate_step te m = Inr (b, m1)"
    "run gate_step xs m1 = Inr (outs1, m')" "outs = b # outs1"
    by auto
  with gate_paused_stays [OF 1(1) [unfolded gate_step_def]] Cons.prems have "b = False" "m1 = m" by auto
  with Cons.IH [of outs1] 1 Cons.prems show ?case by simp
qed

section \<open>Count-based sampling\<close>

definition count_step :: "unit \<Rightarrow> mon \<Rightarrow> (bool \<times> mon) res" where
  "count_step = total_step (\<lambda>_. count_sample)"

definition count_inv :: "int \<Rightarrow> mon \<Rightarrow> bool" where
  "count_inv f m \<longleftrightarrow> m_count_based_sampling m \<and> m_count_based_sample_frequency m = f \<and>
     0 \<le> m_count_intercepts m \<and> m_count_intercepts m < f"

lemma count_sample_mod:
  assumes "count_inv f m"
  shows "count_sample m = ((m_count_intercepts m + 1) mod f = 0,
    m\<lparr>m_count_intercepts := (m_count_intercepts m + 1) mod f\<rparr>)"
proof (cases "m_count_intercepts m + 1 < f")
  case True
  with assms have "(m_count_intercepts m + 1) mod f = m_count_intercepts m + 1"
    by (simp add: count_inv_def)
  with True assms show ?thesis by (auto simp: count_sample_def count_inv_def Let_def)
next
  case False
  with assms have "m_count_intercepts m + 1 = f" by (simp add: count_inv_def)
  with assms show ?thesis by (auto simp: count_sample_def count_inv_def Let_def)
qed

interpretation count_sampler: machine count_step "count_inv f" "\<lambda>_. True"
  "\<lambda>m _ pass m'. pass = ((m_count_intercepts m + 1) mod f = 0) \<and>
     m' = m\<lparr>m_count_intercepts := (m_count_intercepts m + 1) mod f\<rparr>" for f
  by unfold_locales
    (auto simp: count_step_def total_step_def count_sample_mod, auto simp: count_inv_def)

lemma reportable_upd [simp]:
  "reportable (m\<lparr>m_count_intercepts := n\<rparr>) e = reportable m e"
  "reportable (m\<lparr>m_start_time_based_sample := s\<rparr>) e = reportable m e"
  "reportable (m\<lparr>m_within_time_based_sample := w\<rparr>) e = reportable m e"
  by (simp_all add: reportable_def ignore_event_def)

lemma run_count:
  assumes "0 < f" "count_inv f m" "\<not> m_time_based_sampling m" "\<not> m_paused m"
    "\<forall>te\<in>set xs. reportable m (snd te)"
  shows "run gate_step xs m =
    Inr (map (\<lambda>i. (m_count_intercepts m + int i + 1) mod f = 0) [0..<length xs],
         m\<lparr>m_count_intercepts := (m_count_intercepts m + int (length xs)) mod f\<rparr>)"
  using assms
proof (induction xs arbitrary: m)
  case Nil
  then show ?case by (simp add: count_inv_def)
next
  case (Cons te xs)
  define c where "c = m_count_intercepts m"
  define m1 where "m1 = m\<lparr>m_count_intercepts := (c + 1) mod f\<rparr>"
  have step: "gate_step te m = Inr ((c + 1) mod f = 0, m1)"
    using Cons.prems
    by (auto simp: gate_step_def gate_running count_sample_mod [OF Cons.prems(2)] m1_def c_def)
  have 1: "count_inv f m1" using Cons.prems by (simp add: count_inv_def m1_def)
  have IH: "run gate_step xs m1 =
    Inr (map (\<lambda>i. ((c + 1) mod f + int i + 1) mod f = 0) [0..<length xs],
         m1\<lparr>m_count_intercepts := ((c + 1) mod f + int (length xs)) mod f\<rparr>)"
    using Cons.IH [OF Cons.prems(1) 1] Cons.prems by (simp add: m1_def)
  have eq': "((c + 1) mod f + k) mod f = (c + (k + 1)) mod f" for k
    by (subst mod_add_left_eq) (simp add: algebra_simps)
  have eq: "((c + 1) mod f + int i + 1) mod f = (c + int (Suc i) + 1) mod f" for i
    using eq' [of "int i + 1"] by (simp add: algebra_simps)
  show ?case
    using step IH
    by (simp add: eq eq' [of "int (length xs)"] m1_def c_def [symmetric] map_upt_Suc del: upt_Suc of_nat_Suc)
      (simp add: algebra_simps)
qed

section \<open>Time-based sampling\<close>

definition time_step :: "64 word \<Rightarrow> mon \<Rightarrow> (bool \<times> mon) res" where
  "time_step = total_step time_sample"

lemma time_step_eq: "time_step t m = Inr (time_sample t m)"
  by (simp add: time_step_def total_step_def)

text \<open>Adding the duration and the frequency to \<open>t\<close> does not wrap.\<close>

definition time_fits :: "mon \<Rightarrow> 64 word \<Rightarrow> bool" where
  "time_fits m t \<longleftrightarrow> 0 < unat t \<and>
     unat t + unat (m_time_based_sample_duration m) < 2 ^ 64 \<and>
     unat t + unat (m_time_based_sample_frequency m) < 2 ^ 64"

lemma unat_plus_fits: "unat (a :: 64 word) + unat b < 2 ^ 64 \<Longrightarrow> unat (a + b) = unat a + unat b"
  by (simp add: unat_word_ariths)

lemma time_sample_first:
  assumes "m_time_based_sampling m" "m_start_time_based_sample m = 0"
  shows "time_sample t m =
    (True, m\<lparr>m_start_time_based_sample := t, m_within_time_based_sample := True\<rparr>)"
  using assms by (simp add: time_sample_def)

lemma time_sample_within:
  assumes "m_time_based_sampling m" "time_fits m (m_start_time_based_sample m)"
    "m_within_time_based_sample m"
  shows "time_sample t m =
    (let b = unat t < unat (m_start_time_based_sample m) + unat (m_time_based_sample_duration m)
     in (b, m\<lparr>m_within_time_based_sample := b\<rparr>))"
proof -
  have nz: "m_start_time_based_sample m \<noteq> 0" using assms(2) by (auto simp: time_fits_def)
  have "m_start_time_based_sample m + m_time_based_sample_duration m \<le> t \<longleftrightarrow>
    unat (m_start_time_based_sample m) + unat (m_time_based_sample_duration m) \<le> unat t"
    using assms(2) by (simp add: word_le_nat_alt unat_plus_fits time_fits_def)
  with nz assms(1,3) show ?thesis
    by (auto simp: time_sample_def Let_def not_le)
qed

lemma time_sample_outside:
  assumes "m_time_based_sampling m" "time_fits m (m_start_time_based_sample m)"
    "\<not> m_within_time_based_sample m"
  shows "time_sample t m =
    (if unat (m_start_time_based_sample m) + unat (m_time_based_sample_frequency m) \<le> unat t
     then (True, m\<lparr>m_within_time_based_sample := True, m_start_time_based_sample := t\<rparr>)
     else (False, m))"
proof -
  have nz: "m_start_time_based_sample m \<noteq> 0" using assms(2) by (auto simp: time_fits_def)
  have "m_start_time_based_sample m + m_time_based_sample_frequency m \<le> t \<longleftrightarrow>
    unat (m_start_time_based_sample m) + unat (m_time_based_sample_frequency m) \<le> unat t"
    using assms(2) by (simp add: word_le_nat_alt unat_plus_fits time_fits_def)
  with nz assms(1,3) show ?thesis
    by (auto simp: time_sample_def Let_def)
qed

text \<open>
  The windows of an output sequence: a window opens at the first reported timestamp after an
  unreported one and lasts for the consecutive reported ones. \<open>windows prev s\<close> pairs the start of
  its window with each reported timestamp; \<open>prev\<close> says whether the previous one was reported, in the
  window that started at \<open>s\<close>.
\<close>

fun windows :: "bool \<Rightarrow> nat \<Rightarrow> (nat \<times> bool) list \<Rightarrow> (nat \<times> nat) list" where
  "windows prev s [] = []"
| "windows prev s ((t, b) # r) =
     (if b then let s' = (if prev then s else t) in (s', t) # windows True s' r
      else windows False s r)"

lemma run_time_windows:
  assumes "run time_step ts m = Inr (outs, m')"
    and "m_time_based_sampling m" "time_fits m (m_start_time_based_sample m)"
    and "\<forall>t\<in>set ts. time_fits m t \<and> m_start_time_based_sample m \<le> t" "sorted ts"
    and "d = unat (m_time_based_sample_duration m)" "0 < d"
    and "f = unat (m_time_based_sample_frequency m)" "s = unat (m_start_time_based_sample m)"
  defines "ws \<equiv> windows (m_within_time_based_sample m) s (zip (map unat ts) outs)"
  shows "(\<forall>(s', t)\<in>set ws. s' \<le> t \<and> t < s' + d \<and>
           (s' = s \<and> m_within_time_based_sample m \<or> s + f \<le> s')) \<and>
         sorted_wrt (\<lambda>a b. fst a = fst b \<or> fst a + f \<le> fst b) ws"
  unfolding ws_def using assms(1-9)
proof (induction ts arbitrary: m outs s)
  case Nil
  then show ?case by simp
next
  case (Cons t ts)
  from Cons.prems(1) obtain outs1 where r: "run time_step ts (snd (time_sample t m)) = Inr (outs1, m')"
    "outs = fst (time_sample t m) # outs1"
    by (cases "time_sample t m") (auto simp: time_step_eq [of t m])
  have le: "s \<le> unat t" using Cons.prems by (auto simp: word_le_nat_alt)
  show ?case
  proof (cases "m_within_time_based_sample m")
    case True
    define b where "b = (unat t < s + d)"
    define m1 where "m1 = m\<lparr>m_within_time_based_sample := b\<rparr>"
    have ts: "time_sample t m = (b, m1)"
      using time_sample_within [OF Cons.prems(2,3) True] Cons.prems by (simp add: b_def m1_def Let_def)
    have *: "(\<forall>(s', u)\<in>set (windows b s (zip (map unat ts) outs1)). s' \<le> u \<and> u < s' + d \<and>
           (s' = s \<and> b \<or> s + f \<le> s')) \<and>
         sorted_wrt (\<lambda>a b. fst a = fst b \<or> fst a + f \<le> fst b) (windows b s (zip (map unat ts) outs1))"
      using Cons.IH [of m1 outs1 s] r ts Cons.prems by (auto simp: m1_def time_fits_def)
    show ?thesis
    proof (cases b)
      case True': True
      with * le True show ?thesis by (auto simp: r(2) ts b_def)
    next
      case False
      with * le True show ?thesis by (auto simp: r(2) ts)
    qed
  next
    case False
    show ?thesis
    proof (cases "s + f \<le> unat t")
      case True
      define m1 where "m1 = m\<lparr>m_within_time_based_sample := True, m_start_time_based_sample := t\<rparr>"
      have ts: "time_sample t m = (True, m1)"
        using time_sample_outside [OF Cons.prems(2,3) False] Cons.prems True by (simp add: m1_def)
      have m1: "m_within_time_based_sample m1" "m_start_time_based_sample m1 = t"
        "m_time_based_sampling m1" "d = unat (m_time_based_sample_duration m1)"
        "f = unat (m_time_based_sample_frequency m1)" "time_fits m1 = time_fits m"
        using Cons.prems by (simp_all add: m1_def time_fits_def fun_eq_iff)
      have prems: "run time_step ts m1 = Inr (outs1, m')" "time_fits m t"
        "\<forall>x\<in>set ts. time_fits m x \<and> t \<le> x" "sorted ts"
        using r(1) Cons.prems(4,5) by (simp_all add: ts)
      have *: "(\<forall>(s', u)\<in>set (windows True (unat t) (zip (map unat ts) outs1)). s' \<le> u \<and> u < s' + d \<and>
           (s' = unat t \<or> unat t + f \<le> s')) \<and>
         sorted_wrt (\<lambda>a b. fst a = fst b \<or> fst a + f \<le> fst b)
           (windows True (unat t) (zip (map unat ts) outs1))"
        using Cons.IH [of m1 outs1 "unat t", unfolded m1(2,6),
          OF prems(1) m1(3) prems(2,3,4) m1(4) Cons.prems(7) m1(5) refl] m1(1) by simp
      then have "\<forall>p\<in>set (windows True (unat t) (zip (map unat ts) outs1)).
          fst p \<le> snd p \<and> snd p < fst p + d \<and> s + f \<le> fst p \<and>
          (unat t = fst p \<or> unat t + f \<le> fst p)"
        using True by (auto simp: case_prod_beta)
      with * False True Cons.prems(7) show ?thesis
        by (simp add: r(2) ts Let_def case_prod_beta)
    next
      case f: False
      have ts: "time_sample t m = (False, m)"
        using time_sample_outside [OF Cons.prems(2,3) False] Cons.prems f by simp
      have "(\<forall>(s', u)\<in>set (windows False s (zip (map unat ts) outs1)). s' \<le> u \<and> u < s' + d \<and>
           s + f \<le> s') \<and>
         sorted_wrt (\<lambda>a b. fst a = fst b \<or> fst a + f \<le> fst b)
           (windows False s (zip (map unat ts) outs1))"
        using Cons.IH [of m outs1 s] r ts Cons.prems False by auto
      with False show ?thesis by (simp add: r(2) ts)
    qed
  qed
qed

lemma gate_config_fields:
  assumes "gate_config m' = gate_config m"
  shows "reportable m' e = reportable m e" "m_count_based_sampling m' = m_count_based_sampling m"
  using assms by (cases m; cases m'; simp add: gate_config_def reportable_def ignore_event_def)+

text \<open>Without count-based sampling a running gate is exactly the time sampler.\<close>

lemma run_gate_time:
  assumes "\<not> m_paused m" "\<not> m_count_based_sampling m" "\<forall>te\<in>set xs. reportable m (snd te)"
  shows "run gate_step xs m = run time_step (map fst xs) m"
  using assms
proof (induction xs arbitrary: m)
  case (Cons te xs)
  obtain b m1 where ts: "time_sample (fst te) m = (b, m1)" by fastforce
  have fr: "gate_config m1 = gate_config m" "\<not> m_paused m1"
    using time_sample_frame [OF ts] Cons.prems(1) by (auto simp: gate_frame_def)
  note same = gate_config_fields [OF fr(1)]
  have 1: "gate_step te m = Inr (b, m1)"
    using Cons.prems ts by (simp add: gate_step_def gate_running)
  have 2: "time_step (fst te) m = Inr (b, m1)"
    using ts by (simp add: time_step_eq)
  show ?case
    using Cons.IH [of m1] Cons.prems fr same by (simp add: 1 2)
qed simp

end
