(* ===== verification/Recorder.thy ===== *)
theory Recorder
imports Monitor_Send Sampling
begin

unbundle bit_operations_syntax

text \<open>
  The second half of \<open>record\<close>: building the record, the choice of the transport, the counters; the
  TCP transport \<open>send_tcp_socket\<close>; and the library's constructor and destructor \<open>init\<close> and \<open>fini\<close>.

  The library is preloaded, so the calls \<open>socket\<close>, \<open>connect\<close>, \<open>write\<close> and \<open>close\<close> inside
  \<open>send_tcp_socket\<close> reach its own interposed functions, which call \<open>record\<close> again. The model keeps
  that recursion: \<open>record_event P d\<close> is \<open>record\<close> with room for \<open>d\<close> nested calls on the stack, and
  running out of it is \<open>StackOverflow\<close>.
\<close>

section \<open>Byte order and addresses\<close>

definition byte_swap :: "16 word \<Rightarrow> 16 word" where
  "byte_swap x = push_bit 8 x OR drop_bit 8 x"

text \<open>\<open>htons\<close> and \<open>be16toh\<close> on a little-endian machine.\<close>

definition htons :: "16 word \<Rightarrow> 16 word" where "htons = byte_swap"
definition be16toh :: "16 word \<Rightarrow> 16 word" where "be16toh = byte_swap"

lemma be16toh_htons [simp]: "be16toh (htons p) = p"
  by (auto simp: be16toh_def htons_def byte_swap_def bit_simps intro!: bit_word_eqI)

definition AF_INET :: nat where "AF_INET = 2"

definition real_ip :: "sockaddr_in \<Rightarrow> string option" where
  "real_ip ai =
     (if sin_family ai \<noteq> AF_INET then None
      else case sin_addr ai of (a, b, c, d) \<Rightarrow>
        Some (show_nat (unat a) @ ''.'' @ show_nat (unat b) @ ''.'' @ show_nat (unat c) @ ''.'' @
              show_nat (unat d) @ '':'' @ show_nat (unat (be16toh (sin_port ai)))))"

section \<open>The record\<close>

text \<open>\<open>RECORD_FIELD_S\<close> on the zeroed record: \<open>strncpy\<close>, then a NUL in the last place.\<close>

definition record_field_s :: "nat \<Rightarrow> string option \<Rightarrow> string" where
  "record_field_s n f = (case f of None \<Rightarrow> [] | Some s \<Rightarrow> take (n - 1) (strncpy s n))"

definition make_record :: "'w platform \<Rightarrow> 'w \<Rightarrow> mon \<Rightarrow> event \<Rightarrow> monitor_record" where
  "make_record P w m e = zero_record\<lparr>
     mr_facility := record_field_s STR_LEN (Some (m_facility m)),
     mr_timestamp := int32 (uint (os_time P w)),
     mr_elapsed_time := to_float (elapsed_ms (ev_start_time e) (ev_end_time e)),
     mr_pid := os_getpid P w,
     mr_dom_type := int (domain_index (ev_dom_type e)),
     mr_op_type := int (op_index (ev_op_type e)),
     mr_error_code := ev_error_code e,
     mr_fd := ev_fd e,
     mr_bytes_transferred := ev_bytes_transferred e,
     mr_s1 := record_field_s PATH_MAX (ev_s1 e),
     mr_s2 := record_field_s STR_LEN (ev_s2 e)\<rparr>"

section \<open>Interposed calls\<close>

type_synonym 'w recorder = "event \<Rightarrow> mon \<times> 'w \<Rightarrow> (mon \<times> 'w) res"

text \<open>What \<open>generate_interposer.sh\<close> emits around an original function that is no variant of
  \<open>exec\<close>: take the time, call, take the time, run the hook, \<open>record\<close>, return the result. \<open>mk\<close> is the
  row of \<open>monitored_functions.data\<close>: from the result, the new \<open>errno\<close> and the two times it makes the
  arguments of \<open>record\<close>. The hook of the row of \<open>write\<close> also calls \<open>check_for_http\<close>, which on the two
  writes of the monitor does nothing; that the four wrappers, run as the program the generator makes of their
  rows, are these functions is shown in \<open>Own_Calls\<close> and \<open>monitor_calls_are_wrapped\<close>.\<close>

definition interposed ::
  "'w platform \<Rightarrow> 'w recorder \<Rightarrow> ('w \<Rightarrow> (int \<times> int) \<times> 'w) \<Rightarrow>
   (int \<Rightarrow> int \<Rightarrow> timeval \<Rightarrow> timeval \<Rightarrow> event) \<Rightarrow> mon \<times> 'w \<Rightarrow> (int \<times> mon \<times> 'w) res" where
  "interposed P rec orig mk = (\<lambda>(m, w).
     let start_time = os_clock P w in
     case orig w of ((result, errno), w1) \<Rightarrow>
       let end_time = os_clock P w1
       in bindR (rec (mk result errno start_time end_time) (m, w1)) (\<lambda>mw. Inr (result, mw)))"

definition socket_event :: "'w platform \<Rightarrow> int \<Rightarrow> int \<Rightarrow> timeval \<Rightarrow> timeval \<Rightarrow> event" where
  "socket_event P result errno t0 t1 =
     \<lparr>ev_dom_type = SOCKETS, ev_op_type = SOCKET, ev_fd = result, ev_s1 = None, ev_s2 = None,
      ev_start_time = t0, ev_end_time = t1,
      ev_error_code = (if result = - 1 then errno else error_code_init P),
      ev_bytes_transferred = ZERO_BYTES P\<rparr>"

definition connect_event ::
  "'w platform \<Rightarrow> int \<Rightarrow> sockaddr_in \<Rightarrow> int \<Rightarrow> int \<Rightarrow> timeval \<Rightarrow> timeval \<Rightarrow> event" where
  "connect_event P fd addr result errno t0 t1 =
     \<lparr>ev_dom_type = SOCKETS, ev_op_type = CONNECT, ev_fd = fd,
      ev_s1 = Some (case real_ip addr of None \<Rightarrow> [] | Some path \<Rightarrow> path), ev_s2 = None,
      ev_start_time = t0, ev_end_time = t1,
      ev_error_code = (if result = - 1 then errno else error_code_init P),
      ev_bytes_transferred = ZERO_BYTES P\<rparr>"

definition write_event ::
  "'w platform \<Rightarrow> int \<Rightarrow> int \<Rightarrow> int \<Rightarrow> int \<Rightarrow> timeval \<Rightarrow> timeval \<Rightarrow> event" where
  "write_event P fd count result errno t0 t1 =
     \<lparr>ev_dom_type = FILE_WRITE, ev_op_type = WRITE, ev_fd = fd, ev_s1 = None, ev_s2 = None,
      ev_start_time = t0, ev_end_time = t1,
      ev_error_code = (if result < 0 then errno else error_code_init P),
      ev_bytes_transferred = word_of_int count\<rparr>"

definition close_event :: "'w platform \<Rightarrow> int \<Rightarrow> int \<Rightarrow> int \<Rightarrow> timeval \<Rightarrow> timeval \<Rightarrow> event" where
  "close_event P fd result errno t0 t1 =
     \<lparr>ev_dom_type = FILE_OPEN_CLOSE, ev_op_type = CLOSE, ev_fd = fd, ev_s1 = None, ev_s2 = None,
      ev_start_time = t0, ev_end_time = t1,
      ev_error_code = (if result = - 1 then errno else error_code_init P),
      ev_bytes_transferred = ZERO_BYTES P\<rparr>"

section \<open>send\_tcp\_socket\<close>

text \<open>\<open>sizeof (struct monitor_record_t)\<close> with the usual alignments: 330 bytes of strings, 2 of
  padding, seven 4-byte fields, an 8-byte one, 4352 bytes of strings.\<close>

definition record_length :: int where "record_length = 4720"

definition ipc_server :: "'w platform \<Rightarrow> sockaddr_in" where
  "ipc_server P = \<lparr>sin_family = AF_INET, sin_addr = (127, 0, 0, 1), sin_port = htons (SOCKET_PORT P)\<rparr>"

definition tcp_transfer ::
  "'w platform \<Rightarrow> 'w recorder \<Rightarrow> int \<Rightarrow> monitor_record \<Rightarrow> mon \<times> 'w \<Rightarrow> (int \<times> mon \<times> 'w) res" where
  "tcp_transfer P rec sockfd r = (\<lambda>(m, w).
     let w1 = os_setsockopt P sockfd (os_setsockopt P sockfd w);
         header = show_int record_length
     in bindR (interposed P rec (os_write P sockfd (Header header)) (write_event P sockfd 10) (m, w1))
          (\<lambda>(rc, mw2).
            if rc = 10
            then bindR (interposed P rec (os_write P sockfd (Payload r))
                         (write_event P sockfd record_length) mw2)
                   (\<lambda>(rc, mw3). Inr (if rc = record_length then 0 else - 1, mw3))
            else Inr (- 1, mw2)))"

definition send_tcp_socket ::
  "'w platform \<Rightarrow> 'w recorder \<Rightarrow> monitor_record \<Rightarrow> mon \<times> 'w \<Rightarrow> (int \<times> mon \<times> 'w) res" where
  "send_tcp_socket P rec r mw =
     bindR (interposed P rec (os_socket P) (socket_event P) mw) (\<lambda>(sockfd, m1, w1).
       if sockfd > 0
       then let m2 = m1\<lparr>m_socket_fd := sockfd\<rparr> in
         bindR (interposed P rec (os_connect P sockfd (ipc_server P))
                  (connect_event P sockfd (ipc_server P)) (m2, w1)) (\<lambda>(rc, m3, w3).
           bindR (if rc = 0 then tcp_transfer P rec sockfd r (m3, w3)
                  else Inr (- 1, m3\<lparr>m_failed_socket_connections :=
                                      int32 (m_failed_socket_connections m3 + 1)\<rparr>, w3))
             (\<lambda>(rc, mw4).
               bindR (interposed P rec (os_close P sockfd) (close_event P sockfd) mw4)
                 (\<lambda>(_, m5, w5). Inr (rc, m5\<lparr>m_socket_fd := FD_NONE\<rparr>, w5))))
       else Inr (garbage P w1, m1, w1))"

section \<open>record\<close>

definition count_ipc :: "int \<Rightarrow> mon \<Rightarrow> mon" where
  "count_ipc rc_ipc m =
     (if rc_ipc \<noteq> 0 then m\<lparr>m_failed_ipc_sends := int32 (m_failed_ipc_sends m + 1)\<rparr>
      else m\<lparr>m_ipc_records := int32 (m_ipc_records m + 1)\<rparr>)"

text \<open>\<open>record\<close> over any transport; \<open>message_queue_path\<close> selects the one the code uses.\<close>

definition report ::
  "'w platform \<Rightarrow> (monitor_record \<Rightarrow> mon \<times> 'w \<Rightarrow> (int \<times> mon \<times> 'w) res) \<Rightarrow> 'w recorder" where
  "report P send e = (\<lambda>(m, w).
     bindR (record_gate (os_time P w) e m) (\<lambda>(pass, m1).
       if \<not> pass then Inr (m1, w)
       else bindR (send (make_record P w m1 e) (m1, w))
              (\<lambda>(rc_ipc, m2, w2). Inr (count_ipc rc_ipc m2, w2))))"

definition transport ::
  "'w platform \<Rightarrow> 'w recorder \<Rightarrow> monitor_record \<Rightarrow> mon \<times> 'w \<Rightarrow> (int \<times> mon \<times> 'w) res" where
  "transport P rec r mw =
     (case m_message_queue_path (fst mw) of
        Some _ \<Rightarrow> Inr (send_msg_queue P r mw)
      | None \<Rightarrow> send_tcp_socket P rec r mw)"

primrec record_event :: "'w platform \<Rightarrow> nat \<Rightarrow> 'w recorder" where
  "record_event P 0 = (\<lambda>e mw. Inl StackOverflow)"
| "record_event P (Suc d) = report P (transport P (record_event P d))"

section \<open>init and fini\<close>

text \<open>\<open>init\<close> reads \<open>/proc/<pid>/cmdline\<close> into the array \<open>char cmdline[PATH_MAX]\<close> that still holds
  this path: \<open>len\<close> is the result of \<open>read\<close>, \<open>data\<close> the bytes read. The loop \<open>while (--len)\<close> replaces
  the NULs at the positions \<open>len - 2\<close> down to 1; it runs off the array when it starts at 0 or below.
  The result is what the array holds as a string: behind the data there is the rest of the path with
  its NUL, then bytes that were never set.\<close>

definition proc_path :: "int \<Rightarrow> string" where
  "proc_path pid = ''/proc/'' @ show_int pid @ ''/cmdline''"

definition init_cmdline :: "int \<Rightarrow> int \<Rightarrow> string \<Rightarrow> string res" where
  "init_cmdline pid len data =
     (if len = 0 then Inr ''could not determine path''
      else if len - 1 \<le> 0 then Inl OutOfBounds
      else let buf = take 1 data @ map (\<lambda>c. if c = NUL then CHR '' '' else c)
                       (take (nat len - 2) (drop 1 data)) @ drop (nat len - 1) data;
               arr = buf @ drop (nat len) (proc_path pid @ [NUL])
           in if NUL \<in> set arr then Inr (takeWhile (\<lambda>c. c \<noteq> NUL) arr)
              else if nat len < PATH_MAX then Inl UninitRead else Inl OutOfBounds)"

definition start_event :: "string \<Rightarrow> string \<Rightarrow> timeval \<Rightarrow> timeval \<Rightarrow> 64 word \<Rightarrow> event" where
  "start_event cmdline ppid t0 t1 zero =
     \<lparr>ev_dom_type = START_STOP, ev_op_type = START, ev_fd = 0, ev_s1 = Some cmdline,
      ev_s2 = Some ppid, ev_start_time = t0, ev_end_time = t1,
      ev_error_code = 0, ev_bytes_transferred = zero\<rparr>"

definition chdir_event :: "string option \<Rightarrow> timeval \<Rightarrow> timeval \<Rightarrow> 64 word \<Rightarrow> event" where
  "chdir_event current_dir t0 t1 zero =
     \<lparr>ev_dom_type = DIRS, ev_op_type = CHDIR, ev_fd = FD_NONE, ev_s1 = current_dir, ev_s2 = None,
      ev_start_time = t0, ev_end_time = t1, ev_error_code = 0, ev_bytes_transferred = zero\<rparr>"

definition init ::
  "'w platform \<Rightarrow> 'w recorder \<Rightarrow> int \<Rightarrow> string \<Rightarrow> int \<Rightarrow> string option \<Rightarrow> mon \<times> 'w \<Rightarrow> (mon \<times> 'w) res" where
  "init P rec len data ppid current_dir mw =
     bindR (init_cmdline (os_getpid P (snd mw)) len data) (\<lambda>cmdline.
     bindR (sprintf_arr 15 (''PPID:'' @ show_int ppid)) (\<lambda>ppid.
       let t0 = os_clock P (snd mw); t1 = os_clock P (snd mw) in
       bindR (rec (start_event cmdline ppid t0 t1 (ZERO_BYTES P)) mw)
         (rec (chdir_event current_dir t0 t1 (ZERO_BYTES P)))))"

definition stop_event :: "string \<Rightarrow> timeval \<Rightarrow> timeval \<Rightarrow> 64 word \<Rightarrow> event" where
  "stop_event summary t0 t1 zero =
     \<lparr>ev_dom_type = START_STOP, ev_op_type = STOP, ev_fd = 0, ev_s1 = Some summary, ev_s2 = None,
      ev_start_time = t0, ev_end_time = t1, ev_error_code = 0, ev_bytes_transferred = zero\<rparr>"

definition smprintf :: "string \<Rightarrow> int \<Rightarrow> string" where
  "smprintf name value = name @ '' = '' @ show_int value @ ''; ''"

definition fini_summary :: "mon \<Rightarrow> string" where
  "fini_summary m =
     smprintf ''failed_ipc_sends'' (m_failed_ipc_sends m) @
     smprintf ''ipc_retries'' (m_ipc_retries m) @
     smprintf ''ipc_retry_wait_lost_time'' (m_ipc_retry_wait_lost_time m) @
     smprintf ''ipc_records'' (m_ipc_records m)"

definition fini :: "'w platform \<Rightarrow> 'w recorder \<Rightarrow> mon \<times> 'w \<Rightarrow> (mon \<times> 'w) res" where
  "fini P rec mw =
     bindR (sprintf_arr PATH_MAX (fini_summary (fst mw))) (\<lambda>summary.
       rec (stop_event summary (os_clock P (snd mw)) (os_clock P (snd mw)) (ZERO_BYTES P)) mw)"

end
