(* ===== verification/Reporting.thy ===== *)
theory Reporting
imports Recorder
begin

unbundle bit_operations_syntax

text \<open>
  What \<open>record\<close> guarantees over its two transports: it never sends an unterminated string, it accounts
  for every record it hands to a transport, it is silent after a failed connection, and on which
  conditions its nested calls end.
\<close>

section \<open>The transport contract\<close>

text \<open>
  What \<open>record\<close> relies on in a transport that is \<open>ready\<close>: sending returns, leaves the counters of
  \<open>record\<close> alone, keeps the monitor running and stays ready. What the gate and the counters change
  does not affect readiness.
\<close>

locale ipc_channel =
  fixes P :: "'w platform"
    and send :: "monitor_record \<Rightarrow> mon \<times> 'w \<Rightarrow> (int \<times> mon \<times> 'w) res"
    and ready :: "mon \<Rightarrow> bool"
  assumes send_ok: "ready m \<Longrightarrow> \<exists>rc m' w'. send r (m, w) = Inr (rc, m', w') \<and> ready m' \<and>
      m_ipc_records m' = m_ipc_records m \<and> m_failed_ipc_sends m' = m_failed_ipc_sends m \<and>
      m_paused m' = m_paused m"
    and ready_gate: "ready m \<Longrightarrow> gate_frame m m' \<Longrightarrow> ready m'"
    and ready_count: "ready m \<Longrightarrow> ready (count_ipc rc m)"
begin

lemma report_silent:
  "record_gate (os_time P w) e m = Inr (False, m') \<Longrightarrow> report P send e (m, w) = Inr (m', w)"
  by (simp add: report_def)

lemma report_sends:
  assumes "ready m" "record_gate (os_time P w) e m = Inr (True, m1)"
  shows "\<exists>(rc::int) m' w'. report P send e (m, w) = Inr (m', w') \<and> ready m' \<and>
    m_paused m' = m_paused m1 \<and>
    m_ipc_records m' = (if rc = 0 then int32 (m_ipc_records m + 1) else m_ipc_records m) \<and>
    m_failed_ipc_sends m' = (if rc = 0 then m_failed_ipc_sends m else int32 (m_failed_ipc_sends m + 1))"
proof -
  have fr: "gate_frame m m1" using assms(2) by (rule record_gate_frame)
  then have eqs: "m_ipc_records m1 = m_ipc_records m" "m_failed_ipc_sends m1 = m_failed_ipc_sends m"
    by (cases m; cases m1; simp add: gate_frame_def gate_config_def)+
  obtain rc m2 w2 where s: "send (make_record P w m1 e) (m1, w) = Inr (rc, m2, w2)" "ready m2"
    "m_ipc_records m2 = m_ipc_records m1" "m_failed_ipc_sends m2 = m_failed_ipc_sends m1"
    "m_paused m2 = m_paused m1"
    using send_ok [OF ready_gate [OF assms(1) fr]] by blast
  then have "report P send e (m, w) = Inr (count_ipc rc m2, w2)"
    by (simp add: report_def assms(2))
  moreover have "ready (count_ipc rc m2)" using s(2) by (rule ready_count)
  ultimately have "report P send e (m, w) = Inr (count_ipc rc m2, w2) \<and> ready (count_ipc rc m2) \<and>
    m_paused (count_ipc rc m2) = m_paused m1 \<and>
    m_ipc_records (count_ipc rc m2) = (if rc = 0 then int32 (m_ipc_records m + 1) else m_ipc_records m) \<and>
    m_failed_ipc_sends (count_ipc rc m2) =
      (if rc = 0 then m_failed_ipc_sends m else int32 (m_failed_ipc_sends m + 1))"
    using s eqs by (simp add: count_ipc_def)
  then show ?thesis by (intro exI)
qed

lemma gate_defined:
  assumes "ev_op_type e = OPEN \<longrightarrow> ev_s1 e \<noteq> None"
  shows "\<exists>b m'. record_gate t e m = Inr (b, m')"
proof -
  have "defined (open_check (ev_op_type e) (ev_s1 e) m)"
    using assms by (cases "ev_s1 e") (auto simp: open_check_def)
  then obtain go m1 where 1: "open_check (ev_op_type e) (ev_s1 e) m = Inr (go, m1)"
    by (auto simp: defined_iff)
  define m2 where "m2 = elapsed_check (elapsed_ms (ev_start_time e) (ev_end_time e)) m1"
  obtain pass m3 where 3: "count_sample m2 = (pass, m3)" by fastforce
  obtain b m4 where 4: "time_sample t m3 = (b, m4)" by fastforce
  show ?thesis
    by (auto simp: record_gate_def 1 m2_def [symmetric] 3 4 Let_def)
qed

lemma report_total:
  assumes "ready m" "ev_op_type e = OPEN \<longrightarrow> ev_s1 e \<noteq> None"
  shows "\<exists>m' w'. report P send e (m, w) = Inr (m', w') \<and> ready m'"
proof -
  obtain b m1 where g: "record_gate (os_time P w) e m = Inr (b, m1)"
    using gate_defined [OF assms(2)] by blast
  show ?thesis
  proof (cases b)
    case True
    then show ?thesis using report_sends [OF assms(1), of w e m1] g by auto
  next
    case False
    with report_silent g ready_gate [OF assms(1) record_gate_frame [OF g]] show ?thesis by auto
  qed
qed

end

section \<open>The message queue\<close>

lemma queue_config_fields:
  assumes "queue_config m' = queue_config m"
  shows "m_ipc_records m' = m_ipc_records m" "m_failed_ipc_sends m' = m_failed_ipc_sends m"
    "m_paused m' = m_paused m" "m_message_queue_path m' = m_message_queue_path m"
  using assms by (cases m; cases m'; simp add: queue_config_def)+

definition queue_ready :: "mon \<Rightarrow> bool" where
  "queue_ready m \<longleftrightarrow> m_message_queue_path m \<noteq> None"

lemma gate_frame_fields:
  assumes "gate_frame m m'"
  shows "m_message_queue_path m' = m_message_queue_path m" "m_socket_fd m' = m_socket_fd m"
    "m_domain_bit_flags m' = m_domain_bit_flags m"
    "m_failed_socket_connections m' = m_failed_socket_connections m"
  using assms by (cases m; cases m'; simp add: gate_frame_def gate_config_def)+

lemma count_ipc_fields [simp]:
  "m_message_queue_path (count_ipc rc m) = m_message_queue_path m"
  "m_socket_fd (count_ipc rc m) = m_socket_fd m"
  "m_domain_bit_flags (count_ipc rc m) = m_domain_bit_flags m"
  "m_failed_socket_connections (count_ipc rc m) = m_failed_socket_connections m"
  by (simp_all add: count_ipc_def)

interpretation queue: ipc_channel P "transport P rec" queue_ready for P rec
proof
  fix m r and w :: 'a
  assume "queue_ready m"
  then obtain path where p: "m_message_queue_path m = Some path" by (auto simp: queue_ready_def)
  obtain rc m' w' where s: "send_msg_queue P r (m, w) = (rc, m', w')" by (metis prod.exhaust)
  note f = queue_config_fields [OF send_msg_queue_frame [OF s]]
  show "\<exists>rc m' w'. transport P rec r (m, w) = Inr (rc, m', w') \<and> queue_ready m' \<and>
      m_ipc_records m' = m_ipc_records m \<and> m_failed_ipc_sends m' = m_failed_ipc_sends m \<and>
      m_paused m' = m_paused m"
    using s f p by (simp add: transport_def queue_ready_def)
qed (simp_all add: queue_ready_def gate_frame_fields)

section \<open>TCP\<close>

lemma record_event_ignored:
  "ignore_event m (ev_dom_type e) (ev_fd e) \<Longrightarrow> record_event P (Suc d) e (m, w) = Inr (m, w)"
  by (simp add: report_def record_gate_def)

lemma ignore_own_socket: "m_socket_fd m = fd \<Longrightarrow> fd \<noteq> FD_NONE \<Longrightarrow> ignore_event m dm fd"
  by (simp add: ignore_event_def)

definition monitors :: "mon \<Rightarrow> domain_type \<Rightarrow> bool" where
  "monitors m dm \<longleftrightarrow> m_domain_bit_flags m AND push_bit (domain_index dm) 1 \<noteq> 0"

lemma ignore_unmonitored: "\<not> monitors m dm \<Longrightarrow> ignore_event m dm fd"
  by (simp add: ignore_event_def monitors_def)

lemma monitors_bit: "monitors m dm \<longleftrightarrow> bit (m_domain_bit_flags m) (domain_index dm)"
  unfolding monitors_def using and_push_bit_eq_0 by blast

lemma interposed_ignored:
  assumes "\<And>result errno t0 t1. ignore_event m (ev_dom_type (mk result errno t0 t1)) (ev_fd (mk result errno t0 t1))"
    and "orig w = ((result, errno), w1)"
  shows "interposed P (record_event P (Suc d)) orig mk (m, w) = Inr (result, m, w1)"
  using assms(2) record_event_ignored [OF assms(1)]
  by (simp add: interposed_def Let_def del: record_event.simps)

definition tcp_ready :: "mon \<Rightarrow> bool" where
  "tcp_ready m \<longleftrightarrow> m_message_queue_path m = None \<and> m_socket_fd m = FD_NONE \<and> \<not> monitors m SOCKETS"

lemma tcp_transfer_own:
  assumes "m_socket_fd m = sockfd" "sockfd > 0"
  shows "\<exists>rc w'. tcp_transfer P (record_event P (Suc d)) sockfd r (m, w) = Inr (rc, m, w')"
proof -
  have own: "ignore_event m dm sockfd" for dm
    using assms by (auto intro!: ignore_own_socket simp: FD_NONE_def)
  obtain r1 e1 w1 where 1: "os_write P sockfd (Header (show_int record_length))
      (os_setsockopt P sockfd (os_setsockopt P sockfd w)) = ((r1, e1), w1)"
    by (metis prod.exhaust)
  obtain r2 e2 w2 where 2: "os_write P sockfd (Payload r) w1 = ((r2, e2), w2)"
    by (metis prod.exhaust)
  have i1: "interposed P (record_event P (Suc d)) (os_write P sockfd (Header (show_int record_length)))
      (write_event P sockfd 10) (m, os_setsockopt P sockfd (os_setsockopt P sockfd w)) = Inr (r1, m, w1)"
    by (rule interposed_ignored) (simp_all add: 1 write_event_def own)
  have i2: "interposed P (record_event P (Suc d)) (os_write P sockfd (Payload r))
      (write_event P sockfd record_length) (m, w1) = Inr (r2, m, w2)"
    by (rule interposed_ignored) (simp_all add: 2 write_event_def own)
  show ?thesis
    by (simp add: tcp_transfer_def Let_def i1 i2 del: record_event.simps)
qed

text \<open>While the domain SOCKETS is not monitored, every nested \<open>record\<close> returns at once, and only the
  count of failed connections can change.\<close>

lemma send_tcp_quiet:
  assumes "tcp_ready m"
  shows "\<exists>rc n w'. send_tcp_socket P (record_event P (Suc d)) r (m, w) =
      Inr (rc, m\<lparr>m_failed_socket_connections := n\<rparr>, w')"
proof -
  have fd: "m\<lparr>m_socket_fd := FD_NONE\<rparr> = m" using assms by (simp add: tcp_ready_def)
  have unm: "ignore_event (m\<lparr>m_socket_fd := s\<rparr>) SOCKETS fd" "ignore_event m SOCKETS fd" for s fd
    using assms by (auto intro!: ignore_unmonitored simp: tcp_ready_def monitors_def)
  obtain sockfd e1 w1 where 1: "os_socket P w = ((sockfd, e1), w1)" by (metis prod.exhaust)
  have i1: "interposed P (record_event P (Suc d)) (os_socket P) (socket_event P) (m, w) = Inr (sockfd, m, w1)"
    by (rule interposed_ignored) (simp_all add: 1 socket_event_def unm)
  show ?thesis
  proof (cases "sockfd > 0")
    case False
    then show ?thesis
      by (simp add: send_tcp_socket_def i1 del: record_event.simps)
        (metis mon.surjective mon.update_convs(1))
  next
    case pos: True
    define m2 where "m2 = m\<lparr>m_socket_fd := sockfd\<rparr>"
    obtain rc e2 w2 where 2: "os_connect P sockfd (ipc_server P) w1 = ((rc, e2), w2)" by (metis prod.exhaust)
    have i2: "interposed P (record_event P (Suc d)) (os_connect P sockfd (ipc_server P))
        (connect_event P sockfd (ipc_server P)) (m2, w1) = Inr (rc, m2, w2)"
      by (rule interposed_ignored) (simp_all add: 2 connect_event_def unm m2_def)
    have i3: "\<exists>w4. interposed P (record_event P (Suc d)) (os_close P sockfd) (close_event P sockfd)
        (m2\<lparr>m_failed_socket_connections := n\<rparr>, w3) =
          Inr (fst (fst (os_close P sockfd w3)), m2\<lparr>m_failed_socket_connections := n\<rparr>, w4)" for n w3
    proof -
      obtain r3 e3 w4 where 3: "os_close P sockfd w3 = ((r3, e3), w4)" by (metis prod.exhaust)
      have "ignore_event (m2\<lparr>m_failed_socket_connections := n\<rparr>) FILE_OPEN_CLOSE sockfd"
        using pos by (auto intro!: ignore_own_socket simp: m2_def FD_NONE_def)
      then have "interposed P (record_event P (Suc d)) (os_close P sockfd) (close_event P sockfd)
        (m2\<lparr>m_failed_socket_connections := n\<rparr>, w3) =
          Inr (fst (fst (os_close P sockfd w3)), m2\<lparr>m_failed_socket_connections := n\<rparr>, w4)"
        using 3 by (intro interposed_ignored) (simp_all add: close_event_def)
      then show ?thesis by blast
    qed
    have m2: "m2\<lparr>m_failed_socket_connections := m_failed_socket_connections m2\<rparr> = m2" by simp
    have closed: "m2\<lparr>m_failed_socket_connections := n, m_socket_fd := FD_NONE\<rparr> =
        m\<lparr>m_failed_socket_connections := n\<rparr>" for n
      using assms by (cases m) (simp add: m2_def tcp_ready_def)
    show ?thesis
    proof (cases "rc = 0")
      case True
      obtain rc' w3 where t: "tcp_transfer P (record_event P (Suc d)) sockfd r (m2, w2) = Inr (rc', m2, w3)"
        using tcp_transfer_own [of m2 sockfd P d r w2] pos by (auto simp: m2_def)
      obtain w4 where "interposed P (record_event P (Suc d)) (os_close P sockfd) (close_event P sockfd)
        (m2, w3) = Inr (fst (fst (os_close P sockfd w3)), m2, w4)"
        using i3 [of "m_failed_socket_connections m2" w3] m2 by auto
      then have "send_tcp_socket P (record_event P (Suc d)) r (m, w) =
          Inr (rc', m2\<lparr>m_socket_fd := FD_NONE\<rparr>, w4)"
        using pos True by (simp add: send_tcp_socket_def i1 i2 t m2_def [symmetric] Let_def del: record_event.simps)
      with closed [of "m_failed_socket_connections m2"] m2 show ?thesis by metis
    next
      case False
      define n where "n = int32 (m_failed_socket_connections m2 + 1)"
      obtain w4 where "interposed P (record_event P (Suc d)) (os_close P sockfd) (close_event P sockfd)
        (m2\<lparr>m_failed_socket_connections := n\<rparr>, w2) =
          Inr (fst (fst (os_close P sockfd w2)), m2\<lparr>m_failed_socket_connections := n\<rparr>, w4)"
        using i3 by blast
      then have "send_tcp_socket P (record_event P (Suc d)) r (m, w) =
          Inr (- 1, m2\<lparr>m_failed_socket_connections := n, m_socket_fd := FD_NONE\<rparr>, w4)"
        using pos False
        by (simp add: send_tcp_socket_def i1 i2 m2_def [symmetric] n_def [symmetric] Let_def del: record_event.simps)
      with closed [of n] show ?thesis by metis
    qed
  qed
qed

text \<open>So TCP is a channel as well, two nested calls deep.\<close>

lemma tcp_ready_cong:
  assumes "tcp_ready m" "m_message_queue_path m' = m_message_queue_path m"
    "m_socket_fd m' = m_socket_fd m" "m_domain_bit_flags m' = m_domain_bit_flags m"
  shows "tcp_ready m'"
  using assms by (simp add: tcp_ready_def monitors_def)

interpretation tcp: ipc_channel P "transport P (record_event P (Suc d))" tcp_ready for P d
proof
  fix m r and w :: 'a
  assume m: "tcp_ready m"
  obtain rc n w' where "send_tcp_socket P (record_event P (Suc d)) r (m, w) =
      Inr (rc, m\<lparr>m_failed_socket_connections := n\<rparr>, w')"
    using send_tcp_quiet [OF m, of P d r w] by (elim exE)
  moreover have "transport P (record_event P (Suc d)) r (m, w) =
      send_tcp_socket P (record_event P (Suc d)) r (m, w)"
    using m by (simp add: transport_def tcp_ready_def del: record_event.simps)
  moreover have "tcp_ready (m\<lparr>m_failed_socket_connections := n\<rparr>)"
    using m by (rule tcp_ready_cong) simp_all
  ultimately show "\<exists>rc m' w'. transport P (record_event P (Suc d)) r (m, w) = Inr (rc, m', w') \<and>
      tcp_ready m' \<and> m_ipc_records m' = m_ipc_records m \<and>
      m_failed_ipc_sends m' = m_failed_ipc_sends m \<and> m_paused m' = m_paused m"
    by auto
next
  fix m m' assume "tcp_ready m" "gate_frame m m'"
  then show "tcp_ready m'" by (auto intro: tcp_ready_cong dest: gate_frame_fields)
next
  fix m rc assume "tcp_ready m"
  then show "tcp_ready (count_ipc rc m)" by (rule tcp_ready_cong) simp_all
qed

section \<open>Unbounded recursion\<close>

text \<open>With SOCKETS monitored and no message queue, the record of the monitor's own \<open>socket\<close> call
  passes the gate before \<open>socket_fd\<close> is set, and sending it opens the next socket.\<close>

definition tcp_loops :: "'w platform \<Rightarrow> mon \<Rightarrow> bool" where
  "tcp_loops P m \<longleftrightarrow> m_message_queue_path m = None \<and> m_socket_fd m = FD_NONE \<and> monitors m SOCKETS \<and>
     m_failed_socket_connections m = 0 \<and> \<not> m_paused m \<and> \<not> m_count_based_sampling m \<and>
     \<not> m_time_based_sampling m \<and> (\<forall>w. fst (fst (os_socket P w)) \<notin> {0, 1, 2})"

lemma socket_event_passes:
  assumes "tcp_loops P m" "fd \<notin> {0, 1, 2}"
  shows "record_gate t (socket_event P fd errno t0 t1) m = Inr (True, m)"
proof -
  have "\<not> ignore_event m SOCKETS fd"
    using assms by (auto simp: ignore_event_def tcp_loops_def monitors_def FD_NONE_def)
  then have "reportable m (socket_event P fd errno t0 t1)"
    by (simp add: reportable_def socket_event_def)
  with assms show ?thesis by (simp add: gate_running tcp_loops_def)
qed

lemma tcp_overflow:
  assumes "tcp_loops P m" "\<forall>w. record_gate (os_time P w) e m = Inr (True, m)"
  shows "record_event P d e (m, w) = Inl StackOverflow"
  using assms
proof (induction d arbitrary: e w)
  case 0
  then show ?case by simp
next
  case (Suc d)
  obtain fd errno w1 where s: "os_socket P w = ((fd, errno), w1)" by (metis prod.exhaust)
  have "fd \<notin> {0, 1, 2}" using Suc.prems(1) s unfolding tcp_loops_def by (metis fst_conv)
  then have gate: "\<forall>w'. record_gate (os_time P w') (socket_event P fd errno (os_clock P w) (os_clock P w1)) m
      = Inr (True, m)"
    using socket_event_passes [OF Suc.prems(1)] by blast
  have "record_event P d (socket_event P fd errno (os_clock P w) (os_clock P w1)) (m, w1) = Inl StackOverflow"
    by (rule Suc.IH [OF Suc.prems(1) gate])
  then have "send_tcp_socket P (record_event P d) r (m, w) = Inl StackOverflow" for r
    by (simp add: send_tcp_socket_def interposed_def s Let_def)
  then show ?case
    using Suc.prems by (simp add: report_def transport_def tcp_loops_def)
qed

section \<open>After a failed connection\<close>

lemma failed_connection_silent:
  "m_failed_socket_connections m > 0 \<Longrightarrow> record_event P (Suc d) e (m, w) = Inr (m, w)"
  by (rule record_event_ignored) (simp add: ignore_event_def)

section \<open>What is sent\<close>

lemma length_record_field_s: "0 < n \<Longrightarrow> length (record_field_s n f) < n"
  by (auto simp: record_field_s_def split: option.splits)

lemma record_field_s_short: "length s < n \<Longrightarrow> record_field_s n (Some s) = s"
  by (simp add: record_field_s_def)

lemma make_record_terminated: "terminated_record (make_record P w m e)"
  by (simp add: terminated_record_def make_record_def zero_record_def length_record_field_s
      buffer_sizes)

section \<open>The texts of init and fini\<close>

lemma blank_NULs_join:
  "\<forall>a\<in>set as. c_string a \<Longrightarrow>
    map (\<lambda>c. if c = NUL then CHR '' '' else c) (butlast (concat (map (\<lambda>a. a @ [NUL]) as))) =
    join CHR '' '' as"
proof (induction "CHR '' ''" as rule: join.induct)
  case (2 t)
  have "map (\<lambda>c. if c = NUL then CHR '' '' else c) t = t"
    using 2 by (intro map_idI) (auto simp: c_string_def)
  then show ?case by (simp add: butlast_append)
next
  case (3 t u us)
  have "map (\<lambda>c. if c = NUL then CHR '' '' else c) t = t"
    using 3 by (intro map_idI) (auto simp: c_string_def)
  moreover have "butlast (concat (map (\<lambda>a. a @ [NUL]) (t # u # us))) =
      t @ NUL # butlast (concat (map (\<lambda>a. a @ [NUL]) (u # us)))"
    by (simp add: butlast_append)
  ultimately show ?case using 3 by simp
qed simp

lemma last_cmdline: "as \<noteq> [] \<Longrightarrow> concat (map (\<lambda>a. a @ [NUL]) as) =
    butlast (concat (map (\<lambda>a. a @ [NUL]) as)) @ [NUL]"
  by (cases as rule: rev_cases) (simp_all add: butlast_append)

lemma c_string_join: "\<forall>a\<in>set as. c_string a \<Longrightarrow> c_string (join CHR '' '' as)"
  by (induction "CHR '' ''" as rule: join.induct) auto

text \<open>A command line as Linux presents it, each argument followed by a NUL, is recorded with blanks
  between the arguments.\<close>

lemma init_cmdline_join:
  assumes "\<forall>a\<in>set (arg # args). c_string a" "arg \<noteq> []"
    and "data = concat (map (\<lambda>a. a @ [NUL]) (arg # args))"
  shows "init_cmdline pid (int (length data)) data = Inr (join CHR '' '' (arg # args))"
proof -
  define body where "body = butlast data"
  have data: "data = body @ [NUL]" unfolding body_def assms(3) by (rule last_cmdline) simp
  obtain c r where b: "body = c # r" "c \<noteq> NUL"
    using assms by (cases arg) (auto simp: body_def butlast_append)
  have "map (\<lambda>c. if c = NUL then CHR '' '' else c) body = join CHR '' '' (arg # args)"
    unfolding body_def assms(3) by (rule blank_NULs_join [OF assms(1)])
  then have j: "c # map (\<lambda>c. if c = NUL then CHR '' '' else c) r = join CHR '' '' (arg # args)"
    using b by simp
  have "c_string (join CHR '' '' (arg # args))" by (rule c_string_join [OF assms(1)])
  then have tw: "takeWhile (\<lambda>c. c \<noteq> NUL) (join CHR '' '' (arg # args) @ NUL # rest) =
      join CHR '' '' (arg # args)" for rest
    by (auto simp: c_string_def takeWhile_append)
  have len: "length data = Suc (Suc (length r))" by (simp add: data b)
  have buf: "take 1 data @ map (\<lambda>c. if c = NUL then CHR '' '' else c) (take (nat (int (length data)) - 2) (drop 1 data)) @
      drop (nat (int (length data)) - 1) data =
      (c # map (\<lambda>c. if c = NUL then CHR '' '' else c) r) @ [NUL]"
    unfolding nat_int len by (simp add: data b)
  have nz: "int (length data) \<noteq> 0" "\<not> int (length data) - 1 \<le> 0" unfolding len by simp_all
  have "init_cmdline pid (int (length data)) data =
      Inr (takeWhile (\<lambda>c. c \<noteq> NUL) ((c # map (\<lambda>c. if c = NUL then CHR '' '' else c) r) @ NUL #
        drop (nat (int (length data))) (proc_path pid @ [NUL])))"
    unfolding init_cmdline_def buf if_not_P [OF nz(1)] if_not_P [OF nz(2)] Let_def by simp
  then show ?thesis unfolding j tw .
qed

lemma show_int_short: "\<bar>i\<bar> < 10 ^ 10 \<Longrightarrow> length (show_int i) \<le> 11"
  using length_show_nat [of "nat (- i)" 10] length_show_nat [of "nat i" 10]
  by (auto simp: show_int_def nat_less_iff)

lemma fini_summary_fits:
  assumes "\<forall>c\<in>{m_failed_ipc_sends m, m_ipc_retries m, m_ipc_retry_wait_lost_time m, m_ipc_records m}.
    - (2 ^ 31) \<le> c \<and> c < 2 ^ 31"
  shows "length (fini_summary m) < PATH_MAX"
proof -
  have *: "length (show_int c) \<le> 11" if "- (2 ^ 31) \<le> c \<and> c < 2 ^ 31" for c :: int
    using that by (intro show_int_short) (simp add: abs_less_iff)
  have "length (show_int (m_failed_ipc_sends m)) \<le> 11" "length (show_int (m_ipc_retries m)) \<le> 11"
    "length (show_int (m_ipc_retry_wait_lost_time m)) \<le> 11" "length (show_int (m_ipc_records m)) \<le> 11"
    using assms by (intro *; simp)+
  then show ?thesis by (simp add: fini_summary_def smprintf_def PATH_MAX_def)
qed

end
