(* ===== verification/Exec_Helpers.thy ===== *)
theory Exec_Helpers
imports Prelude
begin

text \<open>
  The helpers of \<open>io_monitor/io_monitor.c\<close> behind the interposed \<open>execl\<close>, \<open>execle\<close> and \<open>execlp\<close>: they
  turn a variable argument list into an argument vector. A pointer is an \<open>'p option\<close>, NULL being
  \<open>None\<close>; the \<open>va_list\<close> is given by the non-null pointers before its first NULL.
\<close>

section \<open>va\_list\_to\_table\<close>

text \<open>The table has \<open>max_args * sizeof (** result)\<close> bytes. \<open>result\<close> is a \<open>void **\<close>, so \<open>** result\<close> has
  type \<open>void\<close>, whose size is 1: the 4096 bytes hold 512 pointers, not 4096.\<close>

definition max_args :: nat where "max_args = 4096"
definition sizeof_void :: nat where "sizeof_void = 1"
definition sizeof_pointer :: nat where "sizeof_pointer = 8"

definition table_slots :: nat where
  "table_slots = max_args * sizeof_void div sizeof_pointer"

text \<open>Slot 0 is left for the caller; the arguments and the final NULL follow.\<close>

definition va_list_to_table :: "'p list \<Rightarrow> 'p option list res" where
  "va_list_to_table args =
     (let result = None # map Some args @ [None]
      in if length result \<le> table_slots then Inr result else Inl BufferOverflow)"

section \<open>The exec wrappers\<close>

text \<open>The call that is made in the end. An argument vector is what precedes its NULL.\<close>

datatype 'p exec_call =
    Execv 'p "'p list"
  | Execvpe 'p "'p list" "'p option"
  | Execvp 'p "'p list"

definition vector :: "'p option list \<Rightarrow> 'p list" where
  "vector argt = map the (takeWhile (\<lambda>p. p \<noteq> None) argt)"

definition orig_vexecl :: "'p \<Rightarrow> 'p option \<Rightarrow> 'p list \<Rightarrow> 'p exec_call res" where
  "orig_vexecl path arg args =
     bindR (va_list_to_table args) (\<lambda>argt. Inr (Execv path (vector (argt[0 := arg]))))"

text \<open>\<open>for (i = 0; argt[i]; i++)\<close> leaves \<open>i\<close> at the first NULL.\<close>

definition orig_vexecle :: "'p \<Rightarrow> 'p option \<Rightarrow> 'p list \<Rightarrow> 'p exec_call res" where
  "orig_vexecle path arg args =
     bindR (va_list_to_table args) (\<lambda>table.
       let argt = table[0 := arg]; i = length (takeWhile (\<lambda>p. p \<noteq> None) argt)
       in if i = 0 then Inl BufferOverflow
          else let envp = argt ! (i - 1); argt' = argt[i - 1 := None]
               in Inr (Execvpe path (vector argt') envp))"

definition orig_vexeclp :: "'p \<Rightarrow> 'p option \<Rightarrow> 'p list \<Rightarrow> 'p exec_call res" where
  "orig_vexeclp path arg args =
     bindR (va_list_to_table args) (\<lambda>argt. Inr (Execvp path (vector (argt[0 := arg]))))"

section \<open>Lemmas\<close>

lemma table_slots_eq: "table_slots = 512"
  by (simp add: table_slots_def max_args_def sizeof_void_def sizeof_pointer_def)

lemma va_list_to_table_ok:
  "length args \<le> 510 \<Longrightarrow> va_list_to_table args = Inr (None # map Some args @ [None])"
  by (simp add: va_list_to_table_def table_slots_eq)

lemma va_list_to_table_overflow:
  "510 < length args \<Longrightarrow> va_list_to_table args = Inl BufferOverflow"
  by (simp add: va_list_to_table_def table_slots_eq)

lemma vector_map_Some [simp]: "vector (map Some args @ None # r) = args"
  by (simp add: vector_def takeWhile_append o_def)

lemma vector_Cons [simp]: "vector (Some a # r) = a # vector r"
  by (simp add: vector_def)

lemma execl_vector:
  "length args \<le> 510 \<Longrightarrow> orig_vexecl path (Some arg) args = Inr (Execv path (arg # args))"
  by (simp add: orig_vexecl_def va_list_to_table_ok)

lemma execlp_vector:
  "length args \<le> 510 \<Longrightarrow> orig_vexeclp path (Some arg) args = Inr (Execvp path (arg # args))"
  by (simp add: orig_vexeclp_def va_list_to_table_ok)

lemma execle_vector:
  assumes "length args \<le> 510"
  shows "orig_vexecle path (Some arg) args =
    Inr (Execvpe path (butlast (arg # args)) (Some (last (arg # args))))"
proof (cases args rule: rev_cases)
  case Nil
  then show ?thesis
    by (simp add: orig_vexecle_def va_list_to_table_ok vector_def)
next
  case (snoc as b)
  have "takeWhile (\<lambda>p. p \<noteq> None) (Some arg # map Some (as @ [b]) @ [None]) = Some arg # map Some (as @ [b])"
    by (simp add: takeWhile_append)
  moreover have "(Some arg # map Some (as @ [b]) @ [None])[Suc (length as) := None] =
      Some arg # map Some as @ [None, None]"
    by (simp add: list_update_append)
  moreover have "(Some arg # map Some (as @ [b]) @ [None]) ! Suc (length as) = Some b"
    by (simp add: nth_append)
  ultimately show ?thesis
    using assms snoc by (simp add: orig_vexecle_def va_list_to_table_ok Let_def)
qed

end
