(* ===== verification/Monitor_Properties.thy ===== *)
theory Monitor_Properties
imports Reporting Exec_Helpers
begin

unbundle bit_operations_syntax

text \<open>
  The properties of the preloaded library \<open>io_monitor.so\<close>, each with a concrete instance of its
  hypotheses where it has any.
\<close>

section \<open>Concrete values\<close>

text \<open>A descriptor-3 OPEN of \<open>p\<close> and a write of 5 bytes, both of duration 0, and a platform whose queue
  answers every \<open>msgsnd\<close> with \<open>r\<close>/\<open>errno\<close> and whose sockets are descriptor 7.\<close>

definition demo_open :: "string \<Rightarrow> event" where
  "demo_open p = \<lparr>ev_dom_type = FILE_OPEN_CLOSE, ev_op_type = OPEN, ev_fd = 3, ev_s1 = Some p,
     ev_s2 = None, ev_start_time = \<lparr>tv_sec = 1, tv_usec = 0\<rparr>,
     ev_end_time = \<lparr>tv_sec = 1, tv_usec = 0\<rparr>, ev_error_code = 0, ev_bytes_transferred = 0\<rparr>"

definition demo_write :: event where
  "demo_write = \<lparr>ev_dom_type = FILE_WRITE, ev_op_type = WRITE, ev_fd = 3, ev_s1 = None,
     ev_s2 = None, ev_start_time = \<lparr>tv_sec = 1, tv_usec = 0\<rparr>,
     ev_end_time = \<lparr>tv_sec = 1, tv_usec = 0\<rparr>, ev_error_code = 0, ev_bytes_transferred = 5\<rparr>"

definition demo_mon :: mon where
  "demo_mon = initial_mon\<lparr>m_domain_bit_flags := - 1\<rparr>"

definition demo_platform :: "int \<Rightarrow> int \<Rightarrow> unit platform" where
  "demo_platform r errno = \<lparr>MQ_KEY_NONE = - 1, message_project_id = 1, SOCKET_PORT = 8000,
     ZERO_BYTES = 0, error_code_init = 0, os_ftok = (\<lambda>_ _ w. (1, w)), os_msgget = (\<lambda>_ _ w. (2, w)),
     os_msgsnd = (\<lambda>_ _ w. ((r, errno), w)), os_usleep = (\<lambda>_ w. w), os_time = (\<lambda>_. 100),
     os_clock = (\<lambda>_. \<lparr>tv_sec = 1, tv_usec = 0\<rparr>), os_getpid = (\<lambda>_. 42),
     os_socket = (\<lambda>w. ((7, 0), w)), os_connect = (\<lambda>_ _ w. ((0, 0), w)), os_setsockopt = (\<lambda>_ w. w),
     os_write = (\<lambda>_ p w. ((case p of Header _ \<Rightarrow> 10 | Payload _ \<Rightarrow> record_length, 0), w)),
     os_close = (\<lambda>_ w. ((0, 0), w)), garbage = (\<lambda>_. 3)\<rparr>"

lemmas demo_defs = demo_open_def demo_write_def demo_mon_def initial_mon_def

lemma demo_reportable:
  "p \<noteq> ''.'' \<Longrightarrow> p \<noteq> ''..'' \<Longrightarrow> reportable demo_mon (demo_open p)"
  "reportable demo_mon demo_write"
  by (simp_all add: reportable_def ignore_event_def demo_defs FD_NONE_def and_push_bit_eq_0)

section \<open>Domains\<close>

text \<open>C19: the domain list of the environment variable is decoded exactly. For any text, bit \<open>j\<close> of the
  mask is set iff one of its comma-separated tokens is the name of the \<open>j\<close>-th domain, or one of them is
  \<open>ALL\<close>; no bit beyond 31 exists, and the bits 19 to 31, which stand for no domain, come from \<open>ALL\<close>
  only.\<close>

theorem domain_mask_bits:
  "bit (domain_list_to_bit_mask s) j \<longleftrightarrow>
     (j < length domains_names \<and> domains_names ! j \<in> set (strtok_all '','' s)) \<or>
     (j < 32 \<and> ''ALL'' \<in> set (strtok_all '','' s))"
  by (simp add: bit_domain_mask)

text \<open>Writing a list of domains with the names of the generated table and reading it back selects
  exactly those domains.\<close>

theorem domain_mask_roundtrip:
  assumes "d \<noteq> END_DOMAINS" "END_DOMAINS \<notin> set ds"
  shows "bit (domain_list_to_bit_mask (join CHR '','' (map (\<lambda>d. domains_names ! domain_index d) ds)))
           (domain_index d) \<longleftrightarrow> d \<in> set ds"
proof -
  have names: "\<forall>t\<in>set (map (\<lambda>d. domains_names ! domain_index d) ds). t \<in> set domains_names"
    using assms(2) by (auto intro!: nth_mem domain_index_less)
  then have toks: "strtok_all '','' (join CHR '','' (map (\<lambda>d. domains_names ! domain_index d) ds)) =
      map (\<lambda>d. domains_names ! domain_index d) ds"
    using domains_names_tokens by (intro strtok_all_join) auto
  have "''ALL'' \<notin> set (map (\<lambda>d. domains_names ! domain_index d) ds)"
    using names ALL_not_domain by metis
  moreover have "domains_names ! domain_index d \<in> set (map (\<lambda>d. domains_names ! domain_index d) ds) \<longleftrightarrow> d \<in> set ds"
  proof -
    have "domains_names ! domain_index d = domains_names ! domain_index d' \<longleftrightarrow> d = d'" if "d' \<in> set ds" for d'
      using that assms distinct_domains_names domain_index_less [of d] domain_index_less [of d']
      by (subst nth_eq_iff_index_eq) (auto simp: domain_index_inj)
    then show ?thesis by auto
  qed
  ultimately show ?thesis
    using domain_index_less [OF assms(1)] by (simp add: bit_domain_mask toks del: set_map)
qed

theorem domain_mask_roundtrip_witness:
  "bit (domain_list_to_bit_mask (join CHR '','' (map (\<lambda>d. domains_names ! domain_index d) [HTTP, LINKS])))
     (domain_index LINKS)"
  using domain_mask_roundtrip [of LINKS "[HTTP, LINKS]"] by simp

text \<open>The tables that the build script derives from the two headers have one entry per enumerator,
  and the entry at the value of an enumerator is its name; so no name occurs twice and a name
  identifies its enumerator.\<close>

theorem name_tables_match_enums:
  "length (enum_to_strings domains_h) = domain_index END_DOMAINS \<and>
   length (enum_to_strings ops_h) = op_index END_OPS \<and>
   distinct (enum_to_strings domains_h) \<and> distinct (enum_to_strings ops_h) \<and>
   map (\<lambda>d. enum_to_strings domains_h ! domain_index d) [
    LINKS, XATTRS, DIRS, FILE_SYSTEMS, FILE_DESCRIPTORS, SYNCS,
    SOCKETS, SEEKS, FILE_SPACE, PROCESSES, FILE_METADATA, FILE_WRITE,
    FILE_READ, FILE_OPEN_CLOSE, MISC, DIR_METADATA, START_STOP, HTTP,
    THREADS] = [
    ''LINKS'', ''XATTRS'', ''DIRS'', ''FILE_SYSTEMS'', ''FILE_DESCRIPTORS'', ''SYNCS'',
    ''SOCKETS'', ''SEEKS'', ''FILE_SPACE'', ''PROCESSES'', ''FILE_METADATA'', ''FILE_WRITE'',
    ''FILE_READ'', ''FILE_OPEN_CLOSE'', ''MISC'', ''DIR_METADATA'', ''START_STOP'', ''HTTP'',
    ''THREADS''] \<and>
   map (\<lambda>op. enum_to_strings ops_h ! op_index op) [
    OPEN, CLOSE, WRITE, READ, SYNC, SEEK, RENAME, LINK,
    UNLINK, FCNTL, DUP, STAT, ACCESS, CHMOD, CHOWN, FLOCK,
    READLINK, UTIME, GETXATTR, SETXATTR, LISTXATTR, REMOVEXATTR,
    MOUNT, UMOUNT, FORK, MKNOD, MKDIR, RMDIR, CHDIR, CHROOT,
    SOCKET, FLUSH, ALLOCATE, TRUNCATE, OPENDIR, CLOSEDIR, READDIR,
    SEEKDIR, TELLDIR, REWINDDIR, SCANDIR, CONNECT, ACCEPT, LISTEN,
    BIND, EXEC, KILL, START, STOP, HTTP_REQ_SEND, HTTP_REQ_RECV,
    HTTP_RESP_SEND, HTTP_RESP_RECV, HTTP_RESP_FINI_SEND, HTTP_RESP_FINI_RECV,
    MUTEX_LOCK, MUTEX_UNLOCK, MUTEX_INIT, MUTEX_DESTROY, THREAD_CREATE,
    COND_WAIT, COND_SIGNAL, COND_BROADCAST] = [
    ''OPEN'', ''CLOSE'', ''WRITE'', ''READ'', ''SYNC'', ''SEEK'', ''RENAME'', ''LINK'',
    ''UNLINK'', ''FCNTL'', ''DUP'', ''STAT'', ''ACCESS'', ''CHMOD'', ''CHOWN'', ''FLOCK'',
    ''READLINK'', ''UTIME'', ''GETXATTR'', ''SETXATTR'', ''LISTXATTR'', ''REMOVEXATTR'',
    ''MOUNT'', ''UMOUNT'', ''FORK'', ''MKNOD'', ''MKDIR'', ''RMDIR'', ''CHDIR'', ''CHROOT'',
    ''SOCKET'', ''FLUSH'', ''ALLOCATE'', ''TRUNCATE'', ''OPENDIR'', ''CLOSEDIR'', ''READDIR'',
    ''SEEKDIR'', ''TELLDIR'', ''REWINDDIR'', ''SCANDIR'', ''CONNECT'', ''ACCEPT'', ''LISTEN'',
    ''BIND'', ''EXEC'', ''KILL'', ''START'', ''STOP'', ''HTTP_REQ_SEND'', ''HTTP_REQ_RECV'',
    ''HTTP_RESP_SEND'', ''HTTP_RESP_RECV'', ''HTTP_RESP_FINI_SEND'', ''HTTP_RESP_FINI_RECV'',
    ''MUTEX_LOCK'', ''MUTEX_UNLOCK'', ''MUTEX_INIT'', ''MUTEX_DESTROY'', ''THREAD_CREATE'',
    ''COND_WAIT'', ''COND_SIGNAL'', ''COND_BROADCAST'']"
  unfolding domains_names_def [symmetric] ops_names_def [symmetric]
  by (simp add: domains_names_eq ops_names_eq)

section \<open>Pausing\<close>

text \<open>C16: a monitor that waits for its start condition reports nothing and changes nothing, however many
  calls are intercepted, until one of them is an OPEN whose path contains the text of
  \<open>START_ON_OPEN\<close> or one whose duration exceeds \<open>START_ON_ELAPSED\<close>; and the first call it reports is
  such a call.\<close>

theorem paused_until_start_condition:
  assumes "m_paused m"
  shows "(\<forall>xs outs m'. (\<forall>te\<in>set xs. \<not> resumes m (snd te)) \<longrightarrow> run gate_step xs m = Inr (outs, m') \<longrightarrow>
            outs = replicate (length xs) False \<and> m' = m) \<and>
         (\<forall>t e m'. record_gate t e m = Inr (True, m') \<longrightarrow> resumes m e \<and> \<not> m_paused m')"
proof (intro conjI allI impI)
  fix xs outs m'
  assume "\<forall>te\<in>set xs. \<not> resumes m (snd te)" "run gate_step xs m = Inr (outs, m')"
  with run_paused_silent [OF assms] show "outs = replicate (length xs) False" "m' = m" by auto
next
  fix t e m' assume g: "record_gate t e m = Inr (True, m')"
  show "resumes m e" using gate_paused_pass [OF g assms] by simp
  show "\<not> m_paused m'" using g by (rule gate_pass_running)
qed

theorem paused_until_start_condition_witness:
  "\<exists>m'. record_gate 5 (demo_open ''/data/a'')
     (demo_mon\<lparr>m_paused := True, m_start_on_open := Some ''data''\<rparr>) = Inr (True, m') \<and>
   resumes (demo_mon\<lparr>m_paused := True, m_start_on_open := Some ''data''\<rparr>) (demo_open ''/data/a'')"
proof -
  have "record_gate 5 (demo_open ''/data/a'')
     (demo_mon\<lparr>m_paused := True, m_start_on_open := Some ''data''\<rparr>) =
     Inr (True, demo_mon\<lparr>m_start_on_open := Some ''data''\<rparr>)"
    by (simp add: gate_defs demo_defs FD_NONE_def and_push_bit_eq_0)
  then show ?thesis
    using paused_until_start_condition [of "demo_mon\<lparr>m_paused := True, m_start_on_open := Some ''data''\<rparr>"]
    by (simp add: demo_mon_def)
qed

text \<open>The decision of \<open>record\<close> on any call leaves the configuration alone: it can only resume a
  paused monitor, never pause a running one, and it touches nothing but the pause flag, the counter
  of count-based sampling and the two variables of time-based sampling.\<close>

theorem gate_frame_ok:
  assumes "record_gate t e m = Inr (b, m')"
  shows "(m_paused m' \<longrightarrow> m_paused m) \<and>
    m' = m\<lparr>m_paused := m_paused m', m_count_intercepts := m_count_intercepts m',
           m_within_time_based_sample := m_within_time_based_sample m',
           m_start_time_based_sample := m_start_time_based_sample m'\<rparr>"
  using record_gate_frame [OF assms]
  by (cases m; cases m') (simp add: gate_frame_def gate_config_def)

theorem gate_frame_ok_witness:
  "\<not> m_paused (snd (projr (record_gate 5 demo_write demo_mon)))"
proof -
  have "record_gate 5 demo_write demo_mon = Inr (True, demo_mon)"
    by (simp add: gate_defs demo_defs FD_NONE_def and_push_bit_eq_0)
  then show ?thesis using gate_frame_ok [of 5 demo_write demo_mon True demo_mon]
    by (simp add: demo_mon_def initial_mon_def)
qed

section \<open>Sampling\<close>

text \<open>C17: count-based sampling reports exactly every \<open>f\<close>-th call. On a running monitor with frequency
  \<open>f\<close> and a fresh counter, in any sequence of calls of monitored domains the calls number \<open>f\<close>,
  \<open>2 f\<close>, \<open>3 f\<close>, ... are reported and no other, and the counter ends as the rest.\<close>

theorem count_sampling_exact:
  assumes "m_count_based_sampling m" "m_count_based_sample_frequency m = f" "0 < f"
    and "m_count_intercepts m = 0" "\<not> m_time_based_sampling m" "\<not> m_paused m"
    and "\<forall>te\<in>set xs. reportable m (snd te)"
  shows "run gate_step xs m =
    Inr (map (\<lambda>i. f dvd int i + 1) [0..<length xs], m\<lparr>m_count_intercepts := int (length xs) mod f\<rparr>)"
  using run_count [of f m xs] assms by (simp add: count_inv_def dvd_eq_mod_eq_0)

theorem count_sampling_exact_witness:
  "run gate_step (replicate 7 (100, demo_write))
     (demo_mon\<lparr>m_count_based_sampling := True, m_count_based_sample_frequency := 3\<rparr>) =
   Inr ([False, False, True, False, False, True, False],
     demo_mon\<lparr>m_count_based_sampling := True, m_count_based_sample_frequency := 3, m_count_intercepts := 1\<rparr>)"
proof -
  have "reportable (demo_mon\<lparr>m_count_based_sampling := True, m_count_based_sample_frequency := 3\<rparr>) demo_write"
    by (simp add: reportable_def ignore_event_def demo_defs FD_NONE_def and_push_bit_eq_0)
  then show ?thesis
    using count_sampling_exact
      [of "demo_mon\<lparr>m_count_based_sampling := True, m_count_based_sample_frequency := 3\<rparr>" 3
          "replicate 7 (100, demo_write)"]
    by (simp add: demo_mon_def initial_mon_def upt_rec numeral_eq_Suc dvd_eq_mod_eq_0)
qed

text \<open>A decimal \<open>COUNT_SAMPLE_FREQUENCY\<close> turns count-based sampling on with the low 32 bits of its
  value, so with the value itself exactly below \<open>2 ^ 31\<close>.\<close>

theorem count_frequency_parsed:
  assumes "env_COUNT_SAMPLE_FREQUENCY env = Some (show_nat n)" "0 < n" "n < 2 ^ 63"
  shows "m_count_based_sampling (initialize_monitor atof env m) \<and>
    m_count_based_sample_frequency (initialize_monitor atof env m) = int32 (int n) \<and>
    (int32 (int n) = int n \<longleftrightarrow> n < 2 ^ 31)"
proof -
  have f: "uint (atol_ulong (show_nat n)) = int n"
    using assms(3) by (simp add: atol_ulong_def atol_show_nat unsigned_of_nat take_bit_nat_eq_self)
  have pos: "0 < atol_ulong (show_nat n)" using f assms(2) by (simp add: word_less_def)
  have "int32 (int n) = int n \<longleftrightarrow> n < 2 ^ 31"
    using int32_range [of "int n"] int32_id [of "int n"] by auto
  moreover have "m_count_based_sampling (initialize_monitor atof env m) \<and>
    m_count_based_sample_frequency (initialize_monitor atof env m) = int32 (int n)"
    using assms(1) pos f
    by (auto simp: initialize_monitor_def load_library_functions_def init_time_sampling_def Let_def
        init_count_sampling_def split: option.splits)
  ultimately show ?thesis by simp
qed

definition demo_env :: environment where
  "demo_env = \<lparr>env_FACILITY_ID = Some ''abcdef'', env_MESSAGE_QUEUE_PATH = Some ''/tmp/mq'',
     env_MONITOR_DOMAINS = Some ''ALL'', env_START_ON_OPEN = None, env_START_ON_ELAPSED = None,
     env_COUNT_SAMPLE_FREQUENCY = Some (show_nat 25), env_TIME_SAMPLE_FREQUENCY = None,
     env_TIME_SAMPLE_DURATION = None\<rparr>"

theorem count_frequency_parsed_witness:
  "m_count_based_sample_frequency (initialize_monitor (\<lambda>_. 0) demo_env initial_mon) = 25"
  using count_frequency_parsed [of demo_env 25 "\<lambda>_. 0" initial_mon] by (simp add: demo_env_def)

text \<open>C18: time-based sampling reports in windows. From a fresh start, for calls of monitored domains at
  times that do not decrease (and far enough from the end of the clock for the sums not to wrap),
  each reported call lies less than the duration after the start of its window, and the windows
  start at least the frequency apart.\<close>

theorem time_sampling_windows:
  assumes "m_time_based_sampling m" "m_start_time_based_sample m = 0" "\<not> m_within_time_based_sample m"
    and "\<not> m_count_based_sampling m" "\<not> m_paused m" "\<forall>te\<in>set xs. reportable m (snd te)"
    and "sorted (map fst xs)" "\<forall>te\<in>set xs. time_fits m (fst te)"
    and "0 < m_time_based_sample_duration m" "run gate_step xs m = Inr (outs, m')"
    and "ws = windows False 0 (zip (map (unat \<circ> fst) xs) outs)"
  shows "(\<forall>(s, t)\<in>set ws. s \<le> t \<and> t < s + unat (m_time_based_sample_duration m)) \<and>
    sorted_wrt (\<lambda>a b. fst a = fst b \<or> fst a + unat (m_time_based_sample_frequency m) \<le> fst b) ws"
proof (cases xs)
  case Nil
  then show ?thesis using assms(11) by simp
next
  case (Cons te ys)
  define t where "t = fst te"
  define m1 where "m1 = m\<lparr>m_start_time_based_sample := t, m_within_time_based_sample := True\<rparr>"
  define ts where "ts = map fst ys"
  have "run time_step (t # ts) m = Inr (outs, m')"
    using run_gate_time [of m xs] assms(4,5,6,10) by (simp add: Cons t_def ts_def)
  moreover have "time_sample t m = (True, m1)"
    using assms(1,2) by (simp add: time_sample_first m1_def)
  ultimately obtain outs1 where r: "run time_step ts m1 = Inr (outs1, m')" "outs = True # outs1"
    by (auto simp: time_step_eq [of t m])
  have "0 < unat (m_time_based_sample_duration m)"
    using assms(9) by (simp add: word_less_nat_alt)
  moreover have "\<forall>u\<in>set ts. time_fits m1 u \<and> t \<le> u" "time_fits m1 t"
    using assms(7,8) by (auto simp: Cons ts_def t_def m1_def time_fits_def)
  ultimately have "(\<forall>(s, u)\<in>set (windows True (unat t) (zip (map unat ts) outs1)).
        s \<le> u \<and> u < s + unat (m_time_based_sample_duration m) \<and>
        (s = unat t \<or> unat t + unat (m_time_based_sample_frequency m) \<le> s)) \<and>
      sorted_wrt (\<lambda>a b. fst a = fst b \<or> fst a + unat (m_time_based_sample_frequency m) \<le> fst b)
        (windows True (unat t) (zip (map unat ts) outs1))"
    using run_time_windows [of ts m1 outs1 m' "unat (m_time_based_sample_duration m)"
        "unat (m_time_based_sample_frequency m)" "unat t"] r assms(1,7)
    by (simp add: m1_def Cons ts_def)
  moreover have "ws = (unat t, unat t) # windows True (unat t) (zip (map unat ts) outs1)"
    by (simp add: assms(11) Cons r(2) t_def ts_def Let_def)
  ultimately show ?thesis
    using assms(9) by (auto simp: word_less_nat_alt)
qed

definition demo_timed :: mon where
  "demo_timed = demo_mon\<lparr>m_time_based_sampling := True, m_time_based_sample_duration := 2,
     m_time_based_sample_frequency := 5\<rparr>"

theorem time_sampling_windows_witness:
  "run gate_step (map (\<lambda>t. (t, demo_write)) [100, 101, 102, 104, 105, 106, 107]) demo_timed =
     Inr ([True, True, False, False, True, True, False],
          demo_timed\<lparr>m_start_time_based_sample := 105\<rparr>) \<and>
   (let ws = [(100, 100), (100, 101), (105, 105), (105, 106::nat)]
    in \<forall>(s, t)\<in>set ws. s \<le> t \<and> t < s + (2::nat))"
proof -
  have rep: "reportable demo_timed demo_write"
    by (simp add: reportable_def ignore_event_def demo_timed_def demo_defs FD_NONE_def and_push_bit_eq_0)
  have run: "run gate_step (map (\<lambda>t. (t, demo_write)) [100, 101, 102, 104, 105, 106, 107]) demo_timed =
     Inr ([True, True, False, False, True, True, False], demo_timed\<lparr>m_start_time_based_sample := 105\<rparr>)"
    by (simp add: gate_step_def gate_defs demo_timed_def demo_defs FD_NONE_def and_push_bit_eq_0)
  show ?thesis
    using time_sampling_windows [OF _ _ _ _ _ _ _ _ _ run refl] rep run
    by (simp add: demo_timed_def demo_mon_def initial_mon_def time_fits_def Let_def)
qed

section \<open>Sending\<close>

text \<open>C20: sending over the message queue, call by call, whatever the system answers. Without a queue
  nothing is called and the result is -1. Otherwise \<open>msgsnd\<close> is called again as long as the queue is full,
  each time after a wait twice as long, from 1024 microseconds on; the first other answer is the result;
  after five calls and five waits the function ends without one. With \<open>k\<close> waits the two counters of the
  summary are advanced by \<open>k\<close> and by \<open>1024 * (2 ^ k - 1)\<close> microseconds, 31744 at most.\<close>

theorem queue_retries_bounded:
  assumes "send_msg_queue P r (m, w) = (rc, m', w')"
    and "0 \<le> m_ipc_retries m" "m_ipc_retries m < 2 ^ 31 - 5"
    and "0 \<le> m_ipc_retry_wait_lost_time m" "m_ipc_retry_wait_lost_time m < 2 ^ 31 - 31744"
    and "open_queue P (m, w) = (m1, w1)" "q = m_message_queue_id m1"
    and "msg = \<lparr>mm_message_type = 1, mm_monitor_record = r\<rparr>"
  shows "if q = MQ_KEY_NONE P then rc = - 1 \<and> m' = m1 \<and> w' = w1
    else \<exists>k\<le>5. (\<forall>i<k. queue_full P q msg (world_at P q msg w1 i)) \<and>
      (if k < 5 then \<not> queue_full P q msg (world_at P q msg w1 k) \<and>
         rc = fst (fst (os_msgsnd P q msg (world_at P q msg w1 k))) \<and> w' = snd (os_msgsnd P q msg (world_at P q msg w1 k))
       else rc = garbage P w' \<and> w' = world_at P q msg w1 5) \<and>
      m_ipc_retries m' = m_ipc_retries m + int k \<and>
      m_ipc_retry_wait_lost_time m' = m_ipc_retry_wait_lost_time m + 1024 * (2 ^ k - 1) \<and>
      queue_config m' = queue_config m"
proof -
  note fr = open_queue_frame [OF assms(6)]
  have cfg: "queue_config m' = queue_config m" by (rule send_msg_queue_frame [OF assms(1)])
  show ?thesis
  proof (cases "q = MQ_KEY_NONE P")
    case True
    with assms(1,6,7) show ?thesis by (simp add: send_msg_queue_def)
  next
    case False
    with assms(1,6,7,8) have "retry_send P msg 0 (m1, world_at P q msg w1 0) = (rc, m', w')"
      by (simp add: send_msg_queue_def)
    from retry_send_rounds [OF this _ assms(7)] fr assms(2-5) obtain k where "k \<le> 5"
      "\<forall>i<k. queue_full P q msg (world_at P q msg w1 i)"
      "if k < 5 then \<not> queue_full P q msg (world_at P q msg w1 k) \<and>
         rc = fst (fst (os_msgsnd P q msg (world_at P q msg w1 k))) \<and> w' = snd (os_msgsnd P q msg (world_at P q msg w1 k))
       else rc = garbage P w' \<and> w' = world_at P q msg w1 5"
      "m_ipc_retries m' = m_ipc_retries m + int k"
      "m_ipc_retry_wait_lost_time m' = m_ipc_retry_wait_lost_time m + 512 * (2 ^ Suc k - 2)"
      by auto
    with False cfg show ?thesis by (simp only: if_False, intro exI [of _ k]) simp
  qed
qed

theorem queue_retries_bounded_witness:
  "\<exists>rc m'. send_msg_queue (demo_platform (- 1) EAGAIN) zero_record (demo_mon\<lparr>m_message_queue_id := 7\<rparr>, ()) = (rc, m', ()) \<and>
    m_ipc_retries m' = 5 \<and> m_ipc_retry_wait_lost_time m' = 31744"
proof -
  define P where "P = (demo_platform (- 1) EAGAIN :: unit platform)"
  define m where "m = demo_mon\<lparr>m_message_queue_id := 7\<rparr>"
  obtain rc m' w' where s: "send_msg_queue P zero_record (m, ()) = (rc, m', w')" by (metis prod.exhaust)
  obtain m1 w1 where o: "open_queue P (m, ()) = (m1, w1)" by (cases "open_queue P (m, ())")
  have q: "m_message_queue_id m1 \<noteq> MQ_KEY_NONE P" using o
    by (auto simp: open_queue_def P_def m_def demo_platform_def demo_mon_def initial_mon_def Let_def split: if_splits)
  have full: "queue_full P (m_message_queue_id m1) msg w" for msg w
    by (simp add: queue_full_def P_def demo_platform_def EAGAIN_def)
  have z: "m_ipc_retries m = 0" "m_ipc_retry_wait_lost_time m = 0"
    by (simp_all add: m_def demo_mon_def initial_mon_def)
  from queue_retries_bounded [OF s _ _ _ _ o refl refl] q full z
  obtain k where "\<not> k < 5" "k \<le> 5" "m_ipc_retries m' = int k" "m_ipc_retry_wait_lost_time m' = 1024 * (2 ^ k - 1)"
    by (auto split: if_splits)
  then have "k = 5" "m_ipc_retries m' = int k" "m_ipc_retry_wait_lost_time m' = 1024 * (2 ^ k - 1)" by simp_all
  with s show ?thesis by (auto simp: P_def m_def)
qed

text \<open>A record never carries an unterminated string, whatever the strings of the intercepted call
  are; a path shorter than \<open>PATH_MAX\<close> and a second string shorter than \<open>STR_LEN\<close> are carried whole;
  domain, operation, descriptor, error code and byte count are those of the call.\<close>

theorem record_contents:
  assumes "ev_s1 e = Some s1" "ev_s2 e = Some s2" "length s1 < PATH_MAX" "length s2 < STR_LEN"
  shows "terminated_record (make_record P w m e) \<and>
    mr_s1 (make_record P w m e) = s1 \<and> mr_s2 (make_record P w m e) = s2 \<and>
    mr_dom_type (make_record P w m e) = int (domain_index (ev_dom_type e)) \<and>
    mr_op_type (make_record P w m e) = int (op_index (ev_op_type e)) \<and>
    mr_fd (make_record P w m e) = ev_fd e \<and>
    mr_error_code (make_record P w m e) = ev_error_code e \<and>
    mr_bytes_transferred (make_record P w m e) = ev_bytes_transferred e \<and>
    (\<forall>e'. terminated_record (make_record P w m e'))"
  using assms
  by (intro conjI allI make_record_terminated)
    (simp_all add: make_record_def zero_record_def record_field_s_short)

theorem record_contents_witness:
  "mr_s1 (make_record (demo_platform 0 0) () demo_mon ((demo_open ''/etc/passwd'')\<lparr>ev_s2 := Some ''r''\<rparr>)) =
     ''/etc/passwd''"
  using record_contents [of "(demo_open ''/etc/passwd'')\<lparr>ev_s2 := Some ''r''\<rparr>" "''/etc/passwd''" "''r''"
      "demo_platform 0 0" "()" demo_mon]
  by (simp add: demo_open_def buffer_sizes)

text \<open>How the two counters of the summary account for one call of \<open>record\<close>.\<close>

definition accounted :: "bool \<Rightarrow> mon \<Rightarrow> mon \<Rightarrow> bool" where
  "accounted sent m m' \<longleftrightarrow>
     (if sent
      then (m_ipc_records m' = int32 (m_ipc_records m + 1) \<and> m_failed_ipc_sends m' = m_failed_ipc_sends m) \<or>
           (m_ipc_records m' = m_ipc_records m \<and> m_failed_ipc_sends m' = int32 (m_failed_ipc_sends m + 1))
      else m_ipc_records m' = m_ipc_records m \<and> m_failed_ipc_sends m' = m_failed_ipc_sends m)"

lemma report_accounted:
  fixes rc :: int
  assumes "m_ipc_records m' = (if rc = 0 then int32 (m_ipc_records m + 1) else m_ipc_records m)"
    and "m_failed_ipc_sends m' = (if rc = 0 then m_failed_ipc_sends m else int32 (m_failed_ipc_sends m + 1))"
  shows "accounted True m m'"
  using assms by (cases "rc = 0") (simp_all add: accounted_def)

lemma gate_frame_accounted: "gate_frame m m' \<Longrightarrow> accounted False m m'"
  by (cases m; cases m') (simp add: accounted_def gate_frame_def gate_config_def)

text \<open>C4: with a message queue configured, \<open>record\<close> returns on every call the interposer can make (an
  OPEN comes with a path), without any nested call, and accounts for it: one of the counters of sent and
  failed records is advanced by one if the gate lets the call through, none if it does not.\<close>

theorem queue_record_accounts:
  assumes "m_message_queue_path m \<noteq> None" "ev_op_type e = OPEN \<longrightarrow> ev_s1 e \<noteq> None"
  shows "\<exists>sent m1 m' w'. record_gate (os_time P w) e m = Inr (sent, m1) \<and>
    record_event P (Suc d) e (m, w) = Inr (m', w') \<and> accounted sent m m' \<and>
    m_message_queue_path m' \<noteq> None"
proof -
  have ready: "queue_ready m" using assms(1) by (simp add: queue_ready_def)
  obtain sent m1 where g: "record_gate (os_time P w) e m = Inr (sent, m1)"
    using queue.gate_defined [OF assms(2)] by blast
  have fr: "gate_frame m m1" by (rule record_gate_frame [OF g])
  show ?thesis
  proof (cases sent)
    case True
    with g have "record_gate (os_time P w) e m = Inr (True, m1)" by simp
    from queue.report_sends [OF ready this, of "record_event P d"] obtain rc m' w'
      where "record_event P (Suc d) e (m, w) = Inr (m', w')" "queue_ready m'"
        "m_ipc_records m' = (if rc = (0::int) then int32 (m_ipc_records m + 1) else m_ipc_records m)"
        "m_failed_ipc_sends m' = (if rc = 0 then m_failed_ipc_sends m else int32 (m_failed_ipc_sends m + 1))"
      unfolding record_event.simps by blast
    with True g report_accounted show ?thesis by (auto simp: queue_ready_def simp del: record_event.simps)
  next
    case False
    with g have g: "record_gate (os_time P w) e m = Inr (False, m1)" by simp
    have "record_event P (Suc d) e (m, w) = Inr (m1, w)"
      using queue.report_silent [OF g] by simp
    with g assms(1) gate_frame_accounted [OF fr] gate_frame_fields [OF fr] show ?thesis
      by (metis (full_types))
  qed
qed

theorem queue_record_accounts_witness:
  "\<exists>m' w'. record_event (demo_platform 0 0) 1 demo_write
     (demo_mon\<lparr>m_message_queue_path := Some ''/tmp/mq''\<rparr>, ()) = Inr (m', w') \<and>
     m_message_queue_path m' \<noteq> None"
  using queue_record_accounts [of "demo_mon\<lparr>m_message_queue_path := Some ''/tmp/mq''\<rparr>" demo_write
      "demo_platform 0 0" "()" 0]
  by (auto simp: demo_write_def)

text \<open>C5: over TCP, with no socket of its own open and the domain SOCKETS not monitored, \<open>record\<close>
  returns and accounts for the call in the same way; its own calls of \<open>socket\<close>, \<open>connect\<close>, \<open>write\<close>
  and \<open>close\<close> re-enter \<open>record\<close>, and two levels of calls are enough.\<close>

theorem tcp_record_accounts:
  assumes "m_message_queue_path m = None" "m_socket_fd m = FD_NONE"
    and "\<not> bit (m_domain_bit_flags m) (domain_index SOCKETS)" "ev_op_type e = OPEN \<longrightarrow> ev_s1 e \<noteq> None"
  shows "\<exists>sent m1 m' w'. record_gate (os_time P w) e m = Inr (sent, m1) \<and>
    record_event P (Suc (Suc d)) e (m, w) = Inr (m', w') \<and> accounted sent m m' \<and> m_socket_fd m' = FD_NONE"
proof -
  have ready: "tcp_ready m" using assms(1-3) by (simp add: tcp_ready_def monitors_bit)
  obtain sent m1 where g: "record_gate (os_time P w) e m = Inr (sent, m1)"
    using queue.gate_defined [OF assms(4)] by blast
  have fr: "gate_frame m m1" by (rule record_gate_frame [OF g])
  have re: "record_event P (Suc (Suc d)) e (m, w) = report P (transport P (record_event P (Suc d))) e (m, w)"
    by simp
  show ?thesis
  proof (cases sent)
    case True
    with g have "record_gate (os_time P w) e m = Inr (True, m1)" by simp
    from tcp.report_sends [OF ready this, of d] obtain rc m' w'
      where "report P (transport P (record_event P (Suc d))) e (m, w) = Inr (m', w')" "tcp_ready m'"
        "m_ipc_records m' = (if rc = (0::int) then int32 (m_ipc_records m + 1) else m_ipc_records m)"
        "m_failed_ipc_sends m' = (if rc = 0 then m_failed_ipc_sends m else int32 (m_failed_ipc_sends m + 1))"
      by blast
    with True g report_accounted show ?thesis unfolding re by (auto simp: tcp_ready_def)
  next
    case False
    with g have g: "record_gate (os_time P w) e m = Inr (False, m1)" by simp
    with assms(2) tcp.report_silent [OF g] gate_frame_accounted [OF fr] gate_frame_fields [OF fr] show ?thesis
      unfolding re by (metis (full_types))
  qed
qed

theorem tcp_record_accounts_witness:
  "\<exists>m' w'. record_event (demo_platform 0 0) 2 demo_write
     (demo_mon\<lparr>m_domain_bit_flags := push_bit 11 1\<rparr>, ()) = Inr (m', w') \<and> m_socket_fd m' = FD_NONE"
  using tcp_record_accounts [of "demo_mon\<lparr>m_domain_bit_flags := push_bit 11 1\<rparr>" demo_write
      "demo_platform 0 0" "()" 0]
  by (auto simp: demo_defs FD_NONE_def bit_simps numeral_2_eq_2 simp del: record_event.simps push_bit_of_1)

text \<open>C15: over TCP with the domain SOCKETS monitored the recursion has no end: for every stack depth
  \<open>d\<close>, a call that would be reported overflows the stack, because the record of the monitor's own
  \<open>socket\<close> call is sent over a new socket before \<open>socket_fd\<close> is set.\<close>

theorem tcp_sockets_overflow:
  assumes "m_message_queue_path m = None" "m_socket_fd m = FD_NONE"
    and "bit (m_domain_bit_flags m) (domain_index SOCKETS)" "m_failed_socket_connections m = 0"
    and "\<not> m_paused m" "\<not> m_count_based_sampling m" "\<not> m_time_based_sampling m"
    and "\<forall>w. fst (fst (os_socket P w)) \<notin> {0, 1, 2}" "reportable m e"
  shows "record_event P d e (m, w) = Inl StackOverflow"
proof -
  have "tcp_loops P m"
    using assms(1-8) unfolding tcp_loops_def monitors_bit by blast
  moreover have "record_gate t e m = Inr (True, m)" for t
    using gate_running [OF assms(5,9)] assms(6,7) by simp
  ultimately show ?thesis by (intro tcp_overflow) simp_all
qed

theorem tcp_sockets_overflow_witness:
  "record_event (demo_platform 0 0) 1000 demo_write (demo_mon, ()) = Inl StackOverflow"
  using tcp_sockets_overflow [of demo_mon "demo_platform 0 0" demo_write 1000 "()"] demo_reportable
  by (simp add: demo_mon_def initial_mon_def demo_platform_def FD_NONE_def del: record_event.simps)

text \<open>Once a connection to the listener has failed, the library is transparent: any sequence of
  calls of \<open>record\<close> returns without touching the state of the monitor or calling the system.\<close>

theorem silent_after_failed_connection:
  assumes "m_failed_socket_connections m > 0"
  shows "run (\<lambda>e mw. bindR (record_event P (Suc d) e mw) (\<lambda>mw'. Inr ((), mw'))) es (m, w) =
    Inr (replicate (length es) (), m, w)"
  by (induction es) (simp_all add: failed_connection_silent [OF assms] del: record_event.simps)

theorem silent_after_failed_connection_witness:
  "run (\<lambda>e mw. bindR (record_event (demo_platform 0 0) 1 e mw) (\<lambda>mw'. Inr ((), mw')))
     [demo_write, demo_open ''/x''] (demo_mon\<lparr>m_failed_socket_connections := 1\<rparr>, ()) =
   Inr ([(), ()], demo_mon\<lparr>m_failed_socket_connections := 1\<rparr>, ())"
  using silent_after_failed_connection
    [of "demo_mon\<lparr>m_failed_socket_connections := 1\<rparr>" "demo_platform 0 0" 0 "[demo_write, demo_open ''/x'']" "()"]
  by (simp del: record_event.simps)

section \<open>exec, init and fini\<close>

text \<open>C24: with at most 510 arguments after the first, the interposed \<open>execl\<close> and \<open>execlp\<close> run the
  program with exactly the caller's arguments; \<open>execle\<close> takes the last of them for the environment
  (its caller passes \<open>envp\<close> after the NULL, which the helper never reads); with more, all three write
  past the end of the table.\<close>

theorem exec_vectors:
  "if length args \<le> 510
   then orig_vexecl path (Some arg) args = Inr (Execv path (arg # args)) \<and>
        orig_vexeclp path (Some arg) args = Inr (Execvp path (arg # args)) \<and>
        orig_vexecle path (Some arg) args =
          Inr (Execvpe path (butlast (arg # args)) (Some (last (arg # args))))
   else orig_vexecl path (Some arg) args = Inl BufferOverflow \<and>
        orig_vexeclp path (Some arg) args = Inl BufferOverflow \<and>
        orig_vexecle path (Some arg) args = Inl BufferOverflow"
proof (cases "length args \<le> 510")
  case True
  then show ?thesis by (simp only: execl_vector execlp_vector execle_vector if_True simp_thms)
next
  case False
  then show ?thesis
    by (simp add: orig_vexecl_def orig_vexeclp_def orig_vexecle_def va_list_to_table_overflow)
qed

text \<open>The START record carries the command line of the process, its arguments separated by blanks,
  whenever \<open>read\<close> returns the whole of it and its first argument is not empty; a number of the parent
  process of ten characters overruns its array.\<close>

theorem init_records_cmdline:
  assumes "\<forall>a\<in>set (arg # args). c_string a" "arg \<noteq> []"
    and "data = concat (map (\<lambda>a. a @ [NUL]) (arg # args))"
  shows "init P rec (int (length data)) data ppid cwd (m, w) =
    (if length (show_int ppid) < 10
     then bindR (rec (start_event (join CHR '' '' (arg # args)) (''PPID:'' @ show_int ppid) (os_clock P w) (os_clock P w) (ZERO_BYTES P)) (m, w))
       (rec (chdir_event cwd (os_clock P w) (os_clock P w) (ZERO_BYTES P)))
     else Inl BufferOverflow)"
  unfolding init_def by (simp add: init_cmdline_join [OF assms] sprintf_arr_def Let_def)

theorem init_records_cmdline_witness:
  "init (demo_platform 0 0) (\<lambda>e mw. if ev_s1 e = Some ''ls -l'' then Inl Diverges else Inr mw)
     6 [CHR ''l'', CHR ''s'', NUL, CHR ''-'', CHR ''l'', NUL] 1 None (demo_mon, ()) = Inl Diverges"
  using init_records_cmdline [of "''ls''" "[''-l'']" "[CHR ''l'', CHR ''s'', NUL, CHR ''-'', CHR ''l'', NUL]"
      "demo_platform 0 0" "\<lambda>e mw. if ev_s1 e = Some ''ls -l'' then Inl Diverges else Inr mw" 1 None demo_mon "()"]
  by (simp add: start_event_def c_string_def show_eval)

text \<open>The destructor's summary always fits its buffer, for any values of the four counters, and the
  STOP record carries it.\<close>

theorem fini_reports_summary:
  assumes "\<forall>c\<in>{m_failed_ipc_sends m, m_ipc_retries m, m_ipc_retry_wait_lost_time m, m_ipc_records m}.
    - (2 ^ 31) \<le> c \<and> c < 2 ^ 31"
  shows "fini P rec (m, w) = rec (stop_event (fini_summary m) (os_clock P w) (os_clock P w) (ZERO_BYTES P)) (m, w) \<and>
    mr_s1 (make_record P w m (stop_event (fini_summary m) t0 t1 z)) = fini_summary m"
  using fini_summary_fits [OF assms]
  by (simp add: fini_def make_record_def stop_event_def record_field_s_short)

theorem fini_reports_summary_witness:
  "fini (demo_platform 0 0) (\<lambda>e mw. if ev_s1 e = Some
       ''failed_ipc_sends = 0; ipc_retries = 3; ipc_retry_wait_lost_time = 7168; ipc_records = 12; ''
     then Inl Diverges else Inr mw)
     (demo_mon\<lparr>m_ipc_retries := 3, m_ipc_retry_wait_lost_time := 7168, m_ipc_records := 12\<rparr>, ()) = Inl Diverges"
proof -
  have s: "fini_summary (demo_mon\<lparr>m_ipc_retries := 3, m_ipc_retry_wait_lost_time := 7168, m_ipc_records := 12\<rparr>) =
      ''failed_ipc_sends = 0; ipc_retries = 3; ipc_retry_wait_lost_time = 7168; ipc_records = 12; ''"
    by (simp add: fini_summary_def smprintf_def demo_mon_def initial_mon_def show_eval)
  show ?thesis
    using fini_reports_summary
      [of "demo_mon\<lparr>m_ipc_retries := 3, m_ipc_retry_wait_lost_time := 7168, m_ipc_records := 12\<rparr>"
        "demo_platform 0 0" _ "()", unfolded s]
    by (simp add: demo_mon_def initial_mon_def stop_event_def)
qed

end
