(* ===== verification/Command_Parser.thy ===== *)
theory Command_Parser
imports Prelude
begin

text \<open>
  \<open>mq_listener/command_parser.c\<close>: the list of commands (\<open>set_command\<close>, \<open>free_command\<close>,
  \<open>run_command\<close>), the splitting of a line into a command and its arguments (\<open>parse_command\<close>) and of
  the program's command line into a sequence of commands (\<open>parse_args\<close>).

  A function pointer is a value of a type \<open>'f\<close>; \<open>call\<close> says what calling it does to a world \<open>'w\<close>. The
  static list head is a component of that world too, because commands add and remove commands.
\<close>

section \<open>The list of commands\<close>

record ('f, 'h) command =
  cmd_name :: string
  cmd_short_name :: string
  cmd_params_desc :: string
  cmd_help :: string
  cmd_function :: "'f option"
  cmd_interactive_only :: bool
  cmd_state :: "'h option"

definition names_command :: "('f, 'h) command \<Rightarrow> string \<Rightarrow> bool" where
  "names_command c name \<longleftrightarrow> cmd_name c = name \<or> cmd_short_name c = name"

definition set_command :: "('f, 'h) command \<Rightarrow> ('f, 'h) command list \<Rightarrow> ('f, 'h) command list" where
  "set_command c s_commands = c # s_commands"

text \<open>The array ends at the first entry without a function.\<close>

fun set_commands_array ::
  "('f, 'h) command list \<Rightarrow> ('f, 'h) command list \<Rightarrow> ('f, 'h) command list res" where
  "set_commands_array [] s_commands = Inl OutOfBounds"
| "set_commands_array (c # cs) s_commands =
     (if cmd_function c = None then Inr s_commands
      else set_commands_array cs (set_command c s_commands))"

text \<open>\<open>free_command\<close> walks down the list with \<open>p_command\<close>; the condition of its inner \<open>if\<close> is the
  assignment \<open>p_command = s_commands\<close>, so it is true and what is unlinked is the head of the list.\<close>

fun free_command_from ::
  "string \<Rightarrow> ('f, 'h) command list \<Rightarrow> ('f, 'h) command list \<Rightarrow> ('f, 'h) command list" where
  "free_command_from name [] s_commands = s_commands"
| "free_command_from name (c # p_command) s_commands =
     (if names_command c name then tl s_commands
      else free_command_from name p_command s_commands)"

definition free_command :: "string \<Rightarrow> ('f, 'h) command list \<Rightarrow> ('f, 'h) command list" where
  "free_command name s_commands = free_command_from name s_commands s_commands"

type_synonym ('f, 'h, 'w) call = "'f option \<Rightarrow> string \<Rightarrow> string list \<Rightarrow> 'h option \<Rightarrow> 'w \<Rightarrow> (int \<times> 'w) res"

fun run_command_from ::
  "('f, 'h, 'w) call \<Rightarrow> string \<Rightarrow> string list \<Rightarrow> ('f, 'h) command list \<Rightarrow> 'w \<Rightarrow> (int \<times> 'w) res" where
  "run_command_from call name args [] w = Inr (1, w)"
| "run_command_from call name args (c # p_command) w =
     (if names_command c name then call (cmd_function c) name args (cmd_state c) w
      else run_command_from call name args p_command w)"

definition run_command ::
  "('f, 'h, 'w) call \<Rightarrow> ('w \<Rightarrow> ('f, 'h) command list) \<Rightarrow> string \<Rightarrow> string list \<Rightarrow> 'w \<Rightarrow> (int \<times> 'w) res" where
  "run_command call s_commands name args w = run_command_from call name args (s_commands w) w"

section \<open>Lines and command lines\<close>

type_synonym 'w runner = "string \<Rightarrow> string list \<Rightarrow> 'w \<Rightarrow> (int \<times> 'w) res"

text \<open>\<open>char* command_tokenized[128]\<close> holds the tokens and a final NULL. The function has no
  \<open>return\<close>; no caller uses its result.\<close>

definition max_tokens :: nat where "max_tokens = 128"

definition parse_command :: "'w runner \<Rightarrow> string \<Rightarrow> 'w \<Rightarrow> 'w res" where
  "parse_command run buf w =
     (let command_tokenized = strtok_all [CHR '' '', CHR 0x0A] buf
      in if length command_tokenized < max_tokens
         then case command_tokenized of [] \<Rightarrow> Inr w
              | name # args \<Rightarrow> bindR (run name args w) (\<lambda>(rc, w'). Inr w')
         else Inl BufferOverflow)"

text \<open>One command collected so far: its name and its parameters, \<open>apn\<close> of them. Running it stores a
  NULL behind them in \<open>char* command_parameters[128]\<close>.\<close>

definition run_collected :: "'w runner \<Rightarrow> string \<times> string list \<Rightarrow> 'w \<Rightarrow> (int \<times> 'w) res" where
  "run_collected run c w =
     (if length (snd c) < max_tokens then run (fst c) (snd c) w else Inl BufferOverflow)"

text \<open>The loop over \<open>argv[1..]\<close>; \<open>command\<close> is NULL exactly while \<open>apn\<close> is -1.\<close>

fun parse_args_from ::
  "'w runner \<Rightarrow> string list \<Rightarrow> (string \<times> string list) option \<Rightarrow> 'w \<Rightarrow> (int \<times> 'w) res" where
  "parse_args_from run [] None w = Inr (- 1, w)"
| "parse_args_from run [] (Some c) w =
     bindR (run_collected run c w) (\<lambda>(rc, w'). Inr (if rc \<noteq> 0 then - 1 else 0, w'))"
| "parse_args_from run (a # as) command w =
     (if a \<noteq> [] \<and> hd a = CHR ''-''
      then bindR (case command of None \<Rightarrow> Inr (0, w) | Some c \<Rightarrow> run_collected run c w) (\<lambda>(rc, w1).
        if rc \<noteq> 0 then Inr (- 1, w1)
        else if tl a \<noteq> [] \<and> hd (tl a) = CHR ''-''
        then if drop 2 a = [] then Inr (- 1, w1) else parse_args_from run as (Some (drop 2 a, [])) w1
        else if tl a = [] then Inr (- 1, w1) else parse_args_from run as (Some (tl a, [])) w1)
      else case command of None \<Rightarrow> Inr (- 1, w)
           | Some (c, ps) \<Rightarrow>
              if length ps < max_tokens then parse_args_from run as (Some (c, ps @ [a])) w
              else Inl BufferOverflow)"

text \<open>The loop starts at 1 and tests \<open>i != argc\<close>, so an empty \<open>argv\<close> sends it past the end.\<close>

definition parse_args :: "'w runner \<Rightarrow> string list \<Rightarrow> 'w \<Rightarrow> (int \<times> 'w) res" where
  "parse_args run argv w =
     (case argv of [] \<Rightarrow> Inl OutOfBounds | prog # as \<Rightarrow> parse_args_from run as None w)"

section \<open>Commands are found by either name, the newest first\<close>

lemma run_command_find:
  "run_command call s_commands name args w =
    (case find (\<lambda>c. names_command c name) (s_commands w) of
       None \<Rightarrow> Inr (1, w) | Some c \<Rightarrow> call (cmd_function c) name args (cmd_state c) w)"
proof -
  have "run_command_from call name args cs w =
    (case find (\<lambda>c. names_command c name) cs of
       None \<Rightarrow> Inr (1, w) | Some c \<Rightarrow> call (cmd_function c) name args (cmd_state c) w)" for cs
    by (induction cs) auto
  then show ?thesis by (simp add: run_command_def)
qed

lemma set_commands_array_eq:
  "\<forall>c\<in>set cs. cmd_function c \<noteq> None \<Longrightarrow> cmd_function e = None \<Longrightarrow>
    set_commands_array (cs @ e # r) s = Inr (rev cs @ s)"
  by (induction cs arbitrary: s) (auto simp: set_command_def)

lemma free_command_eq:
  "free_command name cs = (if \<exists>c\<in>set cs. names_command c name then tl cs else cs)"
proof -
  have "free_command_from name ds cs = (if \<exists>c\<in>set ds. names_command c name then tl cs else cs)" for ds
    by (induction ds) auto
  then show ?thesis by (simp add: free_command_def)
qed

section \<open>The meaning of a command line\<close>

text \<open>A command of a command line: long or short form, its name and its parameters.\<close>

definition print_group :: "bool \<times> string \<times> string list \<Rightarrow> string list" where
  "print_group g = (case g of (long, c, ps) \<Rightarrow> ((if long then ''--'' else ''-'') @ c) # ps)"

definition group_ok :: "bool \<times> string \<times> string list \<Rightarrow> bool" where
  "group_ok g \<longleftrightarrow> (case g of (long, c, ps) \<Rightarrow>
     c \<noteq> [] \<and> (\<not> long \<longrightarrow> hd c \<noteq> CHR ''-'') \<and> (\<forall>p\<in>set ps. p = [] \<or> hd p \<noteq> CHR ''-'') \<and> length ps < max_tokens)"

text \<open>Running commands one after the other until one fails.\<close>

fun run_groups :: "'w runner \<Rightarrow> (bool \<times> string \<times> string list) list \<Rightarrow> 'w \<Rightarrow> (int \<times> 'w) res" where
  "run_groups run [] w = Inr (0, w)"
| "run_groups run ((long, c, ps) # gs) w =
     bindR (run c ps w) (\<lambda>(rc, w1). if rc \<noteq> 0 then Inr (- 1, w1) else run_groups run gs w1)"

lemma parse_args_params:
  "\<forall>p\<in>set qs. p = [] \<or> hd p \<noteq> CHR ''-'' \<Longrightarrow> length ps + length qs < max_tokens \<Longrightarrow>
    parse_args_from run (qs @ as) (Some (c, ps)) w = parse_args_from run as (Some (c, ps @ qs)) w"
  by (induction qs arbitrary: ps) auto

text \<open>A command that has been collected runs before what follows it.\<close>

lemma parse_args_pending:
  assumes "\<forall>g\<in>set gs. group_ok g" "length ps < max_tokens"
  shows "parse_args_from run (concat (map print_group gs)) (Some (c, ps)) w =
    run_groups run ((long, c, ps) # gs) w"
  using assms
proof (induction gs arbitrary: long c ps w)
  case Nil
  then show ?case
    by (auto simp: run_collected_def intro!: bindR_cong)
next
  case (Cons g gs)
  obtain l d qs where g: "g = (l, d, qs)" by (cases g)
  have ok: "d \<noteq> []" "\<not> l \<longrightarrow> hd d \<noteq> CHR ''-''" "\<forall>p\<in>set qs. p = [] \<or> hd p \<noteq> CHR ''-''" "length qs < max_tokens"
    using Cons.prems(1) by (auto simp: g group_ok_def)
  have "parse_args_from run (concat (map print_group (g # gs))) (Some (c, ps)) w =
    bindR (run c ps w) (\<lambda>(rc, w1). if rc \<noteq> 0 then Inr (- 1, w1)
      else parse_args_from run (qs @ concat (map print_group gs)) (Some (d, [])) w1)"
    using ok(1,2) Cons.prems(2)
    by (cases d) (auto simp: g print_group_def run_collected_def intro!: bindR_cong)
  moreover have "parse_args_from run (qs @ concat (map print_group gs)) (Some (d, [])) w1 =
      run_groups run (g # gs) w1" for w1
    using Cons.IH [of qs d w1 l] Cons.prems(1) ok
      parse_args_params [of qs "[]" run "concat (map print_group gs)" d w1] by (simp add: g)
  ultimately show ?case by (simp cong: if_cong)
qed

lemma parse_args_groups:
  assumes "\<forall>g\<in>set gs. group_ok g" "gs \<noteq> []"
  shows "parse_args run (prog # concat (map print_group gs)) w = run_groups run gs w"
proof -
  obtain l d qs gs' where gs: "gs = (l, d, qs) # gs'"
    using assms(2) by (metis neq_Nil_conv prod_cases3)
  have ok: "d \<noteq> []" "\<not> l \<longrightarrow> hd d \<noteq> CHR ''-''" "\<forall>p\<in>set qs. p = [] \<or> hd p \<noteq> CHR ''-''" "length qs < max_tokens"
    using assms(1) by (auto simp: gs group_ok_def)
  have "parse_args run (prog # concat (map print_group gs)) w =
      parse_args_from run (qs @ concat (map print_group gs')) (Some (d, [])) w"
    using ok(1,2) by (cases d) (auto simp: gs print_group_def parse_args_def)
  also have "\<dots> = parse_args_from run (concat (map print_group gs')) (Some (d, qs)) w"
    using ok parse_args_params [of qs "[]" run "concat (map print_group gs')" d w] by simp
  also have "\<dots> = run_groups run gs w"
    using parse_args_pending [of gs' qs run d w l] assms(1) ok by (simp add: gs)
  finally show ?thesis .
qed

section \<open>Invariants of an interpreter\<close>

text \<open>What running a command keeps, lines and command lines keep.\<close>

locale interpreter =
  fixes run :: "'w runner"
    and inv :: "'w \<Rightarrow> bool"
  assumes run_inv: "inv w \<Longrightarrow> run name args w = Inr (rc, w') \<Longrightarrow> inv w'"
begin

lemma parse_command_inv: "inv w \<Longrightarrow> parse_command run buf w = Inr w' \<Longrightarrow> inv w'"
  by (auto simp: parse_command_def Let_def dest: run_inv split: if_splits list.splits)

lemma run_collected_inv: "inv w \<Longrightarrow> run_collected run c w = Inr (rc, w') \<Longrightarrow> inv w'"
  by (auto simp: run_collected_def dest: run_inv split: if_splits)

lemma parse_args_from_inv:
  "inv w \<Longrightarrow> parse_args_from run as c w = Inr (rc, w') \<Longrightarrow> inv w'"
proof (induction as arbitrary: c w)
  case Nil
  then show ?case by (cases c) (auto dest: run_collected_inv)
next
  case (Cons a as)
  show ?case
  proof (cases "a \<noteq> [] \<and> hd a = CHR ''-''")
    case True
    then obtain r1 w1 where 1: "(case c of None \<Rightarrow> Inr (0, w) | Some c \<Rightarrow> run_collected run c w) = Inr (r1, w1)"
      using Cons.prems(2) by auto
    then have "inv w1" using Cons.prems(1) by (auto split: option.splits dest: run_collected_inv)
    with Cons 1 True show ?thesis by (auto split: if_splits)
  next
    case False
    with Cons show ?thesis by (auto split: option.splits if_splits)
  qed
qed

lemma parse_args_inv: "inv w \<Longrightarrow> parse_args run argv w = Inr (rc, w') \<Longrightarrow> inv w'"
  by (auto simp: parse_args_def dest: parse_args_from_inv split: list.splits)

end

end
