(* ===== verification/Plugin_Chain.thy ===== *)
theory Plugin_Chain
imports Command_Parser Monitor_Record
begin

text \<open>
  \<open>mq_listener/plugin_chain.c\<close>: the chain of loaded plugins, a singly linked list on the heap. A heap
  maps the addresses of the allocated nodes to their contents; \<open>dlopen\<close>, with \<open>dlsym\<close>, is a parameter
  that gives the entry points of a library. An entry point gets the plugin's state pointer, a value of
  a type \<open>'h\<close>, and may change a world \<open>'x\<close>, which holds what plugins keep and do; it does not get at
  the chain itself.
\<close>

section \<open>Plugins\<close>

definition PLUGIN_OPEN_SUCCESS :: int where "PLUGIN_OPEN_SUCCESS = 0"
definition PLUGIN_OPEN_FAIL :: int where "PLUGIN_OPEN_FAIL = 1"
definition PLUGIN_ACCEPT_DATA :: int where "PLUGIN_ACCEPT_DATA = 1"
definition PLUGIN_REFUSE_DATA :: int where "PLUGIN_REFUSE_DATA = 0"
definition PLUGIN_DROP_DATA :: int where "PLUGIN_DROP_DATA = - 1"

lemmas plugin_codes = PLUGIN_OPEN_SUCCESS_def PLUGIN_OPEN_FAIL_def PLUGIN_ACCEPT_DATA_def
  PLUGIN_REFUSE_DATA_def PLUGIN_DROP_DATA_def

text \<open>The symbols of a library; one that is missing is \<open>None\<close>.\<close>

record ('h, 'x, 'f) library =
  open_plugin :: "(string option \<Rightarrow> 'x \<Rightarrow> (int \<times> 'h \<times> 'x) res) option"
  close_plugin :: "('h \<Rightarrow> 'x \<Rightarrow> 'x res) option"
  ok_to_accept_data :: "('h \<Rightarrow> 'x \<Rightarrow> (int \<times> 'x) res) option"
  process_data :: "(monitor_record \<Rightarrow> 'h \<Rightarrow> 'x \<Rightarrow> (int \<times> monitor_record \<times> 'x) res) option"
  plugin_command :: "'f option"

section \<open>The chain\<close>

text \<open>\<open>struct plugin_chain\<close>, without the pointers that nothing reads again. \<open>pl_loaded\<close> says that the
  library is open and the strings are allocated; \<open>unload_plugin\<close> ends both.\<close>

record ('h, 'x) node =
  pl_paused :: bool
  pl_library :: string
  pl_options :: "string option"
  pl_alias :: "string option"
  pfn_close_plugin :: "'h \<Rightarrow> 'x \<Rightarrow> 'x res"
  pfn_ok_to_accept_data :: "'h \<Rightarrow> 'x \<Rightarrow> (int \<times> 'x) res"
  pfn_process_data :: "monitor_record \<Rightarrow> 'h \<Rightarrow> 'x \<Rightarrow> (int \<times> monitor_record \<times> 'x) res"
  pl_state :: 'h
  next_plugin :: "nat option"
  pl_loaded :: bool

text \<open>\<open>heap\<close> holds the nodes that are allocated, all below \<open>fresh\<close>; \<open>plugins\<close> is the list head. The
  list of commands and the world of the plugins are part of the state.\<close>

record ('h, 'x, 'f) chain =
  heap :: "nat \<Rightarrow> ('h, 'x) node option"
  fresh :: nat
  plugins :: "nat option"
  s_commands :: "('f, 'h) command list"
  world :: 'x

definition initial_chain :: "'x \<Rightarrow> ('h, 'x, 'f) chain" where
  "initial_chain x = \<lparr>heap = (\<lambda>_. None), fresh = 0, plugins = None, s_commands = [], world = x\<rparr>"

definition node_at :: "nat \<Rightarrow> ('h, 'x, 'f) chain \<Rightarrow> ('h, 'x) node res" where
  "node_at p s = (case heap s p of None \<Rightarrow> Inl UseAfterFree | Some n \<Rightarrow> Inr n)"

text \<open>A node whose library is still open.\<close>

definition live_at :: "nat \<Rightarrow> ('h, 'x, 'f) chain \<Rightarrow> ('h, 'x) node res" where
  "live_at p s = bindR (node_at p s) (\<lambda>n. if pl_loaded n then Inr n else Inl UseAfterFree)"

definition set_node :: "nat \<Rightarrow> ('h, 'x) node \<Rightarrow> ('h, 'x, 'f) chain \<Rightarrow> ('h, 'x, 'f) chain" where
  "set_node p n s = s\<lparr>heap := (heap s)(p \<mapsto> n)\<rparr>"

text \<open>A loop down the list can visit at most \<open>fresh\<close> nodes before it visits one again, and it does not
  change a \<open>next_plugin\<close> before it ends; so a loop that has \<open>loop_fuel\<close> rounds and does not end never
  does.\<close>

definition loop_fuel :: "('h, 'x, 'f) chain \<Rightarrow> nat" where
  "loop_fuel s = Suc (fresh s)"

section \<open>execute\_plugin\_chain\<close>

text \<open>What one round of the loop does with a node: whether the data goes on to the next plugin, the
  record as the plugin left it, the node and the world after it.\<close>

definition offer ::
  "monitor_record \<Rightarrow> ('h, 'x) node \<Rightarrow> 'x \<Rightarrow> (bool \<times> monitor_record \<times> ('h, 'x) node \<times> 'x) res" where
  "offer rec n x =
     bindR (if pl_paused n
            then bindR (pfn_ok_to_accept_data n (pl_state n) x) (\<lambda>(rc_plugin, x1).
              Inr (if rc_plugin = PLUGIN_ACCEPT_DATA then n\<lparr>pl_paused := False\<rparr> else n, x1))
            else Inr (n, x)) (\<lambda>(n1, x1).
     if pl_paused n1 then Inr (True, rec, n1, x1)
     else bindR (pfn_process_data n1 rec (pl_state n1) x1) (\<lambda>(rc_plugin, rec', x2).
       Inr (rc_plugin \<noteq> PLUGIN_DROP_DATA, rec',
            if rc_plugin = PLUGIN_REFUSE_DATA then n1\<lparr>pl_paused := True\<rparr> else n1, x2)))"

definition execute_plugin ::
  "nat \<Rightarrow> monitor_record \<Rightarrow> ('h, 'x, 'f) chain \<Rightarrow> (bool \<times> monitor_record \<times> ('h, 'x, 'f) chain) res" where
  "execute_plugin p rec s =
     bindR (live_at p s) (\<lambda>n. bindR (offer rec n (world s)) (\<lambda>(go_on, rec', n', x').
       Inr (go_on, rec', (set_node p n' s)\<lparr>world := x'\<rparr>)))"

fun execute_from ::
  "nat \<Rightarrow> nat option \<Rightarrow> monitor_record \<Rightarrow> ('h, 'x, 'f) chain \<Rightarrow> (monitor_record \<times> ('h, 'x, 'f) chain) res" where
  "execute_from fuel None rec s = Inr (rec, s)"
| "execute_from 0 (Some p) rec s = Inl Diverges"
| "execute_from (Suc fuel) (Some p) rec s =
     bindR (execute_plugin p rec s) (\<lambda>(go_on, rec', s').
       if \<not> go_on then Inr (rec', s')
       else bindR (node_at p s') (\<lambda>n. execute_from fuel (next_plugin n) rec' s'))"

definition execute_plugin_chain ::
  "monitor_record \<Rightarrow> ('h, 'x, 'f) chain \<Rightarrow> (monitor_record \<times> ('h, 'x, 'f) chain) res" where
  "execute_plugin_chain rec s = execute_from (loop_fuel s) (plugins s) rec s"

section \<open>Unloading\<close>

definition unload_plugin :: "nat \<Rightarrow> ('h, 'x, 'f) chain \<Rightarrow> ('h, 'x, 'f) chain res" where
  "unload_plugin p s =
     bindR (live_at p s) (\<lambda>n.
     bindR (pfn_close_plugin n (pl_state n) (world s)) (\<lambda>x.
       Inr ((set_node p (n\<lparr>pl_loaded := False\<rparr>) s)
              \<lparr>world := x, s_commands := free_command (pl_library n) (s_commands s)\<rparr>)))"

fun unload_all_from :: "nat \<Rightarrow> ('h, 'x, 'f) chain \<Rightarrow> ('h, 'x, 'f) chain res" where
  "unload_all_from fuel s =
     (case plugins s of
        None \<Rightarrow> Inr s
      | Some p \<Rightarrow>
         (case fuel of
            0 \<Rightarrow> Inl Diverges
          | Suc fuel' \<Rightarrow>
             bindR (unload_plugin p s) (\<lambda>s1.
             bindR (node_at p s1) (\<lambda>n. unload_all_from fuel' (s1\<lparr>plugins := next_plugin n\<rparr>)))))"

declare unload_all_from.simps [simp del]

definition unload_all_plugins :: "('h, 'x, 'f) chain \<Rightarrow> ('h, 'x, 'f) chain res" where
  "unload_all_plugins s = unload_all_from (loop_fuel s) s"

fun locate_from ::
  "nat \<Rightarrow> string \<Rightarrow> nat option \<Rightarrow> ('h, 'x, 'f) chain \<Rightarrow> nat option res" where
  "locate_from fuel name None s = Inr None"
| "locate_from 0 name (Some p) s = Inl Diverges"
| "locate_from (Suc fuel) name (Some p) s =
     bindR (live_at p s) (\<lambda>n.
       if name = pl_library n \<or> pl_alias n = Some name then Inr (Some p)
       else locate_from fuel name (next_plugin n) s)"

definition locate_plugin_by_name :: "string \<Rightarrow> ('h, 'x, 'f) chain \<Rightarrow> nat option res" where
  "locate_plugin_by_name name s = locate_from (loop_fuel s) name (plugins s) s"

text \<open>\<open>free\<close> of a node.\<close>

definition free_node :: "nat \<Rightarrow> ('h, 'x, 'f) chain \<Rightarrow> ('h, 'x, 'f) chain" where
  "free_node p s = s\<lparr>heap := (heap s)(p := None)\<rparr>"

text \<open>The search for the predecessor of \<open>p\<close>, which is then unlinked and freed.\<close>

fun unlink_from ::
  "nat \<Rightarrow> nat \<Rightarrow> nat option \<Rightarrow> ('h, 'x, 'f) chain \<Rightarrow> (int \<times> ('h, 'x, 'f) chain) res" where
  "unlink_from fuel p None s = Inr (1, s)"
| "unlink_from 0 p (Some i) s = Inl Diverges"
| "unlink_from (Suc fuel) p (Some i) s =
     bindR (node_at i s) (\<lambda>n.
       if next_plugin n = Some p
       then bindR (node_at p s) (\<lambda>np.
              Inr (0, free_node p (set_node i (n\<lparr>next_plugin := next_plugin np\<rparr>) s)))
       else unlink_from fuel p (next_plugin n) s)"

text \<open>The unlinking of \<open>p\<close>; \<open>i\<close> is the head of the list as it was read before the lock.\<close>

definition unlink_plugin :: "nat \<Rightarrow> nat option \<Rightarrow> ('h, 'x, 'f) chain \<Rightarrow> (int \<times> ('h, 'x, 'f) chain) res" where
  "unlink_plugin p i s =
     (if plugins s = Some p
      then bindR (node_at p s) (\<lambda>n. Inr (0, free_node p (s\<lparr>plugins := next_plugin n\<rparr>)))
      else unlink_from (loop_fuel s) p i s)"

definition unload_plugin_by_name :: "string \<Rightarrow> ('h, 'x, 'f) chain \<Rightarrow> (int \<times> ('h, 'x, 'f) chain) res" where
  "unload_plugin_by_name name s =
     bindR (locate_plugin_by_name name s) (\<lambda>located.
       case located of
         None \<Rightarrow> Inl NullDeref
       | Some p \<Rightarrow> bindR (unload_plugin p s) (unlink_plugin p (plugins s)))"

section \<open>Listing and loading\<close>

fun count_from :: "nat \<Rightarrow> nat option \<Rightarrow> ('h, 'x, 'f) chain \<Rightarrow> nat res" where
  "count_from fuel None s = Inr 0"
| "count_from 0 (Some p) s = Inl Diverges"
| "count_from (Suc fuel) (Some p) s =
     bindR (node_at p s) (\<lambda>n. bindR (count_from fuel (next_plugin n) s) (\<lambda>k. Inr (Suc k)))"

definition count_plugins :: "('h, 'x, 'f) chain \<Rightarrow> nat res" where
  "count_plugins s = count_from (loop_fuel s) (plugins s) s"

text \<open>The text for one plugin is written to a block of \<open>s\<close> bytes: first the library, then the alias.\<close>

definition list_plugin :: "('h, 'x) node \<Rightarrow> string res" where
  "list_plugin n =
     (let s = length (pl_library n) + (case pl_alias n of None \<Rightarrow> 0 | Some a \<Rightarrow> 1 + length a)
      in bindR (sprintf_arr s (pl_library n)) (\<lambda>text.
           case pl_alias n of None \<Rightarrow> Inr text | Some a \<Rightarrow> sprintf_arr s (text @ CHR '':'' # a)))"

fun list_from :: "nat \<Rightarrow> nat option \<Rightarrow> ('h, 'x, 'f) chain \<Rightarrow> string list res" where
  "list_from fuel None s = Inr []"
| "list_from 0 (Some p) s = Inl Diverges"
| "list_from (Suc fuel) (Some p) s =
     bindR (live_at p s) (\<lambda>n. bindR (list_plugin n) (\<lambda>t.
       bindR (list_from fuel (next_plugin n) s) (\<lambda>ts. Inr (t # ts))))"

definition list_plugins :: "('h, 'x, 'f) chain \<Rightarrow> string list res" where
  "list_plugins s = bindR (count_plugins s) (\<lambda>_. list_from (loop_fuel s) (plugins s) s)"

text \<open>The loop to the last node, whose \<open>next_plugin\<close> becomes the new one.\<close>

fun append_from ::
  "nat \<Rightarrow> nat \<Rightarrow> nat \<Rightarrow> ('h, 'x, 'f) chain \<Rightarrow> ('h, 'x, 'f) chain res" where
  "append_from 0 tmp new s = Inl Diverges"
| "append_from (Suc fuel) tmp new s =
     bindR (node_at tmp s) (\<lambda>n.
       case next_plugin n of
         None \<Rightarrow> Inr (set_node tmp (n\<lparr>next_plugin := Some new\<rparr>) s)
       | Some q \<Rightarrow> append_from fuel q new s)"

definition link_plugin :: "('h, 'x) node \<Rightarrow> ('h, 'x, 'f) chain \<Rightarrow> ('h, 'x, 'f) chain res" where
  "link_plugin n s =
     (let new = fresh s; s1 = s\<lparr>heap := (heap s)(new \<mapsto> n), fresh := Suc new\<rparr>
      in case plugins s1 of
           None \<Rightarrow> Inr (s1\<lparr>plugins := Some new\<rparr>)
         | Some tmp \<Rightarrow> append_from (loop_fuel s1) tmp new s1)"

text \<open>The command of a plugin that has one: \<open>char name[256]\<close> takes the path of the library,
  \<open>char short_name[16]\<close> the alias or, without one, the path again.\<close>

definition register_plugin_command ::
  "string \<Rightarrow> string option \<Rightarrow> 'h \<Rightarrow> 'f option \<Rightarrow> ('f, 'h) command list \<Rightarrow> ('f, 'h) command list res" where
  "register_plugin_command lib alias st pfn cs =
     (case pfn of
        None \<Rightarrow> Inr cs
      | Some f \<Rightarrow>
          bindR (sprintf_arr 256 lib) (\<lambda>name.
          bindR (sprintf_arr 16 (case alias of None \<Rightarrow> lib | Some a \<Rightarrow> a)) (\<lambda>short_name.
            Inr (set_command \<lparr>cmd_name = name, cmd_short_name = short_name, cmd_params_desc = [],
                   cmd_help = [], cmd_function = Some f, cmd_interactive_only = False,
                   cmd_state = Some st\<rparr> cs))))"

text \<open>\<open>load_plugin\<close> up to the lock: the new node, or nothing when the plugin is rejected.\<close>

definition prepare_plugin ::
  "(string \<Rightarrow> ('h, 'x, 'f) library option) \<Rightarrow> string \<Rightarrow> string option \<Rightarrow> string option \<Rightarrow>
   ('h, 'x, 'f) chain \<Rightarrow> (('h, 'x) node option \<times> ('h, 'x, 'f) chain) res" where
  "prepare_plugin dlopen lib options alias s =
     (case dlopen lib of
        None \<Rightarrow> Inr (None, s)
      | Some l \<Rightarrow>
         (case (open_plugin l, close_plugin l, ok_to_accept_data l, process_data l) of
            (Some pfn_open, Some pfn_close, Some pfn_ok, Some pfn_process) \<Rightarrow>
              bindR (pfn_open options (world s)) (\<lambda>(rc_plugin, st, x).
                if rc_plugin = PLUGIN_OPEN_FAIL then Inr (None, s\<lparr>world := x\<rparr>)
                else bindR (register_plugin_command lib alias st (plugin_command l) (s_commands s)) (\<lambda>cs.
                     Inr (Some \<lparr>pl_paused = False, pl_library = lib, pl_options = options, pl_alias = alias,
                            pfn_close_plugin = pfn_close, pfn_ok_to_accept_data = pfn_ok,
                            pfn_process_data = pfn_process, pl_state = st, next_plugin = None,
                            pl_loaded = True\<rparr>,
                          s\<lparr>world := x, s_commands := cs\<rparr>)))
          | _ \<Rightarrow> Inr (None, s)))"

definition load_plugin ::
  "(string \<Rightarrow> ('h, 'x, 'f) library option) \<Rightarrow> string \<Rightarrow> string option \<Rightarrow> string option \<Rightarrow>
   ('h, 'x, 'f) chain \<Rightarrow> (int \<times> ('h, 'x, 'f) chain) res" where
  "load_plugin dlopen lib options alias s =
     bindR (prepare_plugin dlopen lib options alias s) (\<lambda>(new_plugin, s1).
       case new_plugin of
         None \<Rightarrow> Inr (1, s1)
       | Some n \<Rightarrow> bindR (link_plugin n s1) (\<lambda>s'. Inr (0, s')))"

end
