(* ===== verification/Std_Map.thy ===== *)
theory Std_Map
imports Prelude "HOL-Library.List_Lexorder" "HOL-Library.Char_ord"
begin

text \<open>
  \<open>std::map\<close> as the resolver uses it: \<open>find\<close>, \<open>m[k] = v\<close>, \<open>erase\<close>, and iteration in the order of the
  keys (for \<open>std::string\<close> the lexicographic order of unsigned bytes). A map is the list of its
  entries in that order. The locale states what a client relies on; it is interpreted on the list.
\<close>

type_synonym ('k, 'v) std_map = "('k \<times> 'v) list"

fun map_find :: "('k::linorder, 'v) std_map \<Rightarrow> 'k \<Rightarrow> 'v option" where
  "map_find [] k = None"
| "map_find ((k', v) # m) k = (if k = k' then Some v else map_find m k)"

fun map_assign :: "'k::linorder \<Rightarrow> 'v \<Rightarrow> ('k, 'v) std_map \<Rightarrow> ('k, 'v) std_map" where
  "map_assign k v [] = [(k, v)]"
| "map_assign k v ((k', v') # m) =
     (if k < k' then (k, v) # (k', v') # m
      else if k = k' then (k, v) # m
      else (k', v') # map_assign k v m)"

fun map_erase :: "'k::linorder \<Rightarrow> ('k, 'v) std_map \<Rightarrow> ('k, 'v) std_map" where
  "map_erase k [] = []"
| "map_erase k ((k', v') # m) = (if k = k' then m else (k', v') # map_erase k m)"

definition map_ok :: "('k::linorder, 'v) std_map \<Rightarrow> bool" where
  "map_ok m \<longleftrightarrow> sorted_wrt (<) (map fst m)"

locale ordered_map =
  fixes ok :: "'m \<Rightarrow> bool"
    and empty :: 'm
    and lookup :: "'m \<Rightarrow> 'k::linorder \<Rightarrow> 'v option"
    and assign :: "'k \<Rightarrow> 'v \<Rightarrow> 'm \<Rightarrow> 'm"
    and erase :: "'k \<Rightarrow> 'm \<Rightarrow> 'm"
    and entries :: "'m \<Rightarrow> ('k \<times> 'v) list"
  assumes ok_empty: "ok empty"
    and ok_assign: "ok m \<Longrightarrow> ok (assign k v m)"
    and ok_erase: "ok m \<Longrightarrow> ok (erase k m)"
    and lookup_empty: "lookup empty k = None"
    and lookup_assign: "ok m \<Longrightarrow> lookup (assign k v m) k' = (if k' = k then Some v else lookup m k')"
    and lookup_erase: "ok m \<Longrightarrow> lookup (erase k m) k' = (if k' = k then None else lookup m k')"
    and entries_lookup: "ok m \<Longrightarrow> (k, v) \<in> set (entries m) \<longleftrightarrow> lookup m k = Some v"
    and entries_sorted: "ok m \<Longrightarrow> sorted_wrt (<) (map fst (entries m))"
begin

lemma erase_assign: "ok m \<Longrightarrow> lookup m k = None \<Longrightarrow> lookup (erase k (assign k v m)) = lookup m"
  by (auto simp: fun_eq_iff lookup_erase lookup_assign ok_assign)

text \<open>A loop over the entries that stops at the first key with a property stops at the least one.\<close>

lemma find_least:
  assumes "ok m" "find (\<lambda>e. P (fst e)) (entries m) = Some (k, v)"
  shows "P k \<and> lookup m k = Some v \<and> (\<forall>k'. P k' \<longrightarrow> lookup m k' \<noteq> None \<longrightarrow> k \<le> k')"
proof -
  obtain i where i: "i < length (entries m)" "entries m ! i = (k, v)" "P k"
    "\<forall>j<i. \<not> P (fst (entries m ! j))"
    using assms(2) by (auto simp: find_Some_iff) (metis fst_conv)
  have "(k, v) \<in> set (entries m)" using i by (metis nth_mem)
  moreover have "k \<le> k'" if k': "P k'" "lookup m k' = Some v'" for k' v'
  proof -
    have "(k', v') \<in> set (entries m)" using entries_lookup [OF assms(1)] k' by simp
    then obtain j where j: "j < length (entries m)" "entries m ! j = (k', v')"
      by (auto simp: in_set_conv_nth)
    then have "i \<le> j" using i(4) k' by (metis fst_conv not_le)
    then have "map fst (entries m) ! i \<le> map fst (entries m) ! j"
      using sorted_wrt_nth_less [OF entries_sorted [OF assms(1)], of i j] j(1)
      by (cases "i = j") auto
    with i j show ?thesis by simp
  qed
  ultimately show ?thesis using i(3) entries_lookup [OF assms(1)] by auto
qed

lemma find_none:
  assumes "ok m" "find (\<lambda>e. P (fst e)) (entries m) = None"
  shows "P k \<Longrightarrow> lookup m k = None"
  using assms entries_lookup [OF assms(1)] by (force simp: find_None_iff)

end

lemma map_find_map_of: "map_find m k = map_of m k"
  by (induction m) auto

lemma map_assign_keys: "set (map fst (map_assign k v m)) = insert k (set (map fst m))"
  by (induction k v m rule: map_assign.induct) auto

lemma map_erase_keys: "set (map fst (map_erase k m)) \<subseteq> set (map fst m)"
  by (induction k m rule: map_erase.induct) auto

lemma map_ok_Cons [simp]: "map_ok ((k, v) # m) \<longleftrightarrow> (\<forall>k'\<in>set (map fst m). k < k') \<and> map_ok m"
  by (simp add: map_ok_def)

lemma map_ok_assign: "map_ok m \<Longrightarrow> map_ok (map_assign k v m)"
proof (induction k v m rule: map_assign.induct)
  case (2 k v k' v' m)
  then show ?case using map_assign_keys [of k v m] by (auto simp del: set_map)
qed (simp add: map_ok_def)

lemma map_ok_erase: "map_ok m \<Longrightarrow> map_ok (map_erase k m)"
proof (induction k m rule: map_erase.induct)
  case (2 k k' v' m)
  then show ?case using map_erase_keys [of k m] by (auto simp del: set_map)
qed simp

lemma map_find_notin: "k \<notin> set (map fst m) \<Longrightarrow> map_find m k = None"
  by (induction m) auto

lemma map_find_erase:
  "map_ok m \<Longrightarrow> map_find (map_erase k m) k' = (if k' = k then None else map_find m k')"
proof (induction k m rule: map_erase.induct)
  case (2 k k1 v1 m)
  have "map_find m k1 = None" if "\<forall>k'\<in>set (map fst m). k1 < k'"
    using that by (intro map_find_notin) auto
  with 2 show ?case by auto
qed simp

interpretation std_map: ordered_map map_ok "[]" map_find map_assign map_erase "\<lambda>m. m"
proof
  show "map_ok []" by (simp add: map_ok_def)
next
  fix m :: "('a, 'b) std_map" and k v k'
  assume "map_ok m"
  then show "map_find (map_assign k v m) k' = (if k' = k then Some v else map_find m k')"
    by (induction k v m rule: map_assign.induct) auto
next
  fix m :: "('a, 'b) std_map" and k k'
  assume "map_ok m"
  then show "map_find (map_erase k m) k' = (if k' = k then None else map_find m k')"
    by (rule map_find_erase)
next
  fix m :: "('a, 'b) std_map" and k v
  assume m: "map_ok m"
  then have "distinct (map fst m)" by (simp add: map_ok_def strict_sorted_iff)
  then show "(k, v) \<in> set m \<longleftrightarrow> map_find m k = Some v"
    by (simp add: map_find_map_of)
qed (simp_all add: map_ok_assign map_ok_erase, simp_all add: map_ok_def)

end
