(* ===== verification/C_Stdio.thy ===== *)
theory C_Stdio
imports Prelude
begin

text \<open>
  \<open>fgets\<close> on a text stream: at most \<open>n - 1\<close> characters, up to and including the first newline. A loop
  \<open>while (fgets (buf, n, f))\<close> visits the pieces \<open>fgets_all n\<close> of what is left in the stream.
\<close>

definition newline :: char where "newline = CHR 0x0A"

definition fgets :: "nat \<Rightarrow> string \<Rightarrow> (string \<times> string) option" where
  "fgets n s =
     (if s = [] then None
      else let line = takeWhile (\<lambda>c. c \<noteq> newline) s;
               k = min (n - 1) (if length line < length s then Suc (length line) else length line)
           in Some (take k s, drop k s))"

lemma fgets_shrinks: "fgets n s = Some (l, s') \<Longrightarrow> 2 \<le> n \<Longrightarrow> length s' < length s"
  by (cases s) (auto simp: fgets_def Let_def split: if_splits)

function fgets_all :: "nat \<Rightarrow> string \<Rightarrow> string list" where
  "fgets_all n s =
     (if n < 2 then []
      else case fgets n s of None \<Rightarrow> [] | Some (l, s') \<Rightarrow> l # fgets_all n s')"
  by pat_completeness auto
termination
  by (relation "measure (\<lambda>(_, s). length s)") (auto dest: fgets_shrinks)

declare fgets_all.simps [simp del]

lemma fgets_length: "fgets n s = Some (l, s') \<Longrightarrow> length l \<le> n - 1"
  by (auto simp: fgets_def Let_def split: if_splits)

lemma fgets_all_None: "fgets n s = None \<Longrightarrow> fgets_all n s = []"
  by (subst fgets_all.simps) simp

lemma fgets_all_Some: "2 \<le> n \<Longrightarrow> fgets n s = Some (l, s') \<Longrightarrow> fgets_all n s = l # fgets_all n s'"
  by (subst fgets_all.simps) simp

lemma fgets_all_nonempty:
  assumes "s \<noteq> []" "2 \<le> n"
  shows "fgets_all n s \<noteq> []"
proof -
  obtain p where "fgets n s = Some p" using assms(1) by (simp add: fgets_def Let_def)
  with assms(2) show ?thesis by (cases p) (simp add: fgets_all_Some)
qed

lemma fgets_all_length: "2 \<le> n \<Longrightarrow> l \<in> set (fgets_all n s) \<Longrightarrow> length l \<le> n - 1"
proof (induction n s rule: fgets_all.induct)
  case (1 n s)
  show ?case
  proof (cases "fgets n s")
    case None
    with "1.prems" show ?thesis by (simp add: fgets_all_None)
  next
    case (Some p)
    obtain l1 s1 where p: "p = (l1, s1)" by (cases p)
    with Some "1.prems" have "l = l1 \<or> l \<in> set (fgets_all n s1)"
      by (simp add: fgets_all_Some)
    then show ?thesis
      using "1.IH" [OF _ Some p [symmetric]] "1.prems"(1) fgets_length [OF Some [unfolded p]] by auto
  qed
qed

lemma fgets_line:
  assumes "newline \<notin> set l" "length l < n - 1"
  shows "fgets n (l @ newline # s) = Some (l @ [newline], s)"
proof -
  have "takeWhile (\<lambda>c. c \<noteq> newline) (l @ newline # s) = l"
    using assms(1) by (auto simp: takeWhile_append)
  moreover have "min (n - 1) (Suc (length l)) = Suc (length l)" using assms(2) by simp
  ultimately show ?thesis by (simp add: fgets_def Let_def del: One_nat_def)
qed

text \<open>A text of lines that fit is read line by line.\<close>

lemma fgets_all_lines:
  "2 \<le> n \<Longrightarrow> \<forall>l\<in>set ls. newline \<notin> set l \<and> length l < n - 1 \<Longrightarrow>
    fgets_all n (concat (map (\<lambda>l. l @ [newline]) ls)) = map (\<lambda>l. l @ [newline]) ls"
proof (induction ls)
  case Nil
  then show ?case by (simp add: fgets_all_None fgets_def)
next
  case (Cons l ls)
  then show ?case
    by (simp add: fgets_all_Some fgets_line)
qed

end
