(* ===== verification/Resolver.thy ===== *)
theory Resolver
imports Std_Map C_Stdio Monitor_Record
begin

text \<open>
  \<open>mq_listener/resolver.cpp\<close>: which block device a file is on. \<open>capture_device_info\<close> reads the output
  of \<open>lsblk -P\<close> into a map from mount points to devices; \<open>register_file\<close>, \<open>deregister_file\<close> and
  \<open>resolve_file\<close> keep, for the records of opened and closed files, a map from descriptors to devices.
\<close>

section \<open>The globals\<close>

record resolver =
  fs_mount_path_to_dev :: "(string, string) std_map"
  root_fs_dev :: string
  fd_to_dev :: "(int, string) std_map"

definition initial_resolver :: resolver where
  "initial_resolver = \<lparr>fs_mount_path_to_dev = [], root_fs_dev = [], fd_to_dev = []\<rparr>"

section \<open>parse\_device\_fields\<close>

definition LEN_DEVICE_NAME :: nat where "LEN_DEVICE_NAME = 40"
definition LEN_MAJ_MIN :: nat where "LEN_MAJ_MIN = 10"
definition LEN_DEVICE_SIZE :: nat where "LEN_DEVICE_SIZE = 10"
definition LEN_DEVICE_TYPE :: nat where "LEN_DEVICE_TYPE = 40"
definition LEN_MOUNT_POINT :: nat where "LEN_MOUNT_POINT = 256"

lemmas device_lengths = LEN_DEVICE_NAME_def LEN_MAJ_MIN_def LEN_DEVICE_SIZE_def LEN_DEVICE_TYPE_def
  LEN_MOUNT_POINT_def

record device_config =
  dc_device_name :: string
  dc_maj_min :: string
  dc_rm :: char
  dc_device_size :: string
  dc_ro :: char
  dc_device_type :: string
  dc_mount_point :: string

definition zero_device_config :: device_config where
  "zero_device_config = \<lparr>dc_device_name = [], dc_maj_min = [], dc_rm = NUL, dc_device_size = [],
     dc_ro = NUL, dc_device_type = [], dc_mount_point = []\<rparr>"

definition quote :: char where "quote = CHR 0x22"

text \<open>What follows the opening quote behind the \<open>=\<close> of a token, and the value between the quotes; the
  loop skips a token without them.\<close>

definition quoted_value :: "string \<Rightarrow> (string \<times> string) option" where
  "quoted_value token =
     (case strchr token CHR ''='' of None \<Rightarrow> None
      | Some pos_equal \<Rightarrow>
         (case strchr (tl pos_equal) quote of None \<Rightarrow> None
          | Some pos_open_quote \<Rightarrow>
             let pos_field_value = tl pos_open_quote
             in case strchr pos_field_value quote of None \<Rightarrow> None
                | Some _ \<Rightarrow> Some (pos_field_value, takeWhile (\<lambda>c. c \<noteq> quote) pos_field_value)))"

text \<open>The \<open>switch\<close> on the number of values found so far: \<open>memcpy\<close> of at most the length of the array.
  \<open>rm\<close> and \<open>ro\<close> take the character after the opening quote.\<close>

definition set_device_field :: "nat \<Rightarrow> string \<times> string \<Rightarrow> device_config \<Rightarrow> device_config" where
  "set_device_field j fv dc =
     (case fv of (pos_field_value, v) \<Rightarrow>
        if j = 0 then dc\<lparr>dc_device_name := take LEN_DEVICE_NAME v\<rparr>
        else if j = 1 then dc\<lparr>dc_maj_min := take LEN_MAJ_MIN v\<rparr>
        else if j = 2 then dc\<lparr>dc_rm := hd pos_field_value\<rparr>
        else if j = 3 then dc\<lparr>dc_device_size := take LEN_DEVICE_SIZE v\<rparr>
        else if j = 4 then dc\<lparr>dc_ro := hd pos_field_value\<rparr>
        else if j = 5 then dc\<lparr>dc_device_type := take LEN_DEVICE_TYPE v\<rparr>
        else if j = 6 then dc\<lparr>dc_mount_point := take LEN_MOUNT_POINT v\<rparr>
        else dc)"

definition parse_device_token :: "string \<Rightarrow> nat \<times> device_config \<Rightarrow> nat \<times> device_config" where
  "parse_device_token token jdc =
     (case quoted_value token of None \<Rightarrow> jdc
      | Some fv \<Rightarrow> (Suc (fst jdc), set_device_field (fst jdc) fv (snd jdc)))"

definition parse_device_fields :: "string \<Rightarrow> nat \<times> device_config" where
  "parse_device_fields device_fields =
     fold parse_device_token (strtok_all '' '' device_fields) (0, zero_device_config)"

section \<open>capture\_device\_info\<close>

text \<open>The struct consists of \<open>char\<close>s only, so it has no padding: a name that fills its array is read on
  into the next field. \<open>dc_string k dc\<close> is the string that starts at byte \<open>k\<close> of the struct.\<close>

definition pad :: "nat \<Rightarrow> string \<Rightarrow> string" where
  "pad n a = a @ replicate (n - length a) NUL"

definition device_config_bytes :: "device_config \<Rightarrow> string" where
  "device_config_bytes dc =
     pad LEN_DEVICE_NAME (dc_device_name dc) @ pad LEN_MAJ_MIN (dc_maj_min dc) @ [dc_rm dc] @
     pad LEN_DEVICE_SIZE (dc_device_size dc) @ [dc_ro dc] @ pad LEN_DEVICE_TYPE (dc_device_type dc) @
     pad LEN_MOUNT_POINT (dc_mount_point dc)"

definition device_name_offset :: nat where "device_name_offset = 0"
definition mount_point_offset :: nat where
  "mount_point_offset = LEN_DEVICE_NAME + LEN_MAJ_MIN + 1 + LEN_DEVICE_SIZE + 1 + LEN_DEVICE_TYPE"

definition dc_string :: "nat \<Rightarrow> device_config \<Rightarrow> string res" where
  "dc_string k dc =
     (let bytes = drop k (device_config_bytes dc)
      in if NUL \<in> set bytes then Inr (takeWhile (\<lambda>c. c \<noteq> NUL) bytes) else Inl OutOfBounds)"

definition capture_device_line :: "string \<Rightarrow> resolver \<Rightarrow> resolver res" where
  "capture_device_line path s =
     (case parse_device_fields path of (fields_parsed, dc) \<Rightarrow>
        if fields_parsed = 7
        then bindR (dc_string mount_point_offset dc) (\<lambda>mount_point.
             bindR (dc_string device_name_offset dc) (\<lambda>device_name.
               Inr (if mount_point = ''/'' then s\<lparr>root_fs_dev := device_name\<rparr>
                    else s\<lparr>fs_mount_path_to_dev :=
                           map_assign mount_point device_name (fs_mount_path_to_dev s)\<rparr>)))
        else Inr s)"

primrec capture_device_lines :: "string list \<Rightarrow> resolver \<Rightarrow> resolver res" where
  "capture_device_lines [] s = Inr s"
| "capture_device_lines (l # ls) s = bindR (capture_device_line l s) (capture_device_lines ls)"

text \<open>\<open>lsblk\<close> is what \<open>popen ("lsblk -P", "r")\<close> gives to read, \<open>None\<close> if it fails. The call
  \<open>fgets (path, sizeof (path) - 1, f)\<close> takes at most 254 characters.\<close>

definition capture_device_info :: "string option \<Rightarrow> resolver \<Rightarrow> resolver res" where
  "capture_device_info lsblk s =
     (case lsblk of None \<Rightarrow> Inr s
      | Some out \<Rightarrow> capture_device_lines (fgets_all (256 - 1) out) s)"

section \<open>path\_to\_dev and the descriptor table\<close>

definition path_to_dev :: "string \<Rightarrow> resolver \<Rightarrow> string" where
  "path_to_dev path s =
     (case find (\<lambda>e. prefix (fst e) path) (fs_mount_path_to_dev s) of
        Some e \<Rightarrow> snd e | None \<Rightarrow> root_fs_dev s)"

text \<open>A path that fills \<open>s1\<close> without a NUL cannot be read as a string.\<close>

definition register_file :: "monitor_record \<Rightarrow> resolver \<Rightarrow> resolver res" where
  "register_file rec s =
     (if mr_fd rec \<noteq> FD_NONE
      then bindR (arr_string PATH_MAX (mr_s1 rec)) (\<lambda>s1.
        if length s1 > 0
        then let dev_id = path_to_dev s1 s
             in Inr (s\<lparr>fd_to_dev := map_assign (mr_fd rec) dev_id (fd_to_dev s)\<rparr>)
        else Inr s)
      else Inr s)"

definition deregister_file :: "monitor_record \<Rightarrow> resolver \<Rightarrow> resolver" where
  "deregister_file rec s =
     (if mr_fd rec \<noteq> FD_NONE
      then case map_find (fd_to_dev s) (mr_fd rec) of
             Some _ \<Rightarrow> s\<lparr>fd_to_dev := map_erase (mr_fd rec) (fd_to_dev s)\<rparr>
           | None \<Rightarrow> s
      else s)"

definition resolve_file :: "monitor_record \<Rightarrow> resolver \<Rightarrow> monitor_record" where
  "resolve_file rec s =
     (if mr_fd rec \<noteq> FD_NONE
      then case map_find (fd_to_dev s) (mr_fd rec) of
             Some dev_id \<Rightarrow> rec\<lparr>mr_device := strncpy dev_id DEVICE_LEN\<rparr>
           | None \<Rightarrow> rec
      else rec)"

section \<open>Parsing what lsblk prints\<close>

definition quoted :: "string \<Rightarrow> string \<Rightarrow> string" where
  "quoted name v = name @ [CHR ''='', quote] @ v @ [quote]"

text \<open>The line \<open>lsblk -P\<close> prints for a device.\<close>

definition device_tokens :: "device_config \<Rightarrow> string list" where
  "device_tokens dc =
     [quoted ''NAME'' (dc_device_name dc), quoted ''MAJ:MIN'' (dc_maj_min dc), quoted ''RM'' [dc_rm dc],
      quoted ''SIZE'' (dc_device_size dc), quoted ''RO'' [dc_ro dc], quoted ''TYPE'' (dc_device_type dc),
      quoted ''MOUNTPOINT'' (dc_mount_point dc)]"

definition print_device :: "device_config \<Rightarrow> string" where
  "print_device dc = join CHR '' '' (device_tokens dc)"

text \<open>A value the parser can read: no blank, quote, newline or NUL in it.\<close>

definition plain :: "string \<Rightarrow> bool" where
  "plain v \<longleftrightarrow> CHR '' '' \<notin> set v \<and> quote \<notin> set v \<and> newline \<notin> set v \<and> NUL \<notin> set v"

definition device_ok :: "device_config \<Rightarrow> bool" where
  "device_ok dc \<longleftrightarrow>
     plain (dc_device_name dc) \<and> plain (dc_maj_min dc) \<and> plain [dc_rm dc] \<and> plain (dc_device_size dc) \<and>
     plain [dc_ro dc] \<and> plain (dc_device_type dc) \<and> plain (dc_mount_point dc) \<and>
     length (dc_device_name dc) < LEN_DEVICE_NAME \<and> length (dc_maj_min dc) \<le> LEN_MAJ_MIN \<and>
     length (dc_device_size dc) \<le> LEN_DEVICE_SIZE \<and> length (dc_device_type dc) \<le> LEN_DEVICE_TYPE \<and>
     length (print_device dc) < 254"

lemma strchr_skip: "c \<notin> set a \<Longrightarrow> strchr (a @ s) c = strchr s c"
  by (induction a) (auto simp: strchr_def)

lemma takeWhile_until [simp]: "x \<notin> set v \<Longrightarrow> takeWhile (\<lambda>c. c \<noteq> x) (v @ x # t) = v"
  by (induction v) auto

lemma quoted_value_quoted:
  assumes "CHR ''='' \<notin> set name" "quote \<notin> set v"
  shows "quoted_value (quoted name v @ t) = Some (v @ quote # t, v)"
  using assms by (simp add: quoted_value_def quoted_def strchr_skip)

lemma quoted_no_blank: "CHR '' '' \<notin> set name \<Longrightarrow> plain v \<Longrightarrow> CHR '' '' \<notin> set (quoted name v)"
  by (auto simp: quoted_def plain_def quote_def)

lemma join_snoc_append: "join c (ts @ [t]) @ s = join c (ts @ [t @ s])"
  by (induction c ts rule: join.induct) auto

text \<open>The newline belongs to the last token.\<close>

lemma strtok_all_device:
  assumes "device_ok dc"
  shows "strtok_all '' '' (print_device dc @ [newline]) =
    butlast (device_tokens dc) @ [quoted ''MOUNTPOINT'' (dc_mount_point dc) @ [newline]]"
proof -
  have "print_device dc @ [newline] =
      join CHR '' '' (butlast (device_tokens dc) @ [quoted ''MOUNTPOINT'' (dc_mount_point dc) @ [newline]])"
    by (simp add: print_device_def device_tokens_def)
  moreover have "newline \<noteq> CHR '' ''" by (simp add: newline_def)
  ultimately show ?thesis
    using assms
    by (simp only:, intro strtok_all_join)
      (auto simp: device_tokens_def device_ok_def quoted_no_blank, auto simp: quoted_def)
qed

lemma device_ok_mount: "device_ok dc \<Longrightarrow> length (dc_mount_point dc) < LEN_MOUNT_POINT"
  by (simp add: device_ok_def print_device_def device_tokens_def quoted_def device_lengths)

lemma parse_print_device:
  assumes "device_ok dc"
  shows "parse_device_fields (print_device dc @ [newline]) = (7, dc)"
  using assms device_ok_mount [OF assms]
  by (cases dc)
    (simp add: parse_device_fields_def strtok_all_device device_tokens_def parse_device_token_def
      quoted_value_quoted quoted_value_quoted [where t = "[]", simplified] device_ok_def plain_def set_device_field_def zero_device_config_def)

section \<open>Reading the struct's strings\<close>

lemma length_pad [simp]: "length a \<le> n \<Longrightarrow> length (pad n a) = n"
  by (simp add: pad_def)

definition fits_device :: "device_config \<Rightarrow> bool" where
  "fits_device dc \<longleftrightarrow>
     length (dc_device_name dc) \<le> LEN_DEVICE_NAME \<and> length (dc_maj_min dc) \<le> LEN_MAJ_MIN \<and>
     length (dc_device_size dc) \<le> LEN_DEVICE_SIZE \<and> length (dc_device_type dc) \<le> LEN_DEVICE_TYPE \<and>
     length (dc_mount_point dc) < LEN_MOUNT_POINT"

lemma takeWhile_pad:
  "length a < n \<Longrightarrow> NUL \<notin> set a \<Longrightarrow>
    NUL \<in> set (pad n a) \<and> takeWhile (\<lambda>c. c \<noteq> NUL) (pad n a @ r) = a"
  by (cases "n - length a") (auto simp: pad_def takeWhile_append)

lemma drop_mount_point:
  assumes "fits_device dc"
  shows "drop mount_point_offset (device_config_bytes dc) = pad LEN_MOUNT_POINT (dc_mount_point dc)"
  using assms by (simp add: device_config_bytes_def mount_point_offset_def fits_device_def device_lengths)

text \<open>Both strings can be read from any struct the parser fills, because the last array keeps a NUL.\<close>

lemma dc_string_defined:
  assumes "fits_device dc" "k \<le> mount_point_offset"
  shows "defined (dc_string k dc)"
proof -
  have "NUL \<in> set (pad LEN_MOUNT_POINT (dc_mount_point dc))"
    using assms(1) by (cases "LEN_MOUNT_POINT - length (dc_mount_point dc)") (auto simp: pad_def fits_device_def)
  then have "NUL \<in> set (drop mount_point_offset (device_config_bytes dc))"
    by (simp add: drop_mount_point [OF assms(1)])
  then have "NUL \<in> set (drop k (device_config_bytes dc))"
    using set_drop_subset_set_drop [OF assms(2), of "device_config_bytes dc"] by blast
  then show ?thesis by (simp add: dc_string_def Let_def)
qed

lemma dc_strings_ok:
  assumes "device_ok dc"
  shows "dc_string mount_point_offset dc = Inr (dc_mount_point dc)"
    "dc_string device_name_offset dc = Inr (dc_device_name dc)"
proof -
  have fits: "fits_device dc"
    using assms device_ok_mount [OF assms] by (simp add: fits_device_def device_ok_def device_lengths)
  show "dc_string mount_point_offset dc = Inr (dc_mount_point dc)"
    using takeWhile_pad [of "dc_mount_point dc" LEN_MOUNT_POINT "[]"] assms fits
    by (simp add: dc_string_def drop_mount_point device_ok_def plain_def fits_device_def)
  show "dc_string device_name_offset dc = Inr (dc_device_name dc)"
    using takeWhile_pad [of "dc_device_name dc" LEN_DEVICE_NAME] assms
    by (simp add: dc_string_def device_config_bytes_def device_name_offset_def device_ok_def plain_def Let_def)
qed

lemma fits_set_device_field:
  "fits_device dc \<Longrightarrow> length v < LEN_MOUNT_POINT \<Longrightarrow> fits_device (set_device_field j (p, v) dc)"
  by (auto simp: fits_device_def set_device_field_def)

lemma strchr_length: "strchr s c = Some t \<Longrightarrow> length t \<le> length s"
  by (auto simp: strchr_def split: list.splits)
    (metis length_Cons length_dropWhile_le)

lemma quoted_value_length: "quoted_value t = Some (p, v) \<Longrightarrow> length v \<le> length t"
proof -
  assume "quoted_value t = Some (p, v)"
  then obtain e o' where 1: "strchr t CHR ''='' = Some e" "strchr (tl e) quote = Some o'" "p = tl o'"
    "v = takeWhile (\<lambda>c. c \<noteq> quote) p"
    by (auto simp: quoted_value_def Let_def split: option.splits)
  then have "length v \<le> length p" "length p \<le> length o'" "length o' \<le> length (tl e)"
    "length (tl e) \<le> length e" "length e \<le> length t"
    using length_takeWhile_le [of "\<lambda>c. c \<noteq> quote" p] by (auto dest: strchr_length)
  then show ?thesis by linarith
qed

lemma fits_parse_tokens:
  "\<forall>t\<in>set ts. length t < LEN_MOUNT_POINT \<Longrightarrow> fits_device (snd jdc) \<Longrightarrow>
    fits_device (snd (fold parse_device_token ts jdc))"
proof (induction ts arbitrary: jdc)
  case (Cons t ts)
  have "fits_device (snd (parse_device_token t jdc))"
  proof (cases "quoted_value t")
    case (Some pv)
    then have "length (snd pv) < LEN_MOUNT_POINT"
      using quoted_value_length [of t "fst pv" "snd pv"] Cons.prems by simp
    with Some Cons.prems show ?thesis
      using fits_set_device_field [of "snd jdc" "snd pv" "fst jdc" "fst pv"]
      by (simp add: parse_device_token_def)
  qed (use Cons.prems in \<open>simp add: parse_device_token_def\<close>)
  with Cons show ?case by simp
qed simp

lemma fits_parse_device_fields:
  assumes "length l < LEN_MOUNT_POINT"
  shows "fits_device (snd (parse_device_fields l))"
  unfolding parse_device_fields_def
proof (rule fits_parse_tokens)
  show "\<forall>t\<in>set (strtok_all '' '' l). length t < LEN_MOUNT_POINT"
    using assms by (auto dest!: strtok_all_length)
qed (simp add: fits_device_def zero_device_config_def device_lengths)

section \<open>The invariant of the maps\<close>

definition resolver_ok :: "resolver \<Rightarrow> bool" where
  "resolver_ok s \<longleftrightarrow> map_ok (fs_mount_path_to_dev s) \<and> map_ok (fd_to_dev s)"

lemma initial_resolver_ok: "resolver_ok initial_resolver"
  by (simp add: resolver_ok_def initial_resolver_def std_map.ok_empty)

lemma capture_device_line_ok:
  assumes "resolver_ok s" "length l < LEN_MOUNT_POINT"
  shows "\<exists>s'. capture_device_line l s = Inr s' \<and> resolver_ok s' \<and> fd_to_dev s' = fd_to_dev s"
proof -
  obtain n dc where p: "parse_device_fields l = (n, dc)" by fastforce
  have fits: "fits_device dc" using fits_parse_device_fields [OF assms(2)] by (simp add: p)
  obtain mp dn where "dc_string mount_point_offset dc = Inr mp" "dc_string device_name_offset dc = Inr dn"
    using dc_string_defined [OF fits order_refl] dc_string_defined [OF fits, of device_name_offset]
    by (auto simp: defined_iff device_name_offset_def)
  with assms(1) show ?thesis
    by (auto simp: capture_device_line_def p resolver_ok_def std_map.ok_assign)
qed

lemma capture_device_lines_ok:
  "resolver_ok s \<Longrightarrow> \<forall>l\<in>set ls. length l < LEN_MOUNT_POINT \<Longrightarrow>
    \<exists>s'. capture_device_lines ls s = Inr s' \<and> resolver_ok s' \<and> fd_to_dev s' = fd_to_dev s"
proof (induction ls arbitrary: s)
  case (Cons l ls)
  then obtain s1 where s1: "capture_device_line l s = Inr s1" "resolver_ok s1" "fd_to_dev s1 = fd_to_dev s"
    using capture_device_line_ok [of s l] by auto
  with Cons.IH [of s1] Cons.prems show ?case by auto
qed simp

lemma capture_device_info_ok:
  assumes "resolver_ok s"
  shows "\<exists>s'. capture_device_info lsblk s = Inr s' \<and> resolver_ok s' \<and> fd_to_dev s' = fd_to_dev s"
proof (cases lsblk)
  case (Some out)
  have "\<forall>l\<in>set (fgets_all (256 - 1) out). length l < LEN_MOUNT_POINT"
    using fgets_all_length [of 255 _ out] by (fastforce simp: device_lengths)
  with assms Some show ?thesis by (simp add: capture_device_info_def capture_device_lines_ok)
qed (use assms in \<open>simp add: capture_device_info_def\<close>)

section \<open>A printed table of devices\<close>

definition add_device :: "device_config \<Rightarrow> resolver \<Rightarrow> resolver" where
  "add_device dc s =
     (if dc_mount_point dc = ''/'' then s\<lparr>root_fs_dev := dc_device_name dc\<rparr>
      else s\<lparr>fs_mount_path_to_dev :=
             map_assign (dc_mount_point dc) (dc_device_name dc) (fs_mount_path_to_dev s)\<rparr>)"

lemma capture_printed_line:
  "device_ok dc \<Longrightarrow> capture_device_line (print_device dc @ [newline]) s = Inr (add_device dc s)"
  by (simp add: capture_device_line_def parse_print_device dc_strings_ok add_device_def)

lemma capture_printed_lines:
  "\<forall>dc\<in>set dcs. device_ok dc \<Longrightarrow>
    capture_device_lines (map (\<lambda>dc. print_device dc @ [newline]) dcs) s = Inr (fold add_device dcs s)"
  by (induction dcs arbitrary: s) (simp_all add: capture_printed_line)

lemma print_device_no_newline: "device_ok dc \<Longrightarrow> newline \<notin> set (print_device dc)"
  by (auto simp: device_ok_def plain_def print_device_def device_tokens_def quoted_def newline_def quote_def)

lemma capture_printed:
  assumes "\<forall>dc\<in>set dcs. device_ok dc"
  shows "capture_device_info (Some (concat (map (\<lambda>dc. print_device dc @ [newline]) dcs))) s =
    Inr (fold add_device dcs s)"
proof -
  have "fgets_all 255 (concat (map (\<lambda>l. l @ [newline]) (map print_device dcs))) =
      map (\<lambda>l. l @ [newline]) (map print_device dcs)"
    using assms by (intro fgets_all_lines) (auto simp: print_device_no_newline device_ok_def)
  then show ?thesis
    using capture_printed_lines [OF assms, of s] by (simp add: capture_device_info_def o_def)
qed

lemma fold_add_device:
  assumes "resolver_ok s"
  shows "resolver_ok (fold add_device dcs s) \<and>
    map_find (fs_mount_path_to_dev (fold add_device dcs s)) =
      map_find (fs_mount_path_to_dev s) ++
      map_of (rev (map (\<lambda>dc. (dc_mount_point dc, dc_device_name dc)) (filter (\<lambda>dc. dc_mount_point dc \<noteq> ''/'') dcs)))"
  using assms
proof (induction dcs arbitrary: s)
  case (Cons dc dcs)
  have ok: "resolver_ok (add_device dc s)"
    using Cons.prems by (simp add: resolver_ok_def add_device_def std_map.ok_assign)
  have "map_find (fs_mount_path_to_dev (add_device dc s)) =
      (if dc_mount_point dc \<noteq> ''/'' then (map_find (fs_mount_path_to_dev s))(dc_mount_point dc \<mapsto> dc_device_name dc)
       else map_find (fs_mount_path_to_dev s))"
    using Cons.prems by (auto simp: resolver_ok_def add_device_def std_map.lookup_assign fun_eq_iff)
  with Cons.IH [OF ok] show ?case by simp
qed simp

lemma fold_add_device_root:
  "root_fs_dev (fold add_device dcs s) = last (root_fs_dev s # map dc_device_name (filter (\<lambda>dc. dc_mount_point dc = ''/'') dcs))
    \<and> fd_to_dev (fold add_device dcs s) = fd_to_dev s"
  by (induction dcs arbitrary: s) (simp_all add: add_device_def)

section \<open>The device of a path\<close>

lemma prefix_le: "prefix a b \<Longrightarrow> a \<le> b" for a b :: string
proof (induction a arbitrary: b)
  case Nil
  show ?case by (cases b) auto
next
  case (Cons c a)
  then show ?case by (cases b) auto
qed

text \<open>The keys are visited in their order, and of two prefixes of a path the shorter one comes first.\<close>

lemma path_to_dev_shortest:
  assumes "resolver_ok s" "map_find (fs_mount_path_to_dev s) mp = Some dev" "prefix mp path"
    and "\<forall>mp'. map_find (fs_mount_path_to_dev s) mp' \<noteq> None \<longrightarrow> prefix mp' path \<longrightarrow> length mp \<le> length mp'"
  shows "path_to_dev path s = dev"
proof -
  have ok: "map_ok (fs_mount_path_to_dev s)" using assms(1) by (simp add: resolver_ok_def)
  have "find (\<lambda>e. prefix (fst e) path) (fs_mount_path_to_dev s) \<noteq> None"
  proof
    assume n: "find (\<lambda>e. prefix (fst e) path) (fs_mount_path_to_dev s) = None"
    have "map_find (fs_mount_path_to_dev s) mp = None"
      by (rule std_map.find_none [OF ok, of "\<lambda>k. prefix k path", OF n]) (rule assms(3))
    with assms(2) show False by simp
  qed
  then obtain k v where f: "find (\<lambda>e. prefix (fst e) path) (fs_mount_path_to_dev s) = Some (k, v)"
    by (metis not_Some_eq surj_pair)
  from std_map.find_least [OF ok, of "\<lambda>k. prefix k path", OF f]
  have k: "prefix k path" "map_find (fs_mount_path_to_dev s) k = Some v" "k \<le> mp"
    using assms(2,3) by auto
  then have "length mp \<le> length k" using assms(4) by auto
  then have "prefix mp k" using k(1) assms(3) by (meson prefix_length_prefix)
  then have "mp \<le> k" by (rule prefix_le)
  with k(3) have "k = mp" by simp
  with k f assms(2) show ?thesis by (simp add: path_to_dev_def)
qed

lemma path_to_dev_root:
  assumes "resolver_ok s" "\<forall>mp. map_find (fs_mount_path_to_dev s) mp \<noteq> None \<longrightarrow> \<not> prefix mp path"
  shows "path_to_dev path s = root_fs_dev s"
proof (cases "find (\<lambda>e. prefix (fst e) path) (fs_mount_path_to_dev s)")
  case (Some e)
  have ok: "map_ok (fs_mount_path_to_dev s)" using assms(1) by (simp add: resolver_ok_def)
  from std_map.find_least [OF ok, of "\<lambda>k. prefix k path" "fst e" "snd e"] Some assms(2) show ?thesis by auto
qed (simp add: path_to_dev_def)

section \<open>The descriptor table\<close>

lemma register_file_ok:
  assumes "resolver_ok s" "length (mr_s1 rec) < PATH_MAX"
  shows "\<exists>s'. register_file rec s = Inr s' \<and> resolver_ok s' \<and>
    fs_mount_path_to_dev s' = fs_mount_path_to_dev s \<and> root_fs_dev s' = root_fs_dev s \<and>
    map_find (fd_to_dev s') = (if mr_fd rec \<noteq> FD_NONE \<and> mr_s1 rec \<noteq> []
      then (map_find (fd_to_dev s))(mr_fd rec \<mapsto> path_to_dev (mr_s1 rec) s) else map_find (fd_to_dev s))"
  using assms
  by (auto simp: register_file_def resolver_ok_def std_map.ok_assign std_map.lookup_assign fun_eq_iff)

lemma deregister_file_ok:
  assumes "resolver_ok s"
  shows "resolver_ok (deregister_file rec s) \<and>
    fs_mount_path_to_dev (deregister_file rec s) = fs_mount_path_to_dev s \<and>
    root_fs_dev (deregister_file rec s) = root_fs_dev s \<and>
    map_find (fd_to_dev (deregister_file rec s)) = (if mr_fd rec \<noteq> FD_NONE
      then (map_find (fd_to_dev s))(mr_fd rec := None) else map_find (fd_to_dev s))"
  using assms
  by (auto simp: deregister_file_def resolver_ok_def std_map.ok_erase std_map.lookup_erase fun_eq_iff
      split: option.splits)

lemma resolve_file_eq:
  "resolve_file rec s =
    (if mr_fd rec = FD_NONE then rec
     else case map_find (fd_to_dev s) (mr_fd rec) of None \<Rightarrow> rec
          | Some dev \<Rightarrow> rec\<lparr>mr_device := take DEVICE_LEN dev\<rparr>)"
  by (simp add: resolve_file_def strncpy_def split: option.splits)

end
