(* ===== verification/Listener.thy ===== *)
theory Listener
imports Plugin_Chain Resolver
begin

text \<open>
  \<open>mq_listener/mq_listener.c\<close>: the listener's commands, its \<open>main\<close> up to the input loop, and one round
  of that loop.

  The function pointers of the commands are a datatype; running a command by name can run commands
  again, through \<open>c_config\<close>, which feeds the lines of a file to \<open>parse_command\<close>. \<open>run_listener S d\<close> is
  \<open>run_command\<close> with room for \<open>d\<close> nested calls on the stack. The system is a record of parameters on
  the world \<open>'x\<close> of the plugins. Messages on the terminal are left out, but for the help text.
\<close>

section \<open>State and system\<close>

datatype 'p fun_ptr =
    C_load_plugin | C_unload_plugin | C_reorder_plugins | C_list_plugins | C_quit | C_mq_path
  | C_config | C_help | Plugin_command 'p

record ('h, 'x, 'p) listener =
  l_chain :: "('h, 'x, 'p fun_ptr) chain"
  l_resolver :: resolver
  show_runtime_commands :: bool
  message_queue_key :: int
  message_queue_id :: int
  l_stdout :: "string list"

definition initial_listener :: "'x \<Rightarrow> ('h, 'x, 'p) listener" where
  "initial_listener x = \<lparr>l_chain = initial_chain x, l_resolver = initial_resolver,
     show_runtime_commands = False, message_queue_key = - 1, message_queue_id = - 1, l_stdout = []\<rparr>"

record ('h, 'x, 'p) system =
  sys_dlopen :: "string \<Rightarrow> ('h, 'x, 'p fun_ptr) library option"
  sys_plugin_command :: "'p \<Rightarrow> string list \<Rightarrow> 'h option \<Rightarrow> 'x \<Rightarrow> (int \<times> 'x) res"
  sys_ftok :: "string \<Rightarrow> int \<Rightarrow> int"
  sys_msgget :: "int \<Rightarrow> int \<Rightarrow> int"
  sys_fopen :: "string \<Rightarrow> string option"
  sys_lsblk :: "string option"
  sys_hostname :: string
  sys_garbage :: int   \<comment> \<open>the result of a function that ends without \<open>return\<close>\<close>

definition MESSAGE_QUEUE_PROJECT_ID :: int where "MESSAGE_QUEUE_PROJECT_ID = 109"   \<comment> \<open>\<open>'m'\<close>\<close>
definition mq_listener_flags :: int where "mq_listener_flags = 948"   \<comment> \<open>\<open>0664 | IPC_CREAT\<close>\<close>

definition on_chain ::
  "(('h, 'x, 'p fun_ptr) chain \<Rightarrow> (int \<times> ('h, 'x, 'p fun_ptr) chain) res) \<Rightarrow>
   ('h, 'x, 'p) listener \<Rightarrow> (int \<times> ('h, 'x, 'p) listener) res" where
  "on_chain f w = bindR (f (l_chain w)) (\<lambda>(rc, s). Inr (rc, w\<lparr>l_chain := s\<rparr>))"

section \<open>The commands\<close>

text \<open>\<open>args\<close> ends with a NULL, so \<open>args[1]\<close> exists when \<open>args[0]\<close> does.\<close>

definition c_mq_path ::
  "('h, 'x, 'p) system \<Rightarrow> string list \<Rightarrow> ('h, 'x, 'p) listener \<Rightarrow> (int \<times> ('h, 'x, 'p) listener) res" where
  "c_mq_path S args w =
     (case args of
        [] \<Rightarrow> Inl UninitRead
      | message_queue_path # _ \<Rightarrow>
          let key = sys_ftok S message_queue_path MESSAGE_QUEUE_PROJECT_ID;
              w1 = w\<lparr>message_queue_key := key\<rparr>
          in if key = - 1 then Inr (1, w1)
             else let qid = sys_msgget S key mq_listener_flags; w2 = w1\<lparr>message_queue_id := qid\<rparr>
                  in Inr (if qid = - 1 then 1 else 0, w2))"

text \<open>\<open><library>[:<alias>]\<close>: the library is what precedes the first colon.\<close>

definition split_library :: "string \<Rightarrow> string \<times> string option" where
  "split_library arg =
     (let plugin_library = takeWhile (\<lambda>c. c \<noteq> CHR '':'') arg
      in case strstr arg '':'' of
           None \<Rightarrow> (plugin_library, None)
         | Some rest \<Rightarrow> (plugin_library, if tl rest = [] then None else Some (tl rest)))"

definition c_load_plugin ::
  "('h, 'x, 'p) system \<Rightarrow> string list \<Rightarrow> ('h, 'x, 'p) listener \<Rightarrow> (int \<times> ('h, 'x, 'p) listener) res" where
  "c_load_plugin S args w =
     (case args of
        [] \<Rightarrow> Inl NullDeref
      | arg # r \<Rightarrow>
          (case split_library arg of (plugin_library, plugin_alias) \<Rightarrow>
             bindR (on_chain (load_plugin (sys_dlopen S) plugin_library
                                (case r of [] \<Rightarrow> None | options # _ \<Rightarrow> Some options) plugin_alias) w)
               (\<lambda>(res, w1). if res \<noteq> 0 then Inl (Exited 1) else Inr (0, w1))))"

text \<open>The lines of the file, up to \<open>PATH_MAX - 1\<close> characters each; one that begins with \<open>#\<close> is
  skipped. A NUL ends a line for \<open>parse_command\<close>.\<close>

primrec config_lines :: "'w runner \<Rightarrow> string list \<Rightarrow> 'w \<Rightarrow> 'w res" where
  "config_lines run [] w = Inr w"
| "config_lines run (l # ls) w =
     (let buf = takeWhile (\<lambda>c. c \<noteq> NUL) l
      in bindR (if buf \<noteq> [] \<and> hd buf = CHR ''#'' then Inr w else parse_command run buf w)
           (config_lines run ls))"

definition c_config ::
  "('h, 'x, 'p) system \<Rightarrow> ('h, 'x, 'p) listener runner \<Rightarrow> string list \<Rightarrow> ('h, 'x, 'p) listener \<Rightarrow>
   (int \<times> ('h, 'x, 'p) listener) res" where
  "c_config S run args w =
     (case args of
        [] \<Rightarrow> Inl NullDeref
      | path # _ \<Rightarrow>
          (case sys_fopen S path of
             None \<Rightarrow> Inl NullDeref
           | Some f \<Rightarrow> bindR (config_lines run (fgets_all PATH_MAX f) w) (\<lambda>w1. Inr (0, w1))))"

definition c_unload_plugin ::
  "string list \<Rightarrow> ('h, 'x, 'p) listener \<Rightarrow> (int \<times> ('h, 'x, 'p) listener) res" where
  "c_unload_plugin args w =
     (case args of [] \<Rightarrow> Inr (1, w) | name # _ \<Rightarrow> on_chain (unload_plugin_by_name name) w)"

definition c_list_plugins ::
  "('h, 'x, 'p) system \<Rightarrow> ('h, 'x, 'p) listener \<Rightarrow> (int \<times> ('h, 'x, 'p) listener) res" where
  "c_list_plugins S w = bindR (list_plugins (l_chain w)) (\<lambda>_. Inr (sys_garbage S, w))"

definition c_quit :: "('h, 'x, 'p) listener \<Rightarrow> (int \<times> ('h, 'x, 'p) listener) res" where
  "c_quit w = bindR (unload_all_plugins (l_chain w)) (\<lambda>_. Inl (Exited 1))"

section \<open>The table of commands\<close>

definition listener_command ::
  "string \<Rightarrow> string \<Rightarrow> string \<Rightarrow> string \<Rightarrow> 'p fun_ptr option \<Rightarrow> bool \<Rightarrow> ('p fun_ptr, 'h) command" where
  "listener_command name short_name params help f interactive =
     \<lparr>cmd_name = name, cmd_short_name = short_name, cmd_params_desc = params, cmd_help = help,
      cmd_function = f, cmd_interactive_only = interactive, cmd_state = None\<rparr>"

definition commands :: "('p fun_ptr, 'h) command list" where
  "commands =
     [listener_command ''load-plugin'' ''p'' ''<plugin-library>[:alias] [plugin-options]''
        (''Start program with particular plugin enabled;'' @
         '' Plugin is loaded as so library. After path to library you may add alias'' @
         '' (useful when you will have multiple instances of given plugin loaded, and'' @
         '' may want to unload one of them).'' @
         '' After that you may supply parameter string for your plugin.'')
        (Some C_load_plugin) False,
      listener_command ''unload-plugin'' ''u'' ''<plugin-library-path or alias>''
        ''remove plugin from running image of mq_listener'' (Some C_unload_plugin) True,
      listener_command ''reorder-plugins'' ''r''
        ''<comma separated list of plugins, referred to by paths or aliases>''
        (''It is required to give exhaustive list of all plugins that are loaded; otherwise '' @
         ''command will be rejected'')
        (Some C_reorder_plugins) True,
      listener_command ''list-plugins'' ''l'' '''' ''list currently loaded plugins'' (Some C_list_plugins) True,
      listener_command ''quit'' ''q'' '''' ''exit instance of mq_listener'' (Some C_quit) True,
      listener_command ''mq-path'' ''m'' ''<path>''
        ''Select message queue file. This parameter is mandatory unless config file is used''
        (Some C_mq_path) False,
      listener_command ''config'' ''c'' ''<path>'' ''Start mq_listener with particular config file''
        (Some C_config) False,
      listener_command ''help'' ''h'' '''' ''Print help message'' (Some C_help) False,
      listener_command '''' '''' '''' '''' None False]"

text \<open>The loop of \<open>c_help\<close> over the table.\<close>

definition help_lines :: "bool \<Rightarrow> ('p fun_ptr, 'h) command list \<Rightarrow> string list" where
  "help_lines runtime cs =
     concat (map (\<lambda>c.
       if cmd_interactive_only c \<and> \<not> runtime then []
       else [if runtime
             then cmd_name c @ '' ('' @ cmd_short_name c @ '') '' @ cmd_params_desc c
             else ''--'' @ cmd_name c @ '' / -'' @ cmd_short_name c @ '' '' @ cmd_params_desc c,
             ''     '' @ cmd_help c])
       (takeWhile (\<lambda>c. cmd_function c \<noteq> None) cs))"

definition c_help :: "('h, 'x, 'p) listener \<Rightarrow> (int \<times> ('h, 'x, 'p) listener) res" where
  "c_help w = Inr (0, w\<lparr>l_stdout := l_stdout w @
     [''mq_listener: listening end of io_monitor.'', ''Example invocation:'',
      ''   ./mq_listener/mq_listener -m mq1 -p plugins/output_table.so'',
      ''   ./mq_listener/mq_listener -c mq_listener/listener.conf.example''] @
     help_lines (show_runtime_commands w) (commands :: ('p fun_ptr, 'h) command list)\<rparr>)"

section \<open>Running commands\<close>

definition call_function ::
  "('h, 'x, 'p) system \<Rightarrow> ('h, 'x, 'p) listener runner \<Rightarrow> ('p fun_ptr, 'h, ('h, 'x, 'p) listener) call" where
  "call_function S run pfn name args st w =
     (case pfn of
        None \<Rightarrow> Inl NullDeref
      | Some C_load_plugin \<Rightarrow> c_load_plugin S args w
      | Some C_unload_plugin \<Rightarrow> c_unload_plugin args w
      | Some C_reorder_plugins \<Rightarrow> Inr (sys_garbage S, w)
      | Some C_list_plugins \<Rightarrow> c_list_plugins S w
      | Some C_quit \<Rightarrow> c_quit w
      | Some C_mq_path \<Rightarrow> c_mq_path S args w
      | Some C_config \<Rightarrow> c_config S run args w
      | Some C_help \<Rightarrow> c_help w
      | Some (Plugin_command p) \<Rightarrow>
          bindR (sys_plugin_command S p args st (world (l_chain w))) (\<lambda>(rc, x).
            Inr (rc, w\<lparr>l_chain := (l_chain w)\<lparr>world := x\<rparr>\<rparr>)))"

primrec run_listener :: "('h, 'x, 'p) system \<Rightarrow> nat \<Rightarrow> ('h, 'x, 'p) listener runner" where
  "run_listener S 0 = (\<lambda>name args w. Inl StackOverflow)"
| "run_listener S (Suc d) = (\<lambda>name args w.
     run_command (call_function S (run_listener S d)) (\<lambda>w. s_commands (l_chain w)) name args w)"

section \<open>main\<close>

text \<open>\<open>main\<close> up to the input loop, which it enters with the result \<open>None\<close>.\<close>

definition listener_main ::
  "('h, 'x, 'p) system \<Rightarrow> nat \<Rightarrow> string list \<Rightarrow> ('h, 'x, 'p) listener \<Rightarrow>
   (int option \<times> ('h, 'x, 'p) listener) res" where
  "listener_main S d argv w =
     bindR (set_commands_array commands (s_commands (l_chain w))) (\<lambda>cs.
     bindR (parse_args (run_listener S d) argv (w\<lparr>l_chain := (l_chain w)\<lparr>s_commands := cs\<rparr>\<rparr>)) (\<lambda>(rc, w1).
       if rc \<noteq> 0 then Inr (Some rc, w1)
       else if message_queue_id w1 = - 1 then Inr (Some 1, w1)
       else bindR (capture_device_info (sys_lsblk S) (l_resolver w1)) (\<lambda>r.
              Inr (None, w1\<lparr>show_runtime_commands := True, l_resolver := r\<rparr>))))"

section \<open>The input loop\<close>

definition has_domain :: "monitor_record \<Rightarrow> domain_type \<Rightarrow> bool" where
  "has_domain rec d \<longleftrightarrow> mr_dom_type rec = int (domain_index d)"

definition track_record :: "monitor_record \<Rightarrow> resolver \<Rightarrow> (monitor_record \<times> resolver) res" where
  "track_record rec r =
     (if has_domain rec FILE_OPEN_CLOSE
      then if mr_op_type rec = int (op_index OPEN)
           then bindR (register_file rec r) (\<lambda>r1. Inr (resolve_file rec r1, r1))
           else if mr_op_type rec = int (op_index CLOSE)
           then let rec1 = resolve_file rec r in Inr (rec1, deregister_file rec1 r)
           else Inr (rec, r)
      else if has_domain rec FILE_READ \<or> has_domain rec FILE_WRITE \<or> has_domain rec FILE_METADATA \<or>
              has_domain rec FILE_SPACE \<or> has_domain rec SYNCS
      then Inr (resolve_file rec r, r)
      else Inr (rec, r))"

text \<open>One round with a message: \<open>rec\<close> is what \<open>msgrcv\<close> has put into the zeroed buffer. The result is
  the record after the plugins.\<close>

definition handle_message ::
  "('h, 'x, 'p) system \<Rightarrow> monitor_record \<Rightarrow> ('h, 'x, 'p) listener \<Rightarrow> (monitor_record \<times> ('h, 'x, 'p) listener) res" where
  "handle_message S rec w =
     (let rec1 = rec\<lparr>mr_hostname := strncpy (take HOSTNAME_LEN (sys_hostname S)) HOSTNAME_LEN\<rparr>
      in bindR (track_record rec1 (l_resolver w)) (\<lambda>(rec2, r).
         bindR (execute_plugin_chain rec2 (l_chain w)) (\<lambda>(rec3, s).
           Inr (rec3, w\<lparr>l_resolver := r, l_chain := s\<rparr>))))"

text \<open>\<open>input_loop\<close>, on the results of \<open>msgrcv\<close>: a record, or a failure, which is printed and skipped.\<close>

fun input_loop ::
  "('h, 'x, 'p) system \<Rightarrow> monitor_record option list \<Rightarrow> ('h, 'x, 'p) listener \<Rightarrow> ('h, 'x, 'p) listener res" where
  "input_loop S [] w = Inr w"
| "input_loop S (None # received) w = input_loop S received w"
| "input_loop S (Some rec # received) w =
     bindR (handle_message S rec w) (\<lambda>(out, w1). input_loop S received w1)"

section \<open>Lines of input\<close>

lemma parse_command_line:
  assumes "\<forall>t\<in>set (name # args). t \<noteq> [] \<and> CHR '' '' \<notin> set t \<and> newline \<notin> set t"
  shows "parse_command runc (join CHR '' '' (name # args) @ [newline]) w =
    (if length args < 127 then bindR (runc name args w) (\<lambda>(rc, w'). Inr w') else Inl BufferOverflow)"
proof -
  have toks: "\<forall>t\<in>set (name # args). t \<noteq> [] \<and> set t \<inter> set [CHR '' '', newline] = {}" using assms by auto
  have "strtok_all [CHR '' '', newline] (join CHR '' '' ts @ [newline]) = ts"
    if "\<forall>t\<in>set ts. t \<noteq> [] \<and> set t \<inter> set [CHR '' '', newline] = {}" "ts \<noteq> []" for ts
    using that
  proof (induction "CHR '' ''" ts rule: join.induct)
    case (2 t)
    then show ?case using strtok_all_token [of t "[CHR '' '', newline]" newline "[]"] by simp
  next
    case (3 t u us)
    then show ?case using strtok_all_token [of t "[CHR '' '', newline]" "CHR '' ''"] by simp
  qed simp
  from this [OF toks] have "strtok_all [CHR '' '', CHR 0x0A] (join CHR '' '' (name # args) @ [newline]) = name # args"
    by (simp add: newline_def)
  then show ?thesis by (simp add: parse_command_def Let_def max_tokens_def)
qed

end
