(* ===== verification/Chain_Refinement.thy ===== *)
theory Chain_Refinement
imports Plugin_Chain
begin

text \<open>
  The plugin chain implements a list of plugins: the invariant of the heap, and for each operation the
  same operation on the list of the nodes' contents. The lists are walked by \<open>linked\<close>, the relation
  between a pointer and the addresses from it to the end of the chain.
\<close>

section \<open>Linked lists\<close>

fun linked :: "(nat \<Rightarrow> ('h, 'x) node option) \<Rightarrow> nat option \<Rightarrow> nat list \<Rightarrow> bool" where
  "linked h p [] \<longleftrightarrow> p = None"
| "linked h p (a # as) \<longleftrightarrow>
     p = Some a \<and> (case h a of None \<Rightarrow> False | Some n \<Rightarrow> linked h (next_plugin n) as)"

definition chain_ok :: "('h, 'x, 'f) chain \<Rightarrow> nat list \<Rightarrow> bool" where
  "chain_ok s ps \<longleftrightarrow>
     linked (heap s) (plugins s) ps \<and> distinct ps \<and>
     (\<forall>p\<in>set ps. p < fresh s \<and> (\<exists>n. heap s p = Some n \<and> pl_loaded n)) \<and>
     (\<forall>p\<ge>fresh s. heap s p = None)"

text \<open>The contents of a node, its link left out.\<close>

definition content :: "('h, 'x) node \<Rightarrow> ('h, 'x) node" where
  "content n = n\<lparr>next_plugin := None\<rparr>"

definition nodes :: "('h, 'x, 'f) chain \<Rightarrow> nat list \<Rightarrow> ('h, 'x) node list" where
  "nodes s ps = map (\<lambda>p. the (heap s p)) ps"

definition entries :: "('h, 'x, 'f) chain \<Rightarrow> nat list \<Rightarrow> ('h, 'x) node list" where
  "entries s ps = map content (nodes s ps)"

lemma content_simps [simp]:
  "pl_paused (content n) = pl_paused n" "pl_library (content n) = pl_library n"
  "pl_options (content n) = pl_options n" "pl_alias (content n) = pl_alias n"
  "pfn_close_plugin (content n) = pfn_close_plugin n"
  "pfn_ok_to_accept_data (content n) = pfn_ok_to_accept_data n"
  "pfn_process_data (content n) = pfn_process_data n" "pl_state (content n) = pl_state n"
  "pl_loaded (content n) = pl_loaded n" "next_plugin (content n) = None"
  "content (n\<lparr>next_plugin := q\<rparr>) = content n"
  by (simp_all add: content_def)

lemma linked_cong:
  "\<forall>a\<in>set as. map_option next_plugin (h a) = map_option next_plugin (h' a) \<Longrightarrow> linked h p as = linked h' p as"
  by (induction as arbitrary: p) (auto split: option.splits)

lemma linked_upd [simp]: "a \<notin> set as \<Longrightarrow> linked (h(a := v)) p as = linked h p as"
  by (rule linked_cong) auto

lemma linked_dom: "linked h p as \<Longrightarrow> a \<in> set as \<Longrightarrow> h a \<noteq> None"
  by (induction as arbitrary: p) (auto split: option.splits)

lemma linked_suffix:
  "linked h p (as @ b # bs) \<Longrightarrow> \<exists>n. h b = Some n \<and> linked h (next_plugin n) bs"
  by (induction as arbitrary: p) (auto split: option.splits)

lemma linked_nth_next:
  "linked h p (as @ a # b # bs) \<Longrightarrow> \<exists>n. h a = Some n \<and> next_plugin n = Some b"
  by (induction as arbitrary: p) (auto split: option.splits)

lemma linked_last_next: "linked h p (as @ [a]) \<Longrightarrow> \<exists>n. h a = Some n \<and> next_plugin n = None"
  by (induction as arbitrary: p) (auto split: option.splits)

text \<open>Redirecting the link of one node.\<close>

lemma linked_redirect:
  assumes "linked h p (as @ a # bs)" "a \<notin> set as" "a \<notin> set cs" "h a = Some n" "linked h q cs"
  shows "linked (h(a \<mapsto> n\<lparr>next_plugin := q\<rparr>)) p (as @ a # cs)"
  using assms
proof (induction as arbitrary: p)
  case (Cons x as)
  then show ?case by (auto split: option.splits)
qed simp

lemma linked_Some: "linked h (Some p) ps \<Longrightarrow> \<exists>qs. ps = p # qs"
  by (cases ps) auto

lemma linked_None: "linked h None ps \<Longrightarrow> ps = []"
  by (cases ps) auto

lemma chain_length:
  assumes "chain_ok s ps"
  shows "length ps < loop_fuel s"
proof -
  have "set ps \<subseteq> {..<fresh s}" using assms by (auto simp: chain_ok_def)
  then have "card (set ps) \<le> fresh s" using card_mono [of "{..<fresh s}" "set ps"] by simp
  with assms show ?thesis by (simp add: chain_ok_def distinct_card loop_fuel_def)
qed

lemma chain_node: "chain_ok s ps \<Longrightarrow> p \<in> set ps \<Longrightarrow> heap s p = Some (the (heap s p)) \<and> pl_loaded (the (heap s p))"
  by (auto simp: chain_ok_def)

lemma initial_chain_ok: "chain_ok (initial_chain x) []"
  by (simp add: chain_ok_def initial_chain_def)

lemma chain_ok_cong:
  "heap s' = heap s \<Longrightarrow> plugins s' = plugins s \<Longrightarrow> fresh s' = fresh s \<Longrightarrow> chain_ok s' ps = chain_ok s ps"
  by (simp add: chain_ok_def)

lemma chain_ok_upd [simp]:
  "chain_ok (s\<lparr>world := x\<rparr>) ps = chain_ok s ps" "chain_ok (s\<lparr>s_commands := cs\<rparr>) ps = chain_ok s ps"
  by (simp_all add: chain_ok_def)

section \<open>Executing the chain\<close>

text \<open>The specification: offer the record to one plugin after the other, until one drops it.\<close>

fun offer_all ::
  "monitor_record \<Rightarrow> ('h, 'x) node list \<Rightarrow> 'x \<Rightarrow> (monitor_record \<times> ('h, 'x) node list \<times> 'x) res" where
  "offer_all rec [] x = Inr (rec, [], x)"
| "offer_all rec (n # ns) x =
     bindR (offer rec n x) (\<lambda>(go_on, rec', n', x').
       if \<not> go_on then Inr (rec', n' # ns, x')
       else bindR (offer_all rec' ns x') (\<lambda>(rec'', ns', x''). Inr (rec'', n' # ns', x'')))"

lemma offer_frame: "offer rec n x = Inr (g, rec', n', x') \<Longrightarrow> n' = n\<lparr>pl_paused := pl_paused n'\<rparr>"
  by (auto simp: offer_def split: if_splits)

lemma offer_content:
  "offer rec (content n) x = bindR (offer rec n x) (\<lambda>(g, rec', n', x'). Inr (g, rec', content n', x'))"
  by (cases n) (auto simp: offer_def content_def bindR_def split: sum.splits prod.splits)

lemma offer_all_content:
  "offer_all rec (map content ns) x =
    bindR (offer_all rec ns x) (\<lambda>(rec', ns', x'). Inr (rec', map content ns', x'))"
proof (induction ns arbitrary: rec x)
  case (Cons n ns)
  show ?case
    by (auto simp: offer_content Cons.IH bindR_def split: sum.splits prod.splits)
qed simp

lemma offer_all_frame:
  "offer_all rec ns x = Inr (rec', ns', x') \<Longrightarrow>
    list_all2 (\<lambda>n n'. n' = n\<lparr>pl_paused := pl_paused n'\<rparr>) ns ns'"
proof (induction ns arbitrary: rec x ns')
  case (Cons n ns)
  then obtain g r1 n1 x1 where 1: "offer rec n x = Inr (g, r1, n1, x1)" by auto
  note f = offer_frame [OF 1]
  show ?case
  proof (cases g)
    case False
    with Cons.prems 1 f show ?thesis by (auto intro: list_all2_refl)
  next
    case True
    with Cons.prems 1 obtain ns1 where 2: "offer_all r1 ns x1 = Inr (rec', ns1, x')" "ns' = n1 # ns1" by auto
    with Cons.IH [OF 2(1)] f show ?thesis by simp
  qed
qed simp

lemma map_upds_same: "\<forall>p\<in>set ps. h p \<noteq> None \<Longrightarrow> h(ps [\<mapsto>] map (\<lambda>p. the (h p)) ps) = h"
proof (induction ps arbitrary: h)
  case (Cons p ps)
  then have "h(p \<mapsto> the (h p)) = h" by auto
  with Cons show ?case by simp
qed simp

lemma execute_from_offer_all:
  assumes "linked (heap s) p ps" "distinct ps" "\<forall>a\<in>set ps. pl_loaded (the (heap s a))" "length ps < fuel"
  shows "execute_from fuel p rec s =
    bindR (offer_all rec (nodes s ps) (world s)) (\<lambda>(rec', ns', x').
      Inr (rec', s\<lparr>heap := (heap s)(ps [\<mapsto>] ns'), world := x'\<rparr>))"
  using assms
proof (induction ps arbitrary: p s rec fuel)
  case Nil
  then show ?case by (cases fuel) (simp_all add: nodes_def)
next
  case (Cons a ps)
  then obtain n fuel' where n: "heap s a = Some n" "linked (heap s) (next_plugin n) ps" "p = Some a"
    "pl_loaded n" and fuel: "fuel = Suc fuel'" "length ps < fuel'"
    by (cases fuel) (auto split: option.splits)
  show ?case
  proof (cases "offer rec n (world s)")
    case (Inl u)
    then show ?thesis
      by (simp add: fuel n execute_plugin_def live_at_def node_at_def nodes_def)
  next
    case (Inr q)
    obtain g r1 n1 x1 where q: "q = (g, r1, n1, x1)" by (cases q)
    define s1 where "s1 = (set_node a n1 s)\<lparr>world := x1\<rparr>"
    have step: "execute_plugin a rec s = Inr (g, r1, s1)"
      using Inr by (simp add: n execute_plugin_def live_at_def node_at_def s1_def q)
    have "n1 = n\<lparr>pl_paused := pl_paused n1\<rparr>" using offer_frame [of rec n "world s" g r1 n1 x1] Inr q by simp
    then have nx: "next_plugin n1 = next_plugin n" by (metis node.select_convs(9) node.surjective node.update_convs(1))
    have notin: "a \<notin> set ps" using Cons.prems(2) by simp
    have same: "nodes s1 ps = nodes s ps" using notin by (auto simp: nodes_def s1_def set_node_def)
    have h1: "heap s1 = (heap s)(a \<mapsto> n1)" "world s1 = x1"
      by (simp_all add: s1_def set_node_def)
    show ?thesis
    proof (cases g)
      case False
      have dom: "\<forall>b\<in>set ps. ((heap s)(a \<mapsto> n1)) b \<noteq> None"
        using linked_dom [OF n(2)] by simp
      have eq: "nodes s ps = map (\<lambda>b. the (((heap s)(a \<mapsto> n1)) b)) ps" using notin by (auto simp: nodes_def)
      have "((heap s)(a \<mapsto> n1))(ps [\<mapsto>] nodes s ps) = (heap s)(a \<mapsto> n1)"
        unfolding eq by (rule map_upds_same [OF dom])
      with False Inr q step show ?thesis
        by (simp add: fuel n nodes_def s1_def set_node_def)
    next
      case True
      have "execute_from fuel' (next_plugin n) r1 s1 =
          bindR (offer_all r1 (nodes s1 ps) (world s1)) (\<lambda>(rec', ns', x').
            Inr (rec', s1\<lparr>heap := (heap s1)(ps [\<mapsto>] ns'), world := x'\<rparr>))"
      proof (rule Cons.IH)
        show "linked (heap s1) (next_plugin n) ps" using n(2) notin by (simp add: h1(1) del: fun_upd_apply)
        show "\<forall>a\<in>set ps. pl_loaded (the (heap s1 a))" using Cons.prems(3) notin by (auto simp: h1(1))
      qed (use Cons.prems(2) fuel in auto)
      moreover have "s1\<lparr>heap := h, world := x\<rparr> = s\<lparr>heap := h, world := x\<rparr>" for h x
        by (simp add: s1_def set_node_def)
      ultimately have rest: "execute_from fuel' (next_plugin n) r1 s1 =
          bindR (offer_all r1 (nodes s ps) x1) (\<lambda>(rec', ns', x').
            Inr (rec', s\<lparr>heap := ((heap s)(a \<mapsto> n1))(ps [\<mapsto>] ns'), world := x'\<rparr>))"
        by (simp only: same h1)
      have "execute_from fuel p rec s = execute_from fuel' (next_plugin n) r1 s1"
        using True step by (simp add: n(3) fuel(1) node_at_def h1(1) nx)
      moreover have "nodes s (a # ps) = n # nodes s ps" by (simp add: nodes_def n(1))
      ultimately show ?thesis
        using Inr True unfolding rest by (cases "offer_all r1 (nodes s ps) x1") (auto simp: q)
    qed
  qed
qed

lemma offer_all_nth:
  assumes "offer_all rec ns x = Inr (rec', ns', x')"
  shows "length ns' = length ns \<and> map next_plugin ns' = map next_plugin ns \<and> map pl_loaded ns' = map pl_loaded ns"
proof -
  have *: "next_plugin n' = next_plugin n \<and> pl_loaded n' = pl_loaded n" if "n' = n\<lparr>pl_paused := pl_paused n'\<rparr>"
    for n n' :: "('a, 'b) node"
    using arg_cong [OF that, of next_plugin] arg_cong [OF that, of pl_loaded] by simp
  have "list_all2 (\<lambda>n n'. next_plugin n' = next_plugin n \<and> pl_loaded n' = pl_loaded n) ns ns'"
    by (rule list_all2_mono [OF offer_all_frame [OF assms] *])
  then show ?thesis by (induction ns ns' rule: list_all2_induct) auto
qed

lemma map_upds_nth:
  "distinct ps \<Longrightarrow> length ns = length ps \<Longrightarrow> i < length ps \<Longrightarrow> (h(ps [\<mapsto>] ns)) (ps ! i) = Some (ns ! i)"
proof (induction ps arbitrary: ns h i)
  case (Cons p ps)
  then obtain n ns' where ns: "ns = n # ns'" by (cases ns) auto
  show ?case
  proof (cases i)
    case 0
    with Cons.prems ns show ?thesis by (simp add: map_upds_apply_nontin)
  next
    case (Suc j)
    with Cons.prems have "ps ! j \<noteq> p" by auto
    with Cons ns Suc show ?thesis by simp
  qed
qed simp

text \<open>Replacing the nodes of the chain by others with the same links and libraries still open.\<close>

lemma chain_ok_upds:
  assumes "chain_ok s ps" "length ns = length ps" "map next_plugin ns = map next_plugin (nodes s ps)"
    and "\<forall>n\<in>set ns. pl_loaded n"
  shows "chain_ok (s\<lparr>heap := (heap s)(ps [\<mapsto>] ns), world := x\<rparr>) ps \<and>
    nodes (s\<lparr>heap := (heap s)(ps [\<mapsto>] ns), world := x\<rparr>) ps = ns"
proof -
  have d: "distinct ps" using assms(1) by (simp add: chain_ok_def)
  note nth = map_upds_nth [OF d assms(2), where h = "heap s"]
  have "linked ((heap s)(ps [\<mapsto>] ns)) (plugins s) ps = linked (heap s) (plugins s) ps"
  proof (rule linked_cong, rule ballI)
    fix a assume "a \<in> set ps"
    then obtain i where i: "i < length ps" "a = ps ! i" by (auto simp: in_set_conv_nth)
    have "next_plugin (ns ! i) = next_plugin (the (heap s a))"
      using arg_cong [OF assms(3), of "\<lambda>l. l ! i"] i assms(2) by (simp add: nodes_def)
    moreover obtain n where "heap s a = Some n" using chain_node [OF assms(1) \<open>a \<in> set ps\<close>] by blast
    ultimately show "map_option next_plugin (((heap s)(ps [\<mapsto>] ns)) a) = map_option next_plugin (heap s a)"
      using nth [OF i(1)] i(2) by simp
  qed
  moreover have "\<forall>p\<in>set ps. \<exists>n. ((heap s)(ps [\<mapsto>] ns)) p = Some n \<and> pl_loaded n"
  proof
    fix p assume "p \<in> set ps"
    then obtain i where i: "i < length ps" "p = ps ! i" by (auto simp: in_set_conv_nth)
    then have "pl_loaded (ns ! i)" using assms(2,4) by simp
    with nth [OF i(1)] i(2) show "\<exists>n. ((heap s)(ps [\<mapsto>] ns)) p = Some n \<and> pl_loaded n" by blast
  qed
  moreover have "((heap s)(ps [\<mapsto>] ns)) p = heap s p" if "fresh s \<le> p" for p
    using that assms(1) by (intro map_upds_apply_nontin) (auto simp: chain_ok_def)
  moreover have "map (\<lambda>p. the (((heap s)(ps [\<mapsto>] ns)) p)) ps = ns"
    using nth assms(2) by (auto intro: nth_equalityI)
  ultimately show ?thesis using assms(1) by (auto simp: chain_ok_def nodes_def)
qed

text \<open>\<open>execute_plugin_chain\<close> is \<open>offer_all\<close> on the contents of the nodes.\<close>

lemma execute_refines:
  assumes "chain_ok s ps"
  shows "case offer_all rec (entries s ps) (world s) of
      Inl u \<Rightarrow> execute_plugin_chain rec s = Inl u
    | Inr (rec', ns, x) \<Rightarrow> \<exists>s'. execute_plugin_chain rec s = Inr (rec', s') \<and> chain_ok s' ps \<and>
        entries s' ps = ns \<and> world s' = x \<and> s_commands s' = s_commands s"
proof -
  have ex: "execute_plugin_chain rec s =
    bindR (offer_all rec (nodes s ps) (world s)) (\<lambda>(rec', ns', x').
      Inr (rec', s\<lparr>heap := (heap s)(ps [\<mapsto>] ns'), world := x'\<rparr>))"
    unfolding execute_plugin_chain_def
    using assms chain_length [OF assms] chain_node [OF assms]
    by (intro execute_from_offer_all) (auto simp: chain_ok_def)
  show ?thesis
  proof (cases "offer_all rec (nodes s ps) (world s)")
    case (Inl u)
    then show ?thesis by (simp add: entries_def offer_all_content ex)
  next
    case (Inr q)
    obtain rec' ns x where q: "q = (rec', ns, x)" by (cases q)
    have ns: "length ns = length ps" "map next_plugin ns = map next_plugin (nodes s ps)"
      "\<forall>n\<in>set ns. pl_loaded n"
    proof -
      note nth = offer_all_nth [OF Inr [unfolded q]]
      then show "length ns = length ps" "map next_plugin ns = map next_plugin (nodes s ps)"
        by (simp_all add: nodes_def)
      have "\<forall>n\<in>set (nodes s ps). pl_loaded n" using chain_node [OF assms] by (auto simp: nodes_def)
      then have "\<forall>b\<in>set (map pl_loaded ns). b" using nth by auto
      then show "\<forall>n\<in>set ns. pl_loaded n" by simp
    qed
    note c = chain_ok_upds [OF assms ns, of x]
    show ?thesis
      using c Inr q ex by (simp add: entries_def offer_all_content)
  qed
qed

section \<open>Loading\<close>

lemma append_from_last:
  assumes "linked (heap s) (Some tmp) (as @ [a])" "length (as @ [a]) \<le> fuel" "heap s a = Some n"
  shows "append_from fuel tmp new s = Inr (set_node a (n\<lparr>next_plugin := Some new\<rparr>) s)"
  using assms
proof (induction as arbitrary: tmp fuel)
  case Nil
  then show ?case by (cases fuel) (simp_all add: node_at_def)
next
  case (Cons b as)
  then obtain nb fuel' where nb: "tmp = b" "heap s b = Some nb" "linked (heap s) (next_plugin nb) (as @ [a])"
    "fuel = Suc fuel'"
    by (cases fuel) (auto split: option.splits)
  then obtain q where "next_plugin nb = Some q" by (cases "next_plugin nb") (auto dest: linked_None)
  with Cons.IH [of q fuel'] Cons.prems nb show ?case by (simp add: node_at_def)
qed

lemma entries_append: "entries s (ps @ qs) = entries s ps @ entries s qs"
  by (simp add: entries_def nodes_def)

lemma link_plugin_ok:
  assumes "chain_ok s ps" "pl_loaded n" "next_plugin n = None"
  shows "\<exists>s'. link_plugin n s = Inr s' \<and> chain_ok s' (ps @ [fresh s]) \<and>
    entries s' (ps @ [fresh s]) = entries s ps @ [n] \<and> world s' = world s \<and> s_commands s' = s_commands s"
proof -
  define s1 where "s1 = s\<lparr>heap := (heap s)(fresh s \<mapsto> n), fresh := Suc (fresh s)\<rparr>"
  have s1: "heap s1 = (heap s)(fresh s \<mapsto> n)" "fresh s1 = Suc (fresh s)" "plugins s1 = plugins s"
    "world s1 = world s" "s_commands s1 = s_commands s"
    by (simp_all add: s1_def)
  have new: "fresh s \<notin> set ps" using assms(1) by (auto simp: chain_ok_def)
  have cn: "content n = n" using assms(3) by (cases n) (simp add: content_def)
  have lk: "linked (heap s1) (plugins s) ps"
    using assms(1) new by (simp add: s1(1) chain_ok_def del: fun_upd_apply)
  have same: "entries s1 ps = entries s ps" using new by (auto simp: entries_def nodes_def s1(1))
  show ?thesis
  proof (cases ps rule: rev_cases)
    case Nil
    then have "plugins s = None" using assms(1) by (simp add: chain_ok_def)
    then have "link_plugin n s = Inr (s1\<lparr>plugins := Some (fresh s)\<rparr>)"
      by (simp add: link_plugin_def s1_def Let_def)
    with Nil assms cn show ?thesis
      by (auto simp: chain_ok_def s1 entries_def nodes_def)
  next
    case (snoc as a)
    obtain na where na: "heap s a = Some na" using chain_node [OF assms(1), of a] snoc by auto
    have "a \<noteq> fresh s" using new snoc by auto
    then have na1: "heap s1 a = Some na" using na by (simp add: s1)
    obtain tmp where tmp: "plugins s = Some tmp"
      using lk snoc by (cases as) auto
    define s2 where "s2 = set_node a (na\<lparr>next_plugin := Some (fresh s)\<rparr>) s1"
    have "length ps \<le> loop_fuel s1" using chain_length [OF assms(1)] by (simp add: loop_fuel_def s1)
    then have link: "link_plugin n s = Inr s2"
      using append_from_last [of s1 tmp as a "loop_fuel s1" na "fresh s"] lk na1 tmp snoc
      by (simp add: link_plugin_def s1_def [symmetric] s2_def s1(3))
    have "linked (heap s2) (plugins s) (as @ a # [fresh s])"
      unfolding s2_def set_node_def
      using lk snoc assms na1 \<open>a \<noteq> fresh s\<close>
      by (simp, intro linked_redirect) (auto simp: s1 chain_ok_def)
    moreover have "\<forall>p\<in>set (ps @ [fresh s]). p < fresh s2 \<and> (\<exists>m. heap s2 p = Some m \<and> pl_loaded m)"
      using assms(1,2) na snoc chain_node [OF assms(1), of a]
      by (auto simp: s2_def set_node_def s1 chain_ok_def less_Suc_eq)
    ultimately have ok: "chain_ok s2 (ps @ [fresh s])"
      using assms(1) new snoc by (auto simp: chain_ok_def s2_def set_node_def s1)
    have "entries s2 (ps @ [fresh s]) = entries s1 ps @ [n]"
      using na na1 cn \<open>a \<noteq> fresh s\<close> by (auto simp: entries_def nodes_def s2_def set_node_def s1)
    with link ok same show ?thesis by (simp add: s2_def set_node_def s1)
  qed
qed

text \<open>\<open>load_plugin\<close> as one expression.\<close>

lemma load_plugin_eq:
  "load_plugin dlopen lib options alias s =
     (case dlopen lib of
        None \<Rightarrow> Inr (1, s)
      | Some l \<Rightarrow>
         (case (open_plugin l, close_plugin l, ok_to_accept_data l, process_data l) of
            (Some pfn_open, Some pfn_close, Some pfn_ok, Some pfn_process) \<Rightarrow>
              bindR (pfn_open options (world s)) (\<lambda>(rc_plugin, st, x).
                if rc_plugin = PLUGIN_OPEN_FAIL then Inr (1, s\<lparr>world := x\<rparr>)
                else bindR (register_plugin_command lib alias st (plugin_command l) (s_commands s)) (\<lambda>cs.
                     bindR (link_plugin
                              \<lparr>pl_paused = False, pl_library = lib, pl_options = options, pl_alias = alias,
                               pfn_close_plugin = pfn_close, pfn_ok_to_accept_data = pfn_ok,
                               pfn_process_data = pfn_process, pl_state = st, next_plugin = None,
                               pl_loaded = True\<rparr>
                              (s\<lparr>world := x, s_commands := cs\<rparr>)) (\<lambda>s'. Inr (0, s'))))
          | _ \<Rightarrow> Inr (1, s)))"
  by (auto simp: load_plugin_def prepare_plugin_def bindR_def split: option.splits sum.splits prod.splits if_splits)

section \<open>Finding and unloading\<close>

definition names_plugin :: "('h, 'x) node \<Rightarrow> string \<Rightarrow> bool" where
  "names_plugin n name \<longleftrightarrow> pl_library n = name \<or> pl_alias n = Some name"

lemma locate_from_find:
  assumes "linked (heap s) p ps" "\<forall>a\<in>set ps. pl_loaded (the (heap s a))" "length ps < fuel"
  shows "locate_from fuel name p s = Inr (find (\<lambda>a. names_plugin (the (heap s a)) name) ps)"
  using assms
proof (induction ps arbitrary: p fuel)
  case Nil
  then show ?case by simp
next
  case (Cons a ps)
  then obtain n fuel' where n: "p = Some a" "heap s a = Some n" "linked (heap s) (next_plugin n) ps"
    "fuel = Suc fuel'"
    by (cases fuel) (auto split: option.splits)
  with Cons.IH [of "next_plugin n" fuel'] Cons.prems show ?case
    by (auto simp: live_at_def node_at_def names_plugin_def)
qed

lemma locate_ok:
  assumes "chain_ok s ps"
  shows "locate_plugin_by_name name s = Inr (find (\<lambda>a. names_plugin (the (heap s a)) name) ps)"
  unfolding locate_plugin_by_name_def
  using assms chain_length [OF assms] chain_node [OF assms]
  by (intro locate_from_find) (auto simp: chain_ok_def)

lemma unlink_from_pred:
  assumes "linked (heap s) q (as @ i # p # bs)" "distinct (as @ i # p # bs)"
    and "length (as @ [i]) \<le> fuel" "heap s i = Some n" "heap s p = Some np"
  shows "unlink_from fuel p q s = Inr (0, free_node p (set_node i (n\<lparr>next_plugin := next_plugin np\<rparr>) s))"
  using assms
proof (induction as arbitrary: q fuel)
  case Nil
  then show ?case by (cases fuel) (auto simp: node_at_def split: option.splits)
next
  case (Cons a as)
  then obtain na fuel' where na: "q = Some a" "heap s a = Some na"
    "linked (heap s) (next_plugin na) (as @ i # p # bs)" "fuel = Suc fuel'"
    by (cases fuel) (auto split: option.splits)
  have "next_plugin na \<noteq> Some p"
    using na(3) Cons.prems(2) by (cases as) auto
  with Cons.IH [of "next_plugin na" fuel'] Cons.prems na show ?case by (simp add: node_at_def)
qed

lemma unload_plugin_eq:
  assumes "heap s p = Some n" "pl_loaded n" "pfn_close_plugin n (pl_state n) (world s) = Inr x"
  shows "unload_plugin p s = Inr (s\<lparr>heap := (heap s)(p \<mapsto> n\<lparr>pl_loaded := False\<rparr>), world := x,
    s_commands := free_command (pl_library n) (s_commands s)\<rparr>)"
  using assms by (simp add: unload_plugin_def live_at_def node_at_def set_node_def)

lemma distinct_split: "p \<in> set ps \<Longrightarrow> distinct ps \<Longrightarrow>
    \<exists>as bs. ps = as @ p # bs \<and> p \<notin> set as \<and> p \<notin> set bs \<and> remove1 p ps = as @ bs"
proof -
  assume "p \<in> set ps" "distinct ps"
  then obtain as bs where "ps = as @ p # bs" "p \<notin> set as" "p \<notin> set bs"
    by (auto dest!: split_list)
  then show ?thesis by (intro exI [of _ as] exI [of _ bs]) (simp add: remove1_append)
qed

text \<open>A chain of which the plugin at \<open>p\<close> is closed, but still linked.\<close>

definition closing :: "nat \<Rightarrow> ('h, 'x, 'f) chain \<Rightarrow> nat list \<Rightarrow> bool" where
  "closing p s ps \<longleftrightarrow> p \<in> set ps \<and>
     (\<exists>n. heap s p = Some n \<and> chain_ok (s\<lparr>heap := (heap s)(p \<mapsto> n\<lparr>pl_loaded := True\<rparr>)\<rparr>) ps)"

lemma closing_unloaded:
  assumes "chain_ok s ps" "p \<in> set ps" "unload_plugin p s = Inr s'"
  shows "closing p s' ps" "dom (heap s') = dom (heap s)" "fresh s' = fresh s" "plugins s' = plugins s"
proof -
  obtain n where n: "heap s p = Some n" "pl_loaded n" using chain_node [OF assms(1,2)] by blast
  obtain x where s': "s' = (set_node p (n\<lparr>pl_loaded := False\<rparr>) s)\<lparr>world := x, s_commands := free_command (pl_library n) (s_commands s)\<rparr>"
    using assms(3) n by (auto simp: unload_plugin_def live_at_def node_at_def)
  have "n\<lparr>pl_loaded := True\<rparr> = n" using n(2) by simp
  then have "(heap s)(p \<mapsto> n\<lparr>pl_loaded := True\<rparr>) = heap s" using n(1) by (metis map_upd_triv)
  with assms(1,2) show "closing p s' ps"
    by (auto simp: closing_def s' set_node_def chain_ok_def)
  show "dom (heap s') = dom (heap s)" "fresh s' = fresh s" "plugins s' = plugins s"
    using n(1) by (auto simp: s' set_node_def)
qed

text \<open>Unlinking and freeing it leaves the others as they were.\<close>

lemma unlink_plugin_ok:
  assumes "closing p s ps"
  shows "\<exists>s'. unlink_plugin p (plugins s) s = Inr (0, s') \<and> chain_ok s' (remove1 p ps) \<and>
    entries s' (remove1 p ps) = entries s (remove1 p ps) \<and> world s' = world s \<and> heap s' p = None \<and>
    s_commands s' = s_commands s \<and> fresh s' = fresh s \<and> dom (heap s') = dom (heap s) - {p} \<and>
    (plugins s \<noteq> Some p \<longrightarrow> plugins s' = plugins s)"
proof -
  obtain n where p: "p \<in> set ps" and hp: "heap s p = Some n"
    and ok: "chain_ok (s\<lparr>heap := (heap s)(p \<mapsto> n\<lparr>pl_loaded := True\<rparr>)\<rparr>) ps"
    using assms by (auto simp: closing_def)
  have lk: "linked (heap s) (plugins s) ps"
    using ok hp by (subst linked_cong [where h' = "(heap s)(p \<mapsto> n\<lparr>pl_loaded := True\<rparr>)"]) (auto simp: chain_ok_def)
  have d: "distinct ps" using ok by (simp add: chain_ok_def)
  have live: "heap s a = Some (the (heap s a)) \<and> pl_loaded (the (heap s a)) \<and> a < fresh s" if "a \<in> set ps" "a \<noteq> p" for a
    using ok that by (auto simp: chain_ok_def)
  have unused: "heap s a = None" if "fresh s \<le> a" for a
    using ok that hp by (auto simp: chain_ok_def split: if_splits)
  obtain as bs where split: "ps = as @ p # bs" "p \<notin> set as" "p \<notin> set bs" "remove1 p ps = as @ bs"
    using distinct_split [OF p d] by blast
  have tail: "linked (heap s) (next_plugin n) bs"
    using linked_suffix [of "heap s" "plugins s" as p bs] lk hp split(1) by simp
  show ?thesis
  proof (cases as rule: rev_cases)
    case Nil
    then have pl: "plugins s = Some p" using lk split(1) by simp
    define s2 where "s2 = free_node p (s\<lparr>plugins := next_plugin n\<rparr>)"
    have r: "unlink_plugin p (plugins s) s = Inr (0, s2)"
      using pl hp by (simp add: unlink_plugin_def node_at_def s2_def)
    have h2: "heap s2 = (heap s)(p := None)" "plugins s2 = next_plugin n" "fresh s2 = fresh s" "world s2 = world s"
      "s_commands s2 = s_commands s"
      by (simp_all add: s2_def free_node_def)
    have "linked (heap s2) (plugins s2) bs"
      using tail split(3) by (simp add: h2 del: fun_upd_apply)
    with d live unused Nil split have "chain_ok s2 (remove1 p ps)" by (auto simp: chain_ok_def h2)
    moreover have "entries s2 (remove1 p ps) = entries s (remove1 p ps)"
      using Nil split by (auto simp: entries_def nodes_def h2)
    ultimately show ?thesis using r pl by (intro exI [of _ s2]) (auto simp: h2)
  next
    case (snoc cs i)
    have ps: "ps = cs @ i # p # bs" using snoc split(1) by simp
    have ip: "i \<noteq> p" "i \<in> set ps" "plugins s \<noteq> Some p"
      using ps split(2) snoc lk by (auto dest: linked_Some, cases cs, auto)
    obtain ni where ni: "heap s i = Some ni" "pl_loaded ni" using live [OF ip(2,1)] by blast
    have "length ps < loop_fuel s" using chain_length [OF ok] by (simp add: loop_fuel_def)
    then have len: "length (cs @ [i]) \<le> loop_fuel s" using ps by simp
    define s2 where "s2 = free_node p (set_node i (ni\<lparr>next_plugin := next_plugin n\<rparr>) s)"
    have r: "unlink_plugin p (plugins s) s = Inr (0, s2)"
      using unlink_from_pred [of s "plugins s" cs i p bs "loop_fuel s" ni n] lk ps d ni(1) hp ip(3) len
      by (simp add: unlink_plugin_def s2_def)
    have h2: "heap s2 = ((heap s)(p := None))(i \<mapsto> ni\<lparr>next_plugin := next_plugin n\<rparr>)" "plugins s2 = plugins s"
      "fresh s2 = fresh s" "world s2 = world s" "s_commands s2 = s_commands s"
      using ip(1) by (auto simp: s2_def free_node_def set_node_def)
    have notin: "i \<notin> set cs" "i \<notin> set bs" "p \<notin> set cs" "p \<notin> set bs" using d ps by auto
    have "linked ((heap s)(i \<mapsto> ni\<lparr>next_plugin := next_plugin n\<rparr>)) (plugins s) (cs @ i # bs)"
      using lk ps notin ni tail by (intro linked_redirect [of _ _ _ _ "p # bs"]) auto
    then have "linked (heap s2) (plugins s2) (cs @ i # bs)"
      using notin ip(1) by (subst linked_cong [where h' = "(heap s)(i \<mapsto> ni\<lparr>next_plugin := next_plugin n\<rparr>)"])
        (auto simp: h2)
    moreover have "remove1 p ps = cs @ i # bs" using split(4) snoc by simp
    ultimately have "chain_ok s2 (remove1 p ps)"
      using live unused d ps notin ni ip(1) by (auto simp: chain_ok_def h2)
    moreover have "entries s2 (remove1 p ps) = entries s (remove1 p ps)"
      using split snoc notin ip(1) ni by (auto simp: entries_def nodes_def h2)
    ultimately show ?thesis using r ip ni by (intro exI [of _ s2]) (auto simp: h2)
  qed
qed

text \<open>Unloading the plugin at \<open>p\<close>: its \<open>close\<close> is called, its node is unlinked and freed, and the others
  stay as they were.\<close>

lemma unload_by_name_ok:
  assumes ok: "chain_ok s ps" and f: "find (\<lambda>a. names_plugin (the (heap s a)) name) ps = Some p"
    and n: "n = the (heap s p)" and x: "pfn_close_plugin n (pl_state n) (world s) = Inr x"
  shows "\<exists>s'. unload_plugin_by_name name s = Inr (0, s') \<and> chain_ok s' (remove1 p ps) \<and>
    entries s' (remove1 p ps) = entries s (remove1 p ps) \<and> world s' = x \<and> heap s' p = None \<and>
    s_commands s' = free_command (pl_library n) (s_commands s)"
proof -
  have p: "p \<in> set ps" using f by (auto simp: find_Some_iff)
  then have hp: "heap s p = Some n" "pl_loaded n" using chain_node [OF ok p] n by simp_all
  define s1 where "s1 = s\<lparr>heap := (heap s)(p \<mapsto> n\<lparr>pl_loaded := False\<rparr>), world := x,
    s_commands := free_command (pl_library n) (s_commands s)\<rparr>"
  have u: "unload_plugin p s = Inr s1" unfolding s1_def by (rule unload_plugin_eq [OF hp x])
  have "p \<notin> set (remove1 p ps)" using ok by (simp add: chain_ok_def)
  then have "entries s1 (remove1 p ps) = entries s (remove1 p ps)"
    by (auto simp: entries_def nodes_def s1_def)
  moreover have "plugins s1 = plugins s" by (simp add: s1_def)
  ultimately show ?thesis
    using unlink_plugin_ok [OF closing_unloaded(1) [OF ok p u]] u
    by (auto simp: unload_plugin_by_name_def locate_ok [OF ok] f s1_def)
qed

lemma unload_by_name_missing:
  assumes "chain_ok s ps" "\<forall>e\<in>set (entries s ps). \<not> names_plugin e name"
  shows "unload_plugin_by_name name s = Inl NullDeref"
proof -
  have "find (\<lambda>a. names_plugin (the (heap s a)) name) ps = None"
    using assms(2) by (auto simp: find_None_iff entries_def nodes_def names_plugin_def)
  then show ?thesis by (simp add: unload_plugin_by_name_def locate_ok [OF assms(1)])
qed

text \<open>Unloading all plugins: close them from the first to the last.\<close>

fun close_all :: "('h, 'x) node list \<Rightarrow> 'x \<Rightarrow> 'x res" where
  "close_all [] x = Inr x"
| "close_all (n # ns) x = bindR (pfn_close_plugin n (pl_state n) x) (close_all ns)"

lemma unload_all_from_close_all:
  assumes "linked (heap s) (plugins s) ps" "distinct ps" "\<forall>a\<in>set ps. pl_loaded (the (heap s a))"
    and "length ps \<le> fuel" "close_all (nodes s ps) (world s) = Inr x"
  shows "\<exists>s'. unload_all_from fuel s = Inr s' \<and> plugins s' = None \<and> world s' = x \<and> fresh s' = fresh s \<and>
    (\<forall>a. heap s a = None \<longrightarrow> a \<notin> set ps \<longrightarrow> heap s' a = None) \<and>
    s_commands s' = fold (\<lambda>n. free_command (pl_library n)) (nodes s ps) (s_commands s)"
  using assms
proof (induction ps arbitrary: s fuel)
  case Nil
  then show ?case by (subst unload_all_from.simps) (auto simp: nodes_def)
next
  case (Cons p ps)
  then obtain n fuel' where n: "plugins s = Some p" "heap s p = Some n" "pl_loaded n"
    "linked (heap s) (next_plugin n) ps" "fuel = Suc fuel'" "length ps \<le> fuel'"
    by (cases fuel) (auto split: option.splits)
  obtain x1 where x1: "pfn_close_plugin n (pl_state n) (world s) = Inr x1"
    "close_all (nodes s ps) x1 = Inr x"
    using Cons.prems(5) n(2) by (auto simp: nodes_def)
  define s2 where "s2 = s\<lparr>heap := (heap s)(p \<mapsto> n\<lparr>pl_loaded := False\<rparr>), world := x1,
    s_commands := free_command (pl_library n) (s_commands s), plugins := next_plugin n\<rparr>"
  have p: "p \<notin> set ps" using Cons.prems(2) by simp
  have s2: "heap s2 = (heap s)(p \<mapsto> n\<lparr>pl_loaded := False\<rparr>)" "plugins s2 = next_plugin n" "world s2 = x1"
    "fresh s2 = fresh s" "s_commands s2 = free_command (pl_library n) (s_commands s)"
    by (simp_all add: s2_def)
  have same: "nodes s2 ps = nodes s ps" using p by (auto simp: nodes_def s2)
  have step: "unload_all_from fuel s = unload_all_from fuel' s2"
    unfolding s2_def using n x1(1)
    by (subst unload_all_from.simps) (simp add: unload_plugin_eq [OF n(2,3) x1(1)] node_at_def)
  have nd: "nodes s (p # ps) = n # nodes s ps" by (simp add: nodes_def n(2))
  have "\<exists>s'. unload_all_from fuel' s2 = Inr s' \<and> plugins s' = None \<and> world s' = x \<and> fresh s' = fresh s2 \<and>
    (\<forall>a. heap s2 a = None \<longrightarrow> a \<notin> set ps \<longrightarrow> heap s' a = None) \<and>
    s_commands s' = fold (\<lambda>n. free_command (pl_library n)) (nodes s2 ps) (s_commands s2)"
  proof (rule Cons.IH)
    show "linked (heap s2) (plugins s2) ps" using n(4) p by (simp add: s2(1,2) del: fun_upd_apply)
    show "\<forall>a\<in>set ps. pl_loaded (the (heap s2 a))" using Cons.prems(3) p by (auto simp: s2)
    show "close_all (nodes s2 ps) (world s2) = Inr x" using x1(2) by (simp add: same s2)
  qed (use Cons.prems(2) n(6) in auto)
  then show ?case
    unfolding step nd same by (elim ex_forward) (auto simp: s2)
qed

lemma unload_all_ok:
  assumes "chain_ok s ps" "close_all (entries s ps) (world s) = Inr x"
  shows "\<exists>s'. unload_all_plugins s = Inr s' \<and> chain_ok s' [] \<and> world s' = x \<and>
    s_commands s' = fold (\<lambda>n. free_command (pl_library n)) (entries s ps) (s_commands s)"
proof -
  have "close_all (map content ns) y = close_all ns y" for ns :: "('a, 'b) node list" and y
    by (induction ns arbitrary: y) (auto simp: bindR_def split: sum.splits)
  then have c: "close_all (nodes s ps) (world s) = Inr x" using assms(2) by (simp add: entries_def)
  have f: "fold (\<lambda>n. free_command (pl_library n)) (map content ns) cs = fold (\<lambda>n. free_command (pl_library n)) ns cs"
    for ns :: "('a, 'b) node list" and cs :: "('c, 'a) command list"
    by (induction ns arbitrary: cs) auto
  obtain s' where s': "unload_all_plugins s = Inr s'" "plugins s' = None" "world s' = x" "fresh s' = fresh s"
    "\<forall>a. heap s a = None \<longrightarrow> a \<notin> set ps \<longrightarrow> heap s' a = None"
    "s_commands s' = fold (\<lambda>n. free_command (pl_library n)) (nodes s ps) (s_commands s)"
    using unload_all_from_close_all [of s ps "loop_fuel s" x] assms(1) c chain_length [OF assms(1)]
      chain_node [OF assms(1)]
    by (auto simp: chain_ok_def unload_all_plugins_def)
  moreover have "chain_ok s' []"
  proof -
    have "heap s' p = None" if "fresh s \<le> p" for p
    proof -
      have "heap s p = None" using that assms(1) by (simp add: chain_ok_def)
      moreover from this have "p \<notin> set ps" using chain_node [OF assms(1), of p] by auto
      ultimately show ?thesis using s'(5) by blast
    qed
    with s'(2,4) show ?thesis by (simp add: chain_ok_def)
  qed
  ultimately show ?thesis by (simp add: entries_def f)
qed

section \<open>Listing\<close>

lemma list_plugin_overflow: "list_plugin n = Inl BufferOverflow"
  by (simp add: list_plugin_def sprintf_arr_def split: option.splits)

lemma count_from_length:
  "linked (heap s) p ps \<Longrightarrow> length ps < fuel \<Longrightarrow> count_from fuel p s = Inr (length ps)"
proof (induction ps arbitrary: p fuel)
  case (Cons a ps)
  then show ?case by (cases fuel) (auto simp: node_at_def split: option.splits)
qed simp

lemma list_plugins_overflow:
  assumes "chain_ok s ps" "ps \<noteq> []"
  shows "list_plugins s = Inl BufferOverflow"
proof -
  obtain p qs where ps: "ps = p # qs" using assms(2) by (cases ps) auto
  have "count_plugins s = Inr (length ps)"
    using assms(1) chain_length [OF assms(1)] by (simp add: count_plugins_def count_from_length chain_ok_def)
  moreover have "plugins s = Some p" using assms(1) ps by (simp add: chain_ok_def)
  moreover obtain n where "heap s p = Some n" "pl_loaded n" using assms(1) ps by (auto simp: chain_ok_def)
  ultimately show ?thesis
    using ps
    by (simp add: list_plugins_def loop_fuel_def live_at_def node_at_def list_plugin_overflow)
qed

section \<open>The head read before the lock\<close>

text \<open>\<open>execute_plugin_chain\<close> reads \<open>plugins\<close>, then waits for the lock. If the thread that holds it
  unloads the first plugin, the loop starts at a freed node.\<close>

lemma stale_head:
  assumes "chain_ok s (p # ps)" "names_plugin (the (heap s p)) name"
    and "unload_plugin_by_name name s = Inr (0, s')" "0 < fuel"
  shows "execute_from fuel (plugins s) rec s' = Inl UseAfterFree"
proof -
  define n where "n = the (heap s p)"
  have f: "find (\<lambda>a. names_plugin (the (heap s a)) name) (p # ps) = Some p" using assms(2) by simp
  have hp: "heap s p = Some n" "pl_loaded n" using chain_node [OF assms(1), of p] by (simp_all add: n_def)
  have "\<exists>x. pfn_close_plugin n (pl_state n) (world s) = Inr x"
    using assms(3) hp by (auto simp: unload_plugin_by_name_def locate_ok [OF assms(1)] assms(2) [folded n_def] n_def [symmetric]
        unload_plugin_def live_at_def node_at_def)
  then obtain x where "pfn_close_plugin n (pl_state n) (world s) = Inr x" ..
  from unload_by_name_ok [OF assms(1) f n_def this] have "heap s' p = None" using assms(3) by auto
  moreover have "plugins s = Some p" using assms(1) by (simp add: chain_ok_def)
  ultimately show ?thesis
    using assms(4) by (cases fuel) (simp_all add: execute_plugin_def live_at_def node_at_def)
qed

end
