(* ===== verification/Plugin_Filter.thy ===== *)
theory Plugin_Filter
imports Domain_Mask Monitor_Record Plugin_Chain
begin

unbundle bit_operations_syntax

text \<open>
  The plugin \<open>plugins/filter_domains.c\<close>: the mask it keeps, the decision on a record, and its commands
  \<open>update-mask\<close> and \<open>print-mask\<close>.
\<close>

section \<open>Operations\<close>

text \<open>\<open>plugin_config\<close> goes to \<open>strdup\<close> unchecked.\<close>

definition filter_open :: "string option \<Rightarrow> 32 word res" where
  "filter_open plugin_config =
     (case plugin_config of None \<Rightarrow> Inl NullDeref | Some l \<Rightarrow> Inr (domain_list_to_bit_mask l))"

definition filter_process :: "monitor_record \<Rightarrow> 32 word \<Rightarrow> int res" where
  "filter_process data domain_bit_flags =
     bindR (domain_bit_flag (mr_dom_type data)) (\<lambda>flag.
       Inr (if domain_bit_flags AND flag = 0 then PLUGIN_DROP_DATA else PLUGIN_ACCEPT_DATA))"

text \<open>The loop \<open>for (j = 0; m; j++)\<close> of \<open>print-mask\<close>; \<open>out\<close> is what has been printed. A name is read
  at \<open>domains_names[j]\<close>.\<close>

function print_mask_from :: "32 word \<Rightarrow> nat \<Rightarrow> string \<Rightarrow> string res" where
  "print_mask_from m j out =
     (if m = 0 then Inr out
      else if j \<ge> 32 then Inl BadShift
      else let i = push_bit j 1
           in if i AND m \<noteq> 0
              then if j < length domains_names
                   then let m' = m AND NOT i
                        in print_mask_from m' (Suc j) (out @ domains_names ! j @ (if m' \<noteq> 0 then '','' else []))
                   else Inl OutOfBounds
              else print_mask_from m (Suc j) out)"
  by pat_completeness auto
termination
  by (relation "measure (\<lambda>(_, j, _). 32 - j)") auto

declare print_mask_from.simps [simp del]

definition print_mask :: "32 word \<Rightarrow> string res" where
  "print_mask m = bindR (print_mask_from m 0 ''domain_mask:'') (\<lambda>out. Inr (out @ [CHR 0x0A]))"

text \<open>\<open>plugin_command\<close>: the new mask and what is printed. \<open>args\<close> ends with a NULL, so looking at
  \<open>args[0]\<close> and \<open>args[1]\<close> looks at the first elements of the list, if any.\<close>

definition filter_command :: "string list \<Rightarrow> 32 word \<Rightarrow> (32 word \<times> string) res" where
  "filter_command args m =
     (case args of
        [] \<Rightarrow> Inr (m, [])
      | a0 # r \<Rightarrow>
          if a0 = ''update-mask'' \<and> r \<noteq> [] then Inr (domain_list_to_bit_mask (hd r), [])
          else if a0 = ''print-mask'' then bindR (print_mask m) (\<lambda>out. Inr (m, out))
          else Inr (m, []))"

section \<open>The decision\<close>

lemma filter_process_eq:
  assumes "0 \<le> mr_dom_type data" "mr_dom_type data < 32"
  shows "filter_process data m =
    Inr (if bit m (nat (mr_dom_type data)) then PLUGIN_ACCEPT_DATA else PLUGIN_DROP_DATA)"
  using assms and_push_bit_eq_0 [of m "nat (mr_dom_type data)"]
  by (simp add: filter_process_def domain_bit_flag_def)

section \<open>print-mask\<close>

text \<open>The bits of \<open>m\<close> from \<open>j\<close> on, as names.\<close>

definition mask_names :: "32 word \<Rightarrow> nat \<Rightarrow> string list" where
  "mask_names m j = map (\<lambda>i. domains_names ! i) (filter (bit m) [j..<19])"

lemma mask_names_Suc:
  "j < 19 \<Longrightarrow> mask_names m j = (if bit m j then [domains_names ! j] else []) @ mask_names m (Suc j)"
  by (simp add: mask_names_def upt_conv_Cons)

lemma mask_names_cong: "\<forall>i\<ge>j. bit m i = bit m' i \<Longrightarrow> mask_names m j = mask_names m' j"
  by (auto simp: mask_names_def intro!: arg_cong [of _ _ "map _"] filter_cong)

lemma mask_names_Nil: "\<forall>i<j. \<not> bit m i \<Longrightarrow> \<forall>i\<ge>19. \<not> bit m i \<Longrightarrow> mask_names m j = [] \<longleftrightarrow> m = 0"
proof -
  assume "\<forall>i<j. \<not> bit m i" "\<forall>i\<ge>19. \<not> bit m i"
  then have "(\<forall>x\<in>{j..<19}. \<not> bit m x) \<longleftrightarrow> (\<forall>x. \<not> bit m x)"
    by (metis atLeastLessThan_iff not_less)
  also have "\<dots> \<longleftrightarrow> m = 0" by (auto intro: bit_word_eqI)
  finally show ?thesis by (simp add: mask_names_def filter_empty_conv)
qed

lemma and_not_bit: "bit (m AND NOT (push_bit j 1)) i \<longleftrightarrow> bit m i \<and> i \<noteq> j" for m :: "32 word"
  by (auto simp: bit_simps dest: bit_imp_le_length)

lemma join_Cons: "join c (t # ts) = t @ (if ts \<noteq> [] then [c] else []) @ join c ts"
  by (cases ts) auto

lemma print_mask_from_names:
  assumes "\<forall>i<j. \<not> bit m i" "\<forall>i\<ge>19. \<not> bit m i" "j \<le> 19"
  shows "print_mask_from m j out = Inr (out @ join CHR '','' (mask_names m j))"
  using assms
proof (induction m j out rule: print_mask_from.induct)
  case (1 m j out)
  show ?case
  proof (cases "m = 0")
    case True
    then show ?thesis by (subst print_mask_from.simps) (simp add: mask_names_def)
  next
    case False
    have "\<exists>i. bit m i"
    proof (rule ccontr)
      assume "\<nexists>i. bit m i"
      then have "m = 0" by (auto intro: bit_word_eqI)
      with False show False ..
    qed
    then obtain i where i: "bit m i" ..
    with "1.prems" have "j \<le> i" "i < 19" by (metis not_less)+
    then have j: "j < 19" "\<not> 32 \<le> j" by simp_all
    have test: "push_bit j 1 AND m \<noteq> 0 \<longleftrightarrow> bit m j"
      using and_push_bit_eq_0 [of m j] by (simp add: ac_simps)
    show ?thesis
    proof (cases "bit m j")
      case True
      define m' where "m' = m AND NOT (push_bit j 1)"
      have m'_eq: "m AND NOT (2 ^ j) = m'" by (simp add: m'_def)
      have bits: "bit m' i \<longleftrightarrow> bit m i \<and> i \<noteq> j" for i unfolding m'_def by (rule and_not_bit)
      have m': "\<forall>i<Suc j. \<not> bit m' i" "\<forall>i\<ge>19. \<not> bit m' i"
        using "1.prems" by (auto simp: bits less_Suc_eq)
      have names: "mask_names m j = domains_names ! j # mask_names m' (Suc j)"
        using j True mask_names_cong [of "Suc j" m m']
        by (simp add: mask_names_Suc bits)
      have IH: "print_mask_from m' (Suc j) o' = Inr (o' @ join CHR '','' (mask_names m' (Suc j)))"
        if "o' = out @ domains_names ! j @ (if m' \<noteq> 0 then '','' else [])" for o'
        using "1.IH" (1) [OF False j(2) refl _ _ m'_def] m' j True test that by simp
      show ?thesis
        using False j True test IH [OF refl] mask_names_Nil [OF m']
        by (subst print_mask_from.simps) (simp add: Let_def m'_eq names join_Cons)
    next
      case False': False
      have "print_mask_from m (Suc j) out = Inr (out @ join CHR '','' (mask_names m (Suc j)))"
        using "1.IH" (2) [OF False j(2) refl] test False' "1.prems" j by (auto simp: less_Suc_eq)
      then show ?thesis
        using False j False' test
        by (subst print_mask_from.simps) (simp add: Let_def mask_names_Suc)
    qed
  qed
qed

lemma print_mask_ok:
  "\<forall>i\<ge>19. \<not> bit m i \<Longrightarrow> print_mask m = Inr (''domain_mask:'' @ join CHR '','' (mask_names m 0) @ [CHR 0x0A])"
  by (simp add: print_mask_def print_mask_from_names)

lemma print_mask_roundtrip:
  assumes "\<forall>i\<ge>19. \<not> bit m i"
  shows "domain_list_to_bit_mask (join CHR '','' (mask_names m 0)) = m"
proof (rule bit_word_eqI)
  fix i assume "i < LENGTH(32)"
  have names: "\<forall>t\<in>set (mask_names m 0). t \<in> set domains_names" by (auto simp: mask_names_def)
  then have toks: "strtok_all '','' (join CHR '','' (mask_names m 0)) = mask_names m 0"
    using domains_names_tokens by (intro strtok_all_join) auto
  have "''ALL'' \<notin> set (mask_names m 0)" using names ALL_not_domain by metis
  moreover have "i < 19 \<and> domains_names ! i \<in> set (mask_names m 0) \<longleftrightarrow> bit m i"
    using assms distinct_domains_names
    by (auto simp: mask_names_def nth_eq_iff_index_eq not_less [symmetric] image_iff)
  ultimately show "bit (domain_list_to_bit_mask (join CHR '','' (mask_names m 0))) i \<longleftrightarrow> bit m i"
    by (simp add: bit_domain_mask toks)
qed

text \<open>A bit that stands for no domain, as \<open>ALL\<close> sets it, sends \<open>print-mask\<close> past the table.\<close>

lemma print_mask_from_out_of_bounds:
  assumes "\<forall>i<j. \<not> bit m i" "bit m k" "19 \<le> k"
  shows "print_mask_from m j out = Inl OutOfBounds"
  using assms
proof (induction m j out rule: print_mask_from.induct)
  case (1 m j out)
  have m: "m \<noteq> 0" using "1.prems" by auto
  have "j \<le> k" using "1.prems" by (meson not_less)
  then have j: "\<not> 32 \<le> j" using "1.prems"(2) bit_imp_le_length [of m k] by simp
  have test: "push_bit j 1 AND m \<noteq> 0 \<longleftrightarrow> bit m j"
    using and_push_bit_eq_0 [of m j] by (simp add: ac_simps)
  show ?case
  proof (cases "bit m j")
    case True
    show ?thesis
    proof (cases "j < 19")
      case j19: True
      define m' where "m' = m AND NOT (push_bit j 1)"
      have m'_eq: "m AND NOT (2 ^ j) = m'" by (simp add: m'_def)
      have bits: "bit m' i \<longleftrightarrow> bit m i \<and> i \<noteq> j" for i unfolding m'_def by (rule and_not_bit)
      have "print_mask_from m' (Suc j) o' = Inl OutOfBounds"
        if "o' = out @ domains_names ! j @ (if m' \<noteq> 0 then '','' else [])" for o'
        using "1.IH" (1) [OF m j refl _ _ m'_def] "1.prems" j19 True test that
        by (simp add: bits less_Suc_eq)
      then show ?thesis
        using m j True test j19
        by (subst print_mask_from.simps) (simp add: Let_def m'_eq)
    next
      case False
      with m j True test show ?thesis by (subst print_mask_from.simps) (simp add: Let_def)
    qed
  next
    case False
    have "print_mask_from m (Suc j) out = Inl OutOfBounds"
      using "1.IH" (2) [OF m j refl] test False "1.prems" by (auto simp: less_Suc_eq)
    then show ?thesis
      using m j False test by (subst print_mask_from.simps) (simp add: Let_def)
  qed
qed

lemma print_mask_out_of_bounds: "bit m k \<Longrightarrow> 19 \<le> k \<Longrightarrow> print_mask m = Inl OutOfBounds"
  by (simp add: print_mask_def print_mask_from_out_of_bounds)

end
