(* ===== verification/Plugin_Output.thy ===== *)
theory Plugin_Output
imports Monitor_Record C_Stdio Plugin_Chain
begin

text \<open>
  The output plugins \<open>plugins/output_csv.c\<close>, \<open>plugins/output_table.c\<close> and \<open>plugins/sample_plugin.c\<close>
  (\<open>output_csv.c\<close> without the \<open>fflush\<close>), and what they use of \<open>printf\<close>.
\<close>

section \<open>printf\<close>

text \<open>\<open>%.<k>f\<close>: the value, which is exact, rounded to \<open>k\<close> decimals, ties to even.\<close>

definition show_fixed :: "nat \<Rightarrow> rat \<Rightarrow> string" where
  "show_fixed k q =
     (let n = nat (round_half_even (\<bar>q\<bar> * 10 ^ k)); frac = show_nat (n mod 10 ^ k)
      in (if q < 0 then ''-'' else []) @ show_nat (n div 10 ^ k) @ ''.'' @
         replicate (k - length frac) CHR ''0'' @ frac)"

text \<open>\<open>%<w>s\<close> and \<open>%-<w>s\<close>.\<close>

definition pad_left :: "nat \<Rightarrow> string \<Rightarrow> string" where
  "pad_left w s = replicate (w - length s) CHR '' '' @ s"

definition pad_right :: "nat \<Rightarrow> string \<Rightarrow> string" where
  "pad_right w s = s @ replicate (w - length s) CHR '' ''"

section \<open>process\_data\<close>

text \<open>\<open>names[i]\<close> for an index from a record.\<close>

definition name_at :: "string list \<Rightarrow> int \<Rightarrow> string res" where
  "name_at names i =
     (if 0 \<le> i \<and> i < int (length names) then Inr (names ! nat i) else Inl OutOfBounds)"

text \<open>The strings a record contributes to a line: facility, device, domain, operation, \<open>s1\<close>, \<open>s2\<close>.\<close>

definition line_strings ::
  "monitor_record \<Rightarrow> (string \<times> string \<times> string \<times> string \<times> string \<times> string) res" where
  "line_strings data =
     bindR (arr_string STR_LEN (mr_facility data)) (\<lambda>facility.
     bindR (arr_string DEVICE_LEN (mr_device data)) (\<lambda>device.
     bindR (name_at domains_names (mr_dom_type data)) (\<lambda>dom.
     bindR (name_at ops_names (mr_op_type data)) (\<lambda>op.
     bindR (arr_string PATH_MAX (mr_s1 data)) (\<lambda>s1.
     bindR (arr_string STR_LEN (mr_s2 data)) (\<lambda>s2.
       Inr (facility, device, dom, op, s1, s2)))))))"

definition csv_fields :: "monitor_record \<Rightarrow> string list res" where
  "csv_fields data =
     bindR (line_strings data) (\<lambda>(facility, device, dom, op, s1, s2).
       Inr [facility, device, show_int (mr_timestamp data), show_fixed 6 (mr_elapsed_time data),
            show_int (mr_pid data), dom, op, show_int (mr_error_code data), show_int (mr_fd data),
            show_nat (unat (mr_bytes_transferred data)), s1, s2])"

text \<open>The format \<open>"%s,%s,%d,%f,%d,%s,%s,%d,%d,%zu,%s,%s\n"\<close>.\<close>

definition csv_process :: "monitor_record \<Rightarrow> string \<Rightarrow> (int \<times> string) res" where
  "csv_process data out =
     bindR (csv_fields data) (\<lambda>fs. Inr (PLUGIN_ACCEPT_DATA, out @ join CHR '','' fs @ [newline]))"

text \<open>\<open>sample_plugin\<close> prints with the same format.\<close>

definition sample_process :: "monitor_record \<Rightarrow> string \<Rightarrow> (int \<times> string) res" where
  "sample_process data out =
     bindR (line_strings data) (\<lambda>(facility, device, dom, op, s1, s2).
       Inr (PLUGIN_ACCEPT_DATA, out @ facility @ '','' @ device @ '','' @ show_int (mr_timestamp data) @ '','' @
         show_fixed 6 (mr_elapsed_time data) @ '','' @ show_int (mr_pid data) @ '','' @ dom @ '','' @ op @ '','' @
         show_int (mr_error_code data) @ '','' @ show_int (mr_fd data) @ '','' @
         show_nat (unat (mr_bytes_transferred data)) @ '','' @ s1 @ '','' @ s2 @ [newline]))"

lemma sample_process_csv: "sample_process data out = csv_process data out"
  by (simp add: sample_process_def csv_process_def csv_fields_def bindR_assoc split_def)

text \<open>\<open>output_table.c\<close>: \<open>ln\<close> is the static line counter.\<close>

definition table_header :: string where
  "table_header =
     pad_left 10 ''FACILITY'' @ '' '' @ pad_left 10 ''DEV'' @ '' '' @ pad_left 10 ''TS.'' @ '' '' @
     pad_left 8 ''ELAPSED'' @ '' '' @ pad_left 5 ''PID'' @ '' '' @ pad_left 20 ''DOMAIN'' @ '' '' @
     pad_right 20 ''OPERATION'' @ '' '' @ pad_left 3 ''ERR'' @ '' '' @ pad_left 5 ''FD'' @ '' '' @
     pad_left 8 ''XFER'' @ '' '' @ ''PARM'' @ [newline]"

definition table_line :: "monitor_record \<Rightarrow> string res" where
  "table_line data =
     bindR (line_strings data) (\<lambda>(facility, device, dom, op, s1, s2).
       Inr (pad_left 10 facility @ '' '' @ pad_left 10 device @ '' '' @
            pad_left 10 (show_int (mr_timestamp data)) @ '' '' @
            pad_left 8 (show_fixed 4 (mr_elapsed_time data)) @ '' '' @
            pad_left 5 (show_int (mr_pid data)) @ '' '' @ pad_left 20 dom @ '' '' @
            pad_right 20 op @ '' '' @ pad_left 3 (show_int (mr_error_code data)) @ '' '' @
            pad_left 5 (show_int (mr_fd data)) @ '' '' @
            pad_left 8 (show_nat (unat (mr_bytes_transferred data))) @ '' '' @ s1 @ '' '' @ s2 @ [newline]))"

definition table_process :: "monitor_record \<Rightarrow> int \<times> string \<Rightarrow> (int \<times> int \<times> string) res" where
  "table_process data st =
     (case st of (line_no, out) \<Rightarrow>
        let out1 = (if line_no mod 4 = 0 then out @ [newline] else out);
            out2 = (if line_no mod 16 = 0 then out1 @ table_header else out1)
        in bindR (table_line data) (\<lambda>l. Inr (PLUGIN_ACCEPT_DATA, int32 (line_no + 1), out2 @ l)))"

section \<open>Which records can be printed\<close>

definition printable :: "monitor_record \<Rightarrow> bool" where
  "printable r \<longleftrightarrow> terminated_record r \<and>
     0 \<le> mr_dom_type r \<and> mr_dom_type r < int (length domains_names) \<and>
     0 \<le> mr_op_type r \<and> mr_op_type r < int (length ops_names)"

lemma line_strings_printable:
  "printable r \<Longrightarrow> line_strings r = Inr (mr_facility r, mr_device r, domains_names ! nat (mr_dom_type r),
    ops_names ! nat (mr_op_type r), mr_s1 r, mr_s2 r)"
  by (simp add: line_strings_def printable_def terminated_record_def name_at_def)

lemma line_strings_defined:
  "defined (line_strings r) \<longleftrightarrow> length (mr_facility r) < STR_LEN \<and> length (mr_device r) < DEVICE_LEN \<and>
    0 \<le> mr_dom_type r \<and> mr_dom_type r < int (length domains_names) \<and>
    0 \<le> mr_op_type r \<and> mr_op_type r < int (length ops_names) \<and>
    length (mr_s1 r) < PATH_MAX \<and> length (mr_s2 r) < STR_LEN"
  by (auto simp: line_strings_def arr_string_def name_at_def)

lemma csv_process_printable: "printable r \<Longrightarrow> \<exists>l. csv_process r out = Inr (PLUGIN_ACCEPT_DATA, out @ l)"
  by (simp add: csv_process_def csv_fields_def line_strings_printable)

lemma table_process_printable:
  "printable r \<Longrightarrow> \<exists>l. table_process r (line_no, out) = Inr (PLUGIN_ACCEPT_DATA, int32 (line_no + 1), out @ l)"
  by (auto simp: table_process_def table_line_def line_strings_printable Let_def)

section \<open>The CSV line\<close>

lemma show_nat_no_comma: "CHR '','' \<notin> set (show_nat n)"
  using show_nat_digits [of n] by (auto simp: is_digit_def)

lemma show_int_no_comma: "CHR '','' \<notin> set (show_int i)"
  using show_nat_no_comma by (auto simp: show_int_def)

lemma show_fixed_no_comma: "CHR '','' \<notin> set (show_fixed k q)"
  using show_nat_no_comma by (auto simp: show_fixed_def Let_def)

lemma names_no_comma:
  "n \<in> set domains_names \<Longrightarrow> CHR '','' \<notin> set n" "n \<in> set ops_names \<Longrightarrow> CHR '','' \<notin> set n"
  by (auto simp: domains_names_eq ops_names_eq)

text \<open>Readers of the numbers: decimal digits behind an optional sign, and the same with decimals.\<close>

definition unsigned_part :: "string \<Rightarrow> string" where
  "unsigned_part s = (if s \<noteq> [] \<and> hd s = CHR ''-'' then tl s else s)"

definition int_value :: "string \<Rightarrow> int" where
  "int_value s = (if unsigned_part s = s then 1 else - 1) * int (digits_value (unsigned_part s))"

definition fixed_value :: "string \<Rightarrow> rat" where
  "fixed_value s =
     (let t = unsigned_part s; a = takeWhile (\<lambda>c. c \<noteq> CHR ''.'') t; b = drop (Suc (length a)) t
      in (if t = s then 1 else - 1) * (of_nat (digits_value a) + of_nat (digits_value b) / 10 ^ length b))"

lemma unsigned_part_minus [simp]: "unsigned_part (CHR ''-'' # s) = s"
  by (simp add: unsigned_part_def)

lemma unsigned_part_show_nat [simp]: "unsigned_part (show_nat n @ s) = show_nat n @ s"
proof -
  obtain c t where s: "show_nat n = c # t" by (cases "show_nat n") auto
  then have "is_digit c" using show_nat_digits [of n] by simp
  with s show ?thesis by (auto simp: unsigned_part_def is_digit_def)
qed

lemma int_value_show_int [simp]: "int_value (show_int i) = i"
  using unsigned_part_show_nat [of "nat i" "[]"] by (simp add: int_value_def show_int_def)

lemma digits_value_zeros: "digits_value (replicate m CHR ''0'' @ s) = digits_value s"
  by (induction m) (simp_all add: digits_value_def digit_val_def)

lemma takeWhile_show_nat: "takeWhile (\<lambda>c. c \<noteq> CHR ''.'') (show_nat n @ CHR ''.'' # s) = show_nat n"
proof -
  have "CHR ''.'' \<notin> set (show_nat n)" using show_nat_digits [of n] by (auto simp: is_digit_def)
  then show ?thesis by (simp add: takeWhile_tail) (auto simp: takeWhile_eq_all_conv)
qed

text \<open>What is printed with \<open>k\<close> decimals is the value up to half a unit of the last one.\<close>

lemma fixed_value_show_fixed:
  assumes "0 < k"
  shows "\<bar>fixed_value (show_fixed k q) - q\<bar> \<le> 1 / (2 * 10 ^ k)"
proof -
  define n where "n = nat (round_half_even (\<bar>q\<bar> * 10 ^ k))"
  define body where "body = show_nat (n div 10 ^ k) @ ''.'' @
    replicate (k - length (show_nat (n mod 10 ^ k))) CHR ''0'' @ show_nat (n mod 10 ^ k)"
  define v :: rat where "v = of_nat n / 10 ^ k"
  have len: "length (show_nat (n mod 10 ^ k)) \<le> k"
    using length_show_nat [of "n mod 10 ^ k" k] assms by simp
  have "of_nat (n div 10 ^ k) + of_nat (n mod 10 ^ k) / 10 ^ k = v"
  proof -
    have "of_nat n = (of_nat (n div 10 ^ k * 10 ^ k + n mod 10 ^ k) :: rat)" by (simp only: div_mult_mod_eq)
    also have "\<dots> = of_nat (n div 10 ^ k) * 10 ^ k + of_nat (n mod 10 ^ k)" by simp
    finally show ?thesis by (simp add: v_def add_divide_distrib)
  qed
  then have printed: "fixed_value (show_fixed k q) = (if q < 0 then - 1 else 1) * v"
    using len unsigned_part_show_nat [of "n div 10 ^ k"]
    by (auto simp: fixed_value_def show_fixed_def Let_def n_def [symmetric] takeWhile_show_nat digits_value_zeros
        simp flip: append_assoc)
  have "of_nat n = (of_int (round_half_even (\<bar>q\<bar> * 10 ^ k)) :: rat)"
    using round_half_even_nonneg [of "\<bar>q\<bar> * 10 ^ k"] by (simp add: n_def)
  then have "\<bar>v * 10 ^ k - \<bar>q\<bar> * 10 ^ k\<bar> \<le> 1 / 2"
    using round_half_even_error [of "\<bar>q\<bar> * 10 ^ k"] by (simp add: v_def)
  then have "\<bar>v - \<bar>q\<bar>\<bar> * 10 ^ k \<le> 1 / 2"
    by (simp add: abs_mult flip: left_diff_distrib)
  then have "\<bar>v - \<bar>q\<bar>\<bar> \<le> 1 / (2 * 10 ^ k)" by (simp add: field_simps)
  then show ?thesis unfolding printed by (auto simp: abs_le_iff)
qed

text \<open>The fields of the line of a record can be read back, as long as its strings have no comma.\<close>

lemma csv_line_fields:
  assumes "printable r" "\<forall>s\<in>{mr_facility r, mr_device r, mr_s1 r, mr_s2 r}. CHR '','' \<notin> set s"
  shows "\<exists>fs line. csv_fields r = Inr fs \<and> csv_process r out = Inr (PLUGIN_ACCEPT_DATA, out @ line @ [newline]) \<and>
    split_line CHR '','' line = fs \<and> length fs = 12"
proof -
  define fs where "fs = [mr_facility r, mr_device r, show_int (mr_timestamp r),
    show_fixed 6 (mr_elapsed_time r), show_int (mr_pid r), domains_names ! nat (mr_dom_type r),
    ops_names ! nat (mr_op_type r), show_int (mr_error_code r), show_int (mr_fd r),
    show_nat (unat (mr_bytes_transferred r)), mr_s1 r, mr_s2 r]"
  have fields: "csv_fields r = Inr fs"
    using assms(1) by (simp add: csv_fields_def line_strings_printable fs_def)
  have d: "domains_names ! nat (mr_dom_type r) \<in> set domains_names"
    "ops_names ! nat (mr_op_type r) \<in> set ops_names"
    using assms(1) by (simp_all add: printable_def nat_less_iff)
  have "\<forall>t\<in>set fs. CHR '','' \<notin> set t"
    using assms(2) names_no_comma(1) [OF d(1)] names_no_comma(2) [OF d(2)]
    by (simp add: fs_def show_nat_no_comma show_int_no_comma show_fixed_no_comma)
  then have "split_line CHR '','' (join CHR '','' fs) = fs"
    by (intro split_line_join) (simp_all add: fs_def)
  with fields show ?thesis by (simp add: csv_process_def) (simp add: fs_def)
qed

end
