(* ===== verification/Plugin_Influx.thy ===== *)
theory Plugin_Influx
imports Plugin_Output
begin

text \<open>
  The plugin \<open>plugins/output_influxdb.c\<close>: the escaping of tag values, the line it posts and what it
  answers. libcurl is a parameter: whether \<open>curl_easy_init\<close> gives a handle and whether
  \<open>curl_easy_perform\<close> succeeds, in a world \<open>'x\<close>.
\<close>

section \<open>copy\_escaped\_tag\_value\<close>

definition special :: "char \<Rightarrow> bool" where
  "special ch \<longleftrightarrow> ch = CHR '' '' \<or> ch = CHR '','' \<or> ch = CHR ''=''"

definition backslash :: char where "backslash = CHR 0x5C"

text \<open>The loop over \<open>src\<close>. \<open>last_ch\<close> is not initialised, which is \<open>None\<close>, and it is read for a special
  character only. \<open>dest\<close> has \<open>dest_len\<close> bytes, at least 2, and was zeroed.\<close>

fun escape_from :: "nat \<Rightarrow> string \<Rightarrow> char option \<Rightarrow> string \<Rightarrow> string res" where
  "escape_from dest_len [] last_ch dest = Inr dest"
| "escape_from dest_len (ch # src) last_ch dest =
     (if special ch \<and> last_ch = None then Inl UninitRead
      else if special ch \<and> last_ch = Some ch then escape_from dest_len src last_ch dest
      else if ch = newline then Inr dest
      else if ch = backslash then escape_from dest_len src (Some ch) dest
      else if special ch \<and> \<not> length dest < dest_len - 2 then Inr dest
      else let dest1 = (if special ch then dest @ [backslash] else dest)
           in if length dest1 < dest_len - 1
              then escape_from dest_len src (Some ch) (dest1 @ [ch])
              else Inr dest1)"

definition copy_escaped_tag_value :: "string \<Rightarrow> nat \<Rightarrow> string res" where
  "copy_escaped_tag_value src dest_len = escape_from dest_len src None []"

section \<open>is\_all\_whitespace\<close>

fun is_all_whitespace :: "string \<Rightarrow> bool" where
  "is_all_whitespace [] = True"
| "is_all_whitespace (ch # s) =
     (if ch \<noteq> CHR '' '' \<or> ch \<noteq> CHR 0x0A \<or> ch \<noteq> CHR 0x0D \<or> ch \<noteq> CHR 0x09 then False
      else is_all_whitespace s)"

section \<open>process\_data and close\_plugin\<close>

definition measure_name :: string where "measure_name = ''iometrics''"
definition influx_url :: string where "influx_url = ''http://localhost:8086/write?db=testDB''"

definition escaped_or_empty :: "string \<Rightarrow> nat \<Rightarrow> string res" where
  "escaped_or_empty s n =
     (if length s > 0 \<and> \<not> is_all_whitespace s then copy_escaped_tag_value s n else Inr [])"

definition or_default :: "string \<Rightarrow> string \<Rightarrow> string" where
  "or_default s d = (if s \<noteq> [] then s else d)"

definition tag :: "string \<Rightarrow> string \<Rightarrow> string" where
  "tag k v = k @ ''='' @ v"

definition quoted_field :: "string \<Rightarrow> string \<Rightarrow> string" where
  "quoted_field k v = k @ ''='' @ [CHR 0x22] @ v @ [CHR 0x22]"

text \<open>\<open>snprintf (postdata, 1024, ...)\<close>.\<close>

definition influx_postdata :: "monitor_record \<Rightarrow> string res" where
  "influx_postdata data =
     bindR (line_strings data) (\<lambda>(facility, device, dom, op, s1, s2).
     bindR (arr_string HOSTNAME_LEN (mr_hostname data)) (\<lambda>hostname.
     bindR (escaped_or_empty s1 PATH_MAX) (\<lambda>s1_data.
     bindR (escaped_or_empty s2 STR_LEN) (\<lambda>s2_data.
       Inr (take 1023
         (join CHR '','' [measure_name, tag ''facility'' facility, tag ''dom_tag'' dom, tag ''op_tag'' op] @
          '' '' @
          join CHR '',''
            [quoted_field ''device'' (or_default device ''none''), quoted_field ''dom_type'' dom,
             quoted_field ''hostname'' hostname, quoted_field ''op_type'' op,
             quoted_field ''s1'' (or_default s1_data ''NULL''), quoted_field ''s2'' (or_default s2_data ''NULL''),
             tag ''timestamp'' (show_int (mr_timestamp data)),
             tag ''elapsed_time'' (show_fixed 6 (mr_elapsed_time data)),
             tag ''pid'' (show_int (mr_pid data)), tag ''error_code'' (show_int (mr_error_code data)),
             tag ''fd'' (show_int (mr_fd data)),
             tag ''bytes_transferred'' (show_nat (unat (mr_bytes_transferred data)))]))))))"

definition influx_process ::
  "('x \<Rightarrow> bool \<times> 'x) \<Rightarrow> (string \<Rightarrow> string \<Rightarrow> 'x \<Rightarrow> bool \<times> 'x) \<Rightarrow> monitor_record \<Rightarrow> string \<times> 'x \<Rightarrow>
     (int \<times> string \<times> 'x) res" where
  "influx_process curl_easy_init curl_easy_perform data = (\<lambda>(out, x).
     (case curl_easy_init x of (curl_handle, x1) \<Rightarrow>
        if curl_handle
        then bindR (influx_postdata data) (\<lambda>postdata.
               let out1 = out @ postdata @ [newline]   \<comment> \<open>\<open>puts\<close>\<close>
               in case curl_easy_perform influx_url postdata x1 of (curle_ok, x2) \<Rightarrow>
                    Inr (if curle_ok then PLUGIN_ACCEPT_DATA else PLUGIN_REFUSE_DATA, out1, x2))
        else Inr (PLUGIN_REFUSE_DATA, out, x1)))"

text \<open>\<open>url\<close> points to a string literal, since the \<open>strdup\<close> of \<open>open_plugin\<close> is commented out, and
  \<open>close_plugin\<close> frees it.\<close>

definition influx_close :: "'x \<Rightarrow> 'x res" where
  "influx_close x = Inl BadFree"

section \<open>Escaped values\<close>

text \<open>A value InfluxDB's line protocol accepts as a tag value: special characters only behind a
  backslash, a backslash only before one, no newline.\<close>

fun escaped :: "string \<Rightarrow> bool" where
  "escaped [] = True"
| "escaped (c # r) =
     (if c = backslash then (case r of [] \<Rightarrow> False | x # r' \<Rightarrow> special x \<and> escaped r')
      else \<not> special c \<and> c \<noteq> newline \<and> escaped r)"

lemma special_simps [simp]: "\<not> special backslash" "\<not> special newline" "special c \<Longrightarrow> c \<noteq> newline"
  "special c \<Longrightarrow> c \<noteq> backslash"
  by (auto simp: special_def backslash_def newline_def)

lemma escaped_append: "escaped d \<Longrightarrow> escaped (d @ e) = escaped e"
proof (induction d rule: escaped.induct)
  case (2 c r)
  show ?case
  proof (cases "c = backslash")
    case True
    with 2 show ?thesis by (cases r) auto
  next
    case False
    with 2 show ?thesis by simp
  qed
qed simp

text \<open>One round of the loop on a special character that is not skipped, and on any other one.\<close>

lemma escape_from_special:
  assumes "special ch" "y \<noteq> ch"
  shows "escape_from n (ch # src) (Some y) dest =
    (if length dest < n - 2 then escape_from n src (Some ch) (dest @ [backslash, ch]) else Inr dest)"
  using assms by (auto simp: Let_def)

lemma escape_from_plain:
  assumes "\<not> special ch" "ch \<noteq> newline" "ch \<noteq> backslash"
  shows "escape_from n (ch # src) l dest =
    (if length dest < n - 1 then escape_from n src (Some ch) (dest @ [ch]) else Inr dest)"
  using assms by (simp add: Let_def)

text \<open>What the loop leaves is always such a value and always fits with its NUL.\<close>

lemma escape_from_ok:
  assumes "escape_from n src l dest = Inr d" "escaped dest" "length dest < n" "2 \<le> n"
  shows "escaped d \<and> length d < n"
  using assms
proof (induction src arbitrary: l dest)
  case (Cons ch src)
  show ?case
  proof (cases "special ch")
    case True
    then have sp: "ch \<noteq> newline" "ch \<noteq> backslash" by auto
    show ?thesis
    proof (cases "l = Some ch \<or> l = None")
      case skip: True
      with True Cons.prems have "escape_from n src l dest = Inr d" by auto
      with Cons.IH [OF this] Cons.prems show ?thesis by simp
    next
      case False
      then obtain y where y: "l = Some y" "y \<noteq> ch" by auto
      have esc: "escaped (dest @ [backslash, ch])"
        using True Cons.prems(2) by (simp add: escaped_append)
      show ?thesis
        using Cons.prems esc Cons.IH [of "Some ch" "dest @ [backslash, ch]"]
        unfolding y(1) escape_from_special [OF True y(2)] by (auto split: if_splits)
    qed
  next
    case False
    show ?thesis
    proof (cases "ch = newline \<or> ch = backslash")
      case True
      with False Cons.prems Cons.IH [of "Some ch" dest] show ?thesis by (auto split: if_splits)
    next
      case nb: False
      then have nb: "ch \<noteq> newline" "ch \<noteq> backslash" by auto
      have esc: "escaped (dest @ [ch])" using Cons.prems(2) False nb by (simp add: escaped_append)
      show ?thesis
        using Cons.prems esc Cons.IH [of "Some ch" "dest @ [ch]"]
        unfolding escape_from_plain [OF False nb] by (auto split: if_splits)
    qed
  qed
qed simp

section \<open>The round trip\<close>

definition escape_all :: "string \<Rightarrow> string" where
  "escape_all src = concat (map (\<lambda>c. if special c then [backslash, c] else [c]) src)"

fun unescape :: "string \<Rightarrow> string" where
  "unescape [] = []"
| "unescape (c # r) = (if c = backslash then (case r of [] \<Rightarrow> [] | x # r' \<Rightarrow> x # unescape r') else c # unescape r)"

text \<open>A value that the loop copies whole: no newline, no backslash, no special character twice in a
  row or, after \<open>l\<close>, at the start.\<close>

fun clean_after :: "char option \<Rightarrow> string \<Rightarrow> bool" where
  "clean_after l [] = True"
| "clean_after l (c # r) \<longleftrightarrow>
     c \<noteq> newline \<and> c \<noteq> backslash \<and> (special c \<longrightarrow> l \<noteq> None \<and> l \<noteq> Some c) \<and> clean_after (Some c) r"

lemma unescape_escape_all: "\<forall>c\<in>set s. c \<noteq> backslash \<Longrightarrow> unescape (escape_all s) = s"
  by (induction s) (auto simp: escape_all_def)

lemma clean_no_backslash: "clean_after l s \<Longrightarrow> \<forall>c\<in>set s. c \<noteq> backslash"
  by (induction l s rule: clean_after.induct) auto

lemma escape_from_clean:
  "clean_after l src \<Longrightarrow> length dest + length (escape_all src) < n \<Longrightarrow>
    escape_from n src l dest = Inr (dest @ escape_all src)"
proof (induction src arbitrary: l dest)
  case Nil
  then show ?case by (simp add: escape_all_def)
next
  case (Cons c src)
  show ?case
  proof (cases "special c")
    case True
    have e: "escape_all (c # src) = [backslash, c] @ escape_all src" using True by (simp add: escape_all_def)
    have "escape_from n src (Some c) (dest @ [backslash, c]) = Inr ((dest @ [backslash, c]) @ escape_all src)"
      using Cons.prems e by (intro Cons.IH) simp_all
    with True Cons.prems e show ?thesis by (auto simp: Let_def)
  next
    case False
    have e: "escape_all (c # src) = [c] @ escape_all src" using False by (simp add: escape_all_def)
    have "escape_from n src (Some c) (dest @ [c]) = Inr ((dest @ [c]) @ escape_all src)"
      using Cons.prems e by (intro Cons.IH) simp_all
    with False Cons.prems e show ?thesis by (auto simp: Let_def)
  qed
qed

lemma is_all_whitespace_eq: "is_all_whitespace s \<longleftrightarrow> s = []"
  by (cases s) auto

lemma copy_escaped_uninit:
  "s \<noteq> [] \<Longrightarrow> special (hd s) \<Longrightarrow> copy_escaped_tag_value s n = Inl UninitRead"
  by (cases s) (simp_all add: copy_escaped_tag_value_def)

section \<open>Which records can be posted\<close>

text \<open>No string of the record begins with a special character; otherwise \<open>last_ch\<close> is read before it is
  set.\<close>

definition taggable :: "monitor_record \<Rightarrow> bool" where
  "taggable r \<longleftrightarrow> (\<forall>s\<in>{mr_s1 r, mr_s2 r}. s \<noteq> [] \<longrightarrow> \<not> special (hd s))"

lemma escape_from_defined: "defined (escape_from n src (Some l) dest)"
proof (induction src arbitrary: l dest)
  case (Cons ch src)
  then show ?case by (auto simp: Let_def)
qed simp

lemma escaped_or_empty_defined: "defined (escaped_or_empty s n) \<longleftrightarrow> s = [] \<or> \<not> special (hd s)"
proof (cases s)
  case (Cons c r)
  then have "escaped_or_empty s n = escape_from n (c # r) None []"
    by (simp add: escaped_or_empty_def copy_escaped_tag_value_def)
  with Cons show ?thesis by (auto simp: Let_def escape_from_defined)
qed (simp add: escaped_or_empty_def)

lemma influx_postdata_printable:
  assumes "printable r"
  shows "defined (influx_postdata r) \<longleftrightarrow> taggable r"
proof -
  have "length (mr_hostname r) < HOSTNAME_LEN" using assms by (simp add: printable_def terminated_record_def)
  then show ?thesis
    using escaped_or_empty_defined [of "mr_s1 r" PATH_MAX] escaped_or_empty_defined [of "mr_s2 r" STR_LEN]
    by (auto simp: influx_postdata_def line_strings_printable [OF assms] taggable_def bindR_def split: sum.splits)
qed

end
