(* ===== verification/Plugin_Cli.thy ===== *)
theory Plugin_Cli
imports Chain_Refinement
begin

text \<open>
  The entry points of \<open>plugins/input_cli.c\<close>: a plugin that accepts every record and starts a thread with a
  prompt. The memory of its instances is a map from the addresses of their \<open>struct plugin_state\<close> to
  \<open>kill_thread\<close>. Here \<open>close_plugin\<close> is called by the thread it is about, from its own prompt: there
  \<open>pthread_join\<close> on the calling thread fails and returns at once. From another thread it waits for the
  prompt's next line, which is a matter of interleaving: see \<open>Prompt_Threads\<close>. The thread itself is in
  \<open>Cli_Thread\<close>.
\<close>

section \<open>Entry points\<close>

record cli_world =
  cw_states :: "nat \<Rightarrow> int option"
  cw_next :: nat
  cw_threads :: "nat list"   \<comment> \<open>the arguments of the threads started\<close>

definition cli_open_plugin :: "string option \<Rightarrow> cli_world \<Rightarrow> (int \<times> nat \<times> cli_world) res" where
  "cli_open_plugin plugin_config x =
     (let ps = cw_next x
      in Inr (PLUGIN_OPEN_SUCCESS, ps,
           x\<lparr>cw_states := (cw_states x)(ps \<mapsto> 0), cw_next := Suc ps, cw_threads := ps # cw_threads x\<rparr>))"

definition cli_close_plugin :: "nat \<Rightarrow> cli_world \<Rightarrow> cli_world res" where
  "cli_close_plugin ps x =
     (case cw_states x ps of
        None \<Rightarrow> Inl UseAfterFree
      | Some kill_thread \<Rightarrow>
          let x1 = x\<lparr>cw_states := (cw_states x)(ps \<mapsto> 1)\<rparr>
          in Inr (x1\<lparr>cw_states := (cw_states x1)(ps := None)\<rparr>))"

definition cli_ok_to_accept_data :: "nat \<Rightarrow> cli_world \<Rightarrow> (int \<times> cli_world) res" where
  "cli_ok_to_accept_data ps x = Inr (PLUGIN_ACCEPT_DATA, x)"

definition cli_process_data :: "monitor_record \<Rightarrow> nat \<Rightarrow> cli_world \<Rightarrow> (int \<times> monitor_record \<times> cli_world) res" where
  "cli_process_data data ps x = Inr (PLUGIN_ACCEPT_DATA, data, x)"

definition cli_library :: "(nat, cli_world, 'f) library" where
  "cli_library = \<lparr>open_plugin = Some cli_open_plugin, close_plugin = Some cli_close_plugin,
     ok_to_accept_data = Some cli_ok_to_accept_data, process_data = Some cli_process_data, plugin_command = None\<rparr>"

end
