(* ===== verification/Plugin_Set.thy ===== *)
theory Plugin_Set
imports Chain_Refinement Plugin_Filter Plugin_Influx Plugin_Cli
begin

unbundle bit_operations_syntax

text \<open>
  What the chain relies on in its plugins, as a locale, and the six plugins of \<open>src/plugins\<close> as libraries
  of one program that satisfy it.
\<close>

section \<open>The contract\<close>

text \<open>\<open>member x n\<close>: in the world \<open>x\<close>, the node \<open>n\<close> is one of the plugins of the set. Offering it an
  acceptable record returns, leaves an acceptable record and takes no plugin out of the set.\<close>

locale plugin_set =
  fixes member :: "'x \<Rightarrow> ('h, 'x) node \<Rightarrow> bool"
    and rec_ok :: "monitor_record \<Rightarrow> bool"
  assumes offer_ok: "member x n \<Longrightarrow> rec_ok rec \<Longrightarrow>
    \<exists>g rec' n' x'. offer rec n x = Inr (g, rec', n', x') \<and> rec_ok rec' \<and> member x' n' \<and>
      (\<forall>m. member x m \<longrightarrow> member x' m)"
begin

lemma offer_all_ok:
  "\<forall>n\<in>set ns. member x n \<Longrightarrow> rec_ok rec \<Longrightarrow>
    \<exists>rec' ns' x'. offer_all rec ns x = Inr (rec', ns', x') \<and> rec_ok rec' \<and>
      (\<forall>n\<in>set ns'. member x' n) \<and> (\<forall>m. member x m \<longrightarrow> member x' m)"
proof (induction ns arbitrary: rec x)
  case (Cons n ns)
  obtain g r1 n1 x1 where 1: "offer rec n x = Inr (g, r1, n1, x1)" "rec_ok r1" "member x1 n1"
    "\<forall>m. member x m \<longrightarrow> member x1 m"
    using offer_ok [of x n rec] Cons.prems by auto
  show ?case
  proof (cases g)
    case False
    with 1 Cons.prems show ?thesis by simp
  next
    case True
    obtain r2 ns2 x2 where "offer_all r1 ns x1 = Inr (r2, ns2, x2)" "rec_ok r2"
      "\<forall>n\<in>set ns2. member x2 n" "\<forall>m. member x1 m \<longrightarrow> member x2 m"
      using Cons.IH [of x1 r1] 1 Cons.prems by auto
    with 1 True show ?thesis by auto
  qed
qed simp

lemma chain_executes:
  assumes "chain_ok s ps" "\<forall>e\<in>set (entries s ps). member (world s) e" "rec_ok rec"
  shows "\<exists>rec' s'. execute_plugin_chain rec s = Inr (rec', s') \<and> rec_ok rec' \<and> chain_ok s' ps \<and>
    (\<forall>e\<in>set (entries s' ps). member (world s') e) \<and> s_commands s' = s_commands s"
proof -
  obtain rec' ns x where "offer_all rec (entries s ps) (world s) = Inr (rec', ns, x)" "rec_ok rec'"
    "\<forall>n\<in>set ns. member x n"
    using offer_all_ok [OF assms(2,3)] by blast
  with execute_refines [OF assms(1), of rec] show ?thesis by auto
qed

end

section \<open>The shipped plugins\<close>

text \<open>The memory of the plugins: the masks the instances of \<open>filter_domains\<close> have allocated, the line
  counter of \<open>output_table\<close>, the instances of \<open>input_cli\<close>, what has been printed, and, in a type left
  open, whatever the answers of libcurl depend on.\<close>

record 'n plugin_world =
  pw_masks :: "nat \<Rightarrow> 32 word option"
  pw_next :: nat
  pw_line_no :: int
  pw_out :: string
  pw_cli :: cli_world
  pw_net :: 'n

text \<open>libcurl: whether \<open>curl_easy_init\<close> gives a handle, and whether \<open>curl_easy_perform\<close>, of a URL and the
  data, succeeds.\<close>

type_synonym 'n curl = "('n \<Rightarrow> bool \<times> 'n) \<times> (string \<Rightarrow> string \<Rightarrow> 'n \<Rightarrow> bool \<times> 'n)"

definition initial_plugin_world :: "'n \<Rightarrow> 'n plugin_world" where
  "initial_plugin_world net = \<lparr>pw_masks = (\<lambda>_. None), pw_next = 1, pw_line_no = 0, pw_out = [],
     pw_cli = \<lparr>cw_states = (\<lambda>_. None), cw_next = 0, cw_threads = []\<rparr>, pw_net = net\<rparr>"

definition accept_always :: "nat \<Rightarrow> 'n plugin_world \<Rightarrow> (int \<times> 'n plugin_world) res" where
  "accept_always h x = Inr (PLUGIN_ACCEPT_DATA, x)"

definition close_nothing :: "nat \<Rightarrow> 'n plugin_world \<Rightarrow> 'n plugin_world res" where
  "close_nothing h x = Inr x"

definition open_stateless :: "string option \<Rightarrow> 'n plugin_world \<Rightarrow> (int \<times> nat \<times> 'n plugin_world) res" where
  "open_stateless opts x = Inr (PLUGIN_OPEN_SUCCESS, 0, x)"

definition filter_open_plugin :: "string option \<Rightarrow> 'n plugin_world \<Rightarrow> (int \<times> nat \<times> 'n plugin_world) res" where
  "filter_open_plugin opts x =
     bindR (filter_open opts) (\<lambda>m. Inr (PLUGIN_OPEN_SUCCESS, pw_next x,
       x\<lparr>pw_masks := (pw_masks x)(pw_next x \<mapsto> m), pw_next := Suc (pw_next x)\<rparr>))"

definition filter_process_data ::
  "monitor_record \<Rightarrow> nat \<Rightarrow> 'n plugin_world \<Rightarrow> (int \<times> monitor_record \<times> 'n plugin_world) res" where
  "filter_process_data rec h x =
     (case pw_masks x h of
        None \<Rightarrow> Inl UseAfterFree
      | Some m \<Rightarrow> bindR (filter_process rec m) (\<lambda>rc. Inr (rc, rec, x)))"

definition csv_process_data ::
  "monitor_record \<Rightarrow> nat \<Rightarrow> 'n plugin_world \<Rightarrow> (int \<times> monitor_record \<times> 'n plugin_world) res" where
  "csv_process_data rec h x =
     bindR (csv_process rec (pw_out x)) (\<lambda>(rc, out). Inr (rc, rec, x\<lparr>pw_out := out\<rparr>))"

definition table_process_data ::
  "monitor_record \<Rightarrow> nat \<Rightarrow> 'n plugin_world \<Rightarrow> (int \<times> monitor_record \<times> 'n plugin_world) res" where
  "table_process_data rec h x =
     bindR (table_process rec (pw_line_no x, pw_out x)) (\<lambda>(rc, line_no, out).
       Inr (rc, rec, x\<lparr>pw_line_no := line_no, pw_out := out\<rparr>))"

definition filter_library :: "'f \<Rightarrow> (nat, 'n plugin_world, 'f) library" where
  "filter_library f = \<lparr>open_plugin = Some filter_open_plugin, close_plugin = Some close_nothing,
     ok_to_accept_data = Some accept_always, process_data = Some filter_process_data, plugin_command = Some f\<rparr>"

definition csv_library :: "(nat, 'n plugin_world, 'f) library" where
  "csv_library = \<lparr>open_plugin = Some open_stateless, close_plugin = Some close_nothing,
     ok_to_accept_data = Some accept_always, process_data = Some csv_process_data, plugin_command = None\<rparr>"

definition sample_process_data ::
  "monitor_record \<Rightarrow> nat \<Rightarrow> 'n plugin_world \<Rightarrow> (int \<times> monitor_record \<times> 'n plugin_world) res" where
  "sample_process_data rec h x =
     bindR (sample_process rec (pw_out x)) (\<lambda>(rc, out). Inr (rc, rec, x\<lparr>pw_out := out\<rparr>))"

definition sample_library :: "(nat, 'n plugin_world, 'f) library" where
  "sample_library = \<lparr>open_plugin = Some open_stateless, close_plugin = Some close_nothing,
     ok_to_accept_data = Some accept_always, process_data = Some sample_process_data, plugin_command = None\<rparr>"

lemma sample_process_data_csv: "sample_process_data = csv_process_data"
  by (simp add: fun_eq_iff sample_process_data_def csv_process_data_def sample_process_csv)

lemma sample_library_csv: "sample_library = csv_library"
  by (simp add: sample_library_def csv_library_def sample_process_data_csv)

definition table_library :: "(nat, 'n plugin_world, 'f) library" where
  "table_library = csv_library\<lparr>process_data := Some table_process_data\<rparr>"

text \<open>The command of \<open>filter_domains\<close> on the state of an instance; its result is not set.\<close>

definition filter_plugin_command :: "string list \<Rightarrow> nat \<Rightarrow> 'n plugin_world \<Rightarrow> 'n plugin_world res" where
  "filter_plugin_command args h x =
     (case pw_masks x h of
        None \<Rightarrow> Inl UseAfterFree
      | Some m \<Rightarrow> bindR (filter_command args m) (\<lambda>(m', out).
          Inr (x\<lparr>pw_masks := (pw_masks x)(h \<mapsto> m'), pw_out := pw_out x @ out\<rparr>)))"

text \<open>\<open>output_influxdb\<close>: its answer to a record, on the world, and \<open>close_plugin\<close>.\<close>

definition influx_process_data ::
  "'n curl \<Rightarrow> monitor_record \<Rightarrow> nat \<Rightarrow> 'n plugin_world \<Rightarrow> (int \<times> monitor_record \<times> 'n plugin_world) res" where
  "influx_process_data curl rec h x =
     bindR (influx_process (fst curl) (snd curl) rec (pw_out x, pw_net x)) (\<lambda>(rc, out, net).
       Inr (rc, rec, x\<lparr>pw_out := out, pw_net := net\<rparr>))"

definition influx_close_plugin :: "nat \<Rightarrow> 'n plugin_world \<Rightarrow> 'n plugin_world res" where
  "influx_close_plugin h x = influx_close x"

definition influx_library :: "'n curl \<Rightarrow> (nat, 'n plugin_world, 'f) library" where
  "influx_library curl = \<lparr>open_plugin = Some open_stateless, close_plugin = Some influx_close_plugin,
     ok_to_accept_data = Some accept_always, process_data = Some (influx_process_data curl), plugin_command = None\<rparr>"

text \<open>\<open>input_cli\<close>, on its part of the world.\<close>

definition prompt_open_plugin :: "string option \<Rightarrow> 'n plugin_world \<Rightarrow> (int \<times> nat \<times> 'n plugin_world) res" where
  "prompt_open_plugin opts x =
     bindR (cli_open_plugin opts (pw_cli x)) (\<lambda>(rc, h, c). Inr (rc, h, x\<lparr>pw_cli := c\<rparr>))"

definition prompt_close_plugin :: "nat \<Rightarrow> 'n plugin_world \<Rightarrow> 'n plugin_world res" where
  "prompt_close_plugin h x = bindR (cli_close_plugin h (pw_cli x)) (\<lambda>c. Inr (x\<lparr>pw_cli := c\<rparr>))"

definition prompt_ok_to_accept_data :: "nat \<Rightarrow> 'n plugin_world \<Rightarrow> (int \<times> 'n plugin_world) res" where
  "prompt_ok_to_accept_data h x =
     bindR (cli_ok_to_accept_data h (pw_cli x)) (\<lambda>(rc, c). Inr (rc, x\<lparr>pw_cli := c\<rparr>))"

definition prompt_process_data ::
  "monitor_record \<Rightarrow> nat \<Rightarrow> 'n plugin_world \<Rightarrow> (int \<times> monitor_record \<times> 'n plugin_world) res" where
  "prompt_process_data rec h x =
     bindR (cli_process_data rec h (pw_cli x)) (\<lambda>(rc, rec', c). Inr (rc, rec', x\<lparr>pw_cli := c\<rparr>))"

definition prompt_library :: "(nat, 'n plugin_world, 'f) library" where
  "prompt_library = \<lparr>open_plugin = Some prompt_open_plugin, close_plugin = Some prompt_close_plugin,
     ok_to_accept_data = Some prompt_ok_to_accept_data, process_data = Some prompt_process_data,
     plugin_command = None\<rparr>"

lemma prompt_accepts [simp]:
  "prompt_ok_to_accept_data = accept_always" "prompt_process_data rec h x = Inr (PLUGIN_ACCEPT_DATA, rec, x)"
  by (simp_all add: fun_eq_iff prompt_ok_to_accept_data_def cli_ok_to_accept_data_def accept_always_def
      prompt_process_data_def cli_process_data_def)

text \<open>A loaded instance of one of them; \<open>output_influxdb\<close> only where there is a libcurl it has been linked
  with.\<close>

definition shipped :: "'n curl option \<Rightarrow> 'n plugin_world \<Rightarrow> (nat, 'n plugin_world) node \<Rightarrow> bool" where
  "shipped net x n \<longleftrightarrow> pfn_ok_to_accept_data n = accept_always \<and>
     (pfn_close_plugin n = close_nothing \<and>
        (pfn_process_data n = filter_process_data \<and> pw_masks x (pl_state n) \<noteq> None \<or>
         pfn_process_data n = csv_process_data \<or> pfn_process_data n = sample_process_data \<or>
         pfn_process_data n = table_process_data) \<or>
      pfn_close_plugin n = influx_close_plugin \<and>
        (\<exists>curl. net = Some curl \<and> pfn_process_data n = influx_process_data curl) \<or>
      pfn_close_plugin n = prompt_close_plugin \<and> pfn_process_data n = prompt_process_data)"

text \<open>A record all of them can process.\<close>

definition processable :: "'n curl option \<Rightarrow> monitor_record \<Rightarrow> bool" where
  "processable net r \<longleftrightarrow> printable r \<and> (net = None \<or> taggable r)"

lemma offer_accepting:
  assumes "pfn_ok_to_accept_data n = accept_always"
  shows "offer rec n x =
    bindR (pfn_process_data n rec (pl_state n) x) (\<lambda>(rc, rec', x').
      Inr (rc \<noteq> PLUGIN_DROP_DATA, rec', n\<lparr>pl_paused := (rc = PLUGIN_REFUSE_DATA)\<rparr>, x'))"
proof -
  have "n\<lparr>pl_paused := False\<rparr> = n" if "\<not> pl_paused n" using that by (cases n) simp
  then show ?thesis
    using assms by (auto simp: offer_def accept_always_def bindR_def split: sum.splits)
qed

lemma shipped_process:
  assumes "shipped net x n" "processable net rec"
  shows "\<exists>rc x'. pfn_process_data n rec (pl_state n) x = Inr (rc, rec, x') \<and> pw_masks x' = pw_masks x"
proof -
  have p: "printable rec" using assms(2) by (simp add: processable_def)
  from assms(1) consider (filter) m where "pfn_process_data n = filter_process_data" "pw_masks x (pl_state n) = Some m"
    | (csv) "pfn_process_data n = csv_process_data" | (table) "pfn_process_data n = table_process_data"
    | (influx) curl where "net = Some curl" "pfn_process_data n = influx_process_data curl"
    | (prompt) "pfn_process_data n = prompt_process_data"
    by (auto simp: shipped_def sample_process_data_csv)
  then show ?thesis
  proof cases
    case filter
    with p show ?thesis
      by (simp add: filter_process_data_def filter_process_eq printable_def)
  next
    case csv
    with csv_process_printable [OF p, of "pw_out x"] show ?thesis
      by (auto simp: csv_process_data_def)
  next
    case table
    with table_process_printable [OF p, of "pw_line_no x" "pw_out x"] show ?thesis
      by (auto simp: table_process_data_def)
  next
    case influx
    then obtain postdata where "influx_postdata rec = Inr postdata"
      using assms(2) influx_postdata_printable [OF p] by (auto simp: processable_def defined_iff)
    with influx show ?thesis
      by (simp add: influx_process_data_def influx_process_def Let_def split_def)
  qed simp
qed

text \<open>None of them changes the record.\<close>

interpretation shipped: plugin_set "shipped net" "\<lambda>r. r = rec0 \<and> processable net r" for net rec0
proof
  fix x n rec assume n: "shipped net x n" "rec = rec0 \<and> processable net rec"
  then obtain rc x' where p: "pfn_process_data n rec (pl_state n) x = Inr (rc, rec, x')" "pw_masks x' = pw_masks x"
    using shipped_process by blast
  have "offer rec n x = Inr (rc \<noteq> PLUGIN_DROP_DATA, rec, n\<lparr>pl_paused := (rc = PLUGIN_REFUSE_DATA)\<rparr>, x')"
    using n(1) p(1) by (simp add: offer_accepting shipped_def)
  then show "\<exists>g rec' n' x'. offer rec n x = Inr (g, rec', n', x') \<and> (rec' = rec0 \<and> processable net rec') \<and>
      shipped net x' n' \<and> (\<forall>m. shipped net x m \<longrightarrow> shipped net x' m)"
    using n p(2) by (auto simp: shipped_def)
qed

lemma shipped_content [simp]: "shipped net x (content n) = shipped net x n"
  by (simp add: shipped_def)

section \<open>Loading them\<close>

definition shipped_library :: "'n curl option \<Rightarrow> (nat, 'n plugin_world, 'f) library \<Rightarrow> bool" where
  "shipped_library net l \<longleftrightarrow> (\<exists>f. l = filter_library f) \<or> l \<in> {csv_library, sample_library, table_library, prompt_library} \<or>
     (\<exists>curl. net = Some curl \<and> l = influx_library curl)"

lemmas library_defs = filter_library_def csv_library_def sample_library_def table_library_def prompt_library_def
  influx_library_def

lemma shipped_library_open:
  assumes "shipped_library net l" "open_plugin l = Some op" "op opts x = Inr (rc, st, x')"
    "n = \<lparr>pl_paused = False, pl_library = lib, pl_options = opts, pl_alias = al,
       pfn_close_plugin = the (close_plugin l), pfn_ok_to_accept_data = the (ok_to_accept_data l),
       pfn_process_data = the (process_data l), pl_state = st, next_plugin = None, pl_loaded = True\<rparr>"
  shows "shipped net x' n \<and> (\<forall>m. shipped net x m \<longrightarrow> shipped net x' m)"
  using assms
  by (auto simp: shipped_library_def library_defs shipped_def filter_open_plugin_def open_stateless_def
      prompt_open_plugin_def cli_open_plugin_def Let_def bindR_def split: sum.splits)

lemma load_plugin_shipped:
  assumes load: "load_plugin dlopen lib options alias s = Inr (rc, s')" and ok: "chain_ok s ps"
    and lib: "\<And>l. dlopen lib = Some l \<Longrightarrow> shipped_library net l"
    and sh: "\<forall>e\<in>set (entries s ps). shipped net (world s) e"
  shows "\<exists>ps'. chain_ok s' ps' \<and> (\<forall>e\<in>set (entries s' ps'). shipped net (world s') e)"
proof (cases "dlopen lib")
  case None
  with load ok sh show ?thesis by (auto simp: load_plugin_eq)
next
  case (Some l)
  have l: "shipped_library net l" by (rule lib [OF Some])
  then obtain po pc pk pp where f: "open_plugin l = Some po" "close_plugin l = Some pc"
    "ok_to_accept_data l = Some pk" "process_data l = Some pp"
    by (auto simp: shipped_library_def library_defs)
  with load Some obtain rp st x where op: "po options (world s) = Inr (rp, st, x)"
    by (auto simp: load_plugin_eq)
  define n where "n = \<lparr>pl_paused = False, pl_library = lib, pl_options = options, pl_alias = alias,
    pfn_close_plugin = pc, pfn_ok_to_accept_data = pk, pfn_process_data = pp, pl_state = st,
    next_plugin = None, pl_loaded = True\<rparr>"
  have x: "shipped net x n" "\<forall>m. shipped net (world s) m \<longrightarrow> shipped net x m"
    using shipped_library_open [OF l f(1) op refl, of lib "alias"] f by (simp_all add: n_def)
  show ?thesis
  proof (cases "rp = PLUGIN_OPEN_FAIL")
    case True
    then have s': "s' = s\<lparr>world := x\<rparr>" using load Some f op by (simp add: load_plugin_eq)
    have "entries s' ps = entries s ps" by (simp add: s' entries_def nodes_def)
    with s' ok sh x show ?thesis by (intro exI [of _ ps]) simp
  next
    case False
    with load Some f op obtain cs where s1: "link_plugin n (s\<lparr>world := x, s_commands := cs\<rparr>) = Inr s'"
      by (auto simp: load_plugin_eq n_def)
    have "entries (s\<lparr>world := x, s_commands := cs\<rparr>) ps = entries s ps" by (simp add: entries_def nodes_def)
    with link_plugin_ok [of "s\<lparr>world := x, s_commands := cs\<rparr>" ps n] s1 ok sh x show ?thesis
      by (auto simp: n_def [symmetric] intro!: exI [of _ "ps @ [fresh s]"]) (auto simp: n_def)
  qed
qed

end
