(* ===== verification/Listener_Loop.thy ===== *)
theory Listener_Loop
imports Listener Plugin_Set Recorder Machine
begin

text \<open>
  What the listener keeps, whatever it is told to do: the well-formedness of the plugin chain and of the
  resolver's maps, under every command; and, with the shipped plugins, that the input loop processes
  every record a monitor can send. The abstract view of the resolver is a map from descriptors to
  devices.
\<close>

section \<open>Commands keep the chain well formed\<close>

definition listener_ok :: "('h, 'x, 'p) listener \<Rightarrow> bool" where
  "listener_ok w \<longleftrightarrow> (\<exists>ps. chain_ok (l_chain w) ps) \<and> resolver_ok (l_resolver w)"

lemma load_plugin_chain_ok:
  assumes "load_plugin dlopen lib options alias s = Inr (rc, s')" "chain_ok s ps"
  shows "\<exists>ps'. chain_ok s' ps'"
proof (cases "dlopen lib")
  case None
  with assms show ?thesis by (auto simp: load_plugin_eq)
next
  case (Some l)
  show ?thesis
  proof (cases "open_plugin l = None \<or> close_plugin l = None \<or> ok_to_accept_data l = None \<or> process_data l = None")
    case True
    with assms Some show ?thesis by (auto simp: load_plugin_eq split: option.splits)
  next
    case False
    then obtain po pc pk pp where l: "open_plugin l = Some po" "close_plugin l = Some pc"
      "ok_to_accept_data l = Some pk" "process_data l = Some pp" by auto
    with assms(1) Some obtain rp st x where op: "po options (world s) = Inr (rp, st, x)"
      by (auto simp: load_plugin_eq)
    show ?thesis
    proof (cases "rp = PLUGIN_OPEN_FAIL")
      case True
      with assms Some l op show ?thesis by (auto simp: load_plugin_eq)
    next
      case False
      define n where "n = \<lparr>pl_paused = False, pl_library = lib, pl_options = options, pl_alias = alias,
        pfn_close_plugin = pc, pfn_ok_to_accept_data = pk, pfn_process_data = pp, pl_state = st,
        next_plugin = None, pl_loaded = True\<rparr>"
      from assms(1) Some l op False obtain cs where
        "link_plugin n (s\<lparr>world := x, s_commands := cs\<rparr>) = Inr s'"
        by (auto simp: load_plugin_eq n_def)
      with link_plugin_ok [of "s\<lparr>world := x, s_commands := cs\<rparr>" ps n] assms(2) show ?thesis
        by (auto simp: n_def)
    qed
  qed
qed

lemma unload_by_name_chain_ok:
  assumes "unload_plugin_by_name name s = Inr (rc, s')" "chain_ok s ps"
  shows "\<exists>ps'. chain_ok s' ps'"
proof (cases "find (\<lambda>a. names_plugin (the (heap s a)) name) ps")
  case None
  with assms locate_ok [OF assms(2), of name] show ?thesis by (simp add: unload_plugin_by_name_def)
next
  case (Some p)
  then have p: "p \<in> set ps" by (auto simp: find_Some_iff)
  obtain n where n: "heap s p = Some n" "pl_loaded n" using chain_node [OF assms(2) p] by blast
  have "\<exists>x. pfn_close_plugin n (pl_state n) (world s) = Inr x"
  proof (cases "pfn_close_plugin n (pl_state n) (world s)")
    case (Inl u)
    with assms(1) n show ?thesis
      by (simp add: unload_plugin_by_name_def locate_ok [OF assms(2)] Some unload_plugin_def live_at_def node_at_def)
  qed simp
  then obtain x where x: "pfn_close_plugin (the (heap s p)) (pl_state (the (heap s p))) (world s) = Inr x"
    using n(1) by auto
  from unload_by_name_ok [OF assms(2) Some refl x] assms(1) show ?thesis by auto
qed

lemma listener_ok_upd [simp]:
  "listener_ok (w\<lparr>message_queue_key := k\<rparr>) = listener_ok w"
  "listener_ok (w\<lparr>message_queue_id := k\<rparr>) = listener_ok w"
  "listener_ok (w\<lparr>l_stdout := o'\<rparr>) = listener_ok w"
  "listener_ok (w\<lparr>show_runtime_commands := b\<rparr>) = listener_ok w"
  "listener_ok (w\<lparr>l_chain := (l_chain w)\<lparr>world := x\<rparr>\<rparr>) = listener_ok w"
  "listener_ok (w\<lparr>l_chain := (l_chain w)\<lparr>s_commands := cs\<rparr>\<rparr>) = listener_ok w"
  by (simp_all add: listener_ok_def)

lemma on_chain_ok:
  assumes "on_chain f w = Inr (rc, w')" "listener_ok w"
    and "\<And>s rc s' ps. f s = Inr (rc, s') \<Longrightarrow> chain_ok s ps \<Longrightarrow> \<exists>ps'. chain_ok s' ps'"
  shows "listener_ok w'"
  using assms by (fastforce simp: on_chain_def listener_ok_def)

lemma config_lines_inv:
  assumes "interpreter runc ok"
  shows "ok w \<Longrightarrow> config_lines runc ls w = Inr w' \<Longrightarrow> ok w'"
proof (induction ls arbitrary: w)
  case (Cons l ls)
  then show ?case
    using interpreter.parse_command_inv [OF assms] by (auto simp: Let_def split: if_splits)
qed simp

lemma call_function_ok:
  assumes "interpreter runc listener_ok" "call_function S runc pfn name args st w = Inr (rc, w')" "listener_ok w"
  shows "listener_ok w'"
proof -
  consider (load) "pfn = Some C_load_plugin" | (unload) "pfn = Some C_unload_plugin"
    | (config) "pfn = Some C_config" | (other) "pfn \<notin> {Some C_load_plugin, Some C_unload_plugin, Some C_config}"
    by auto
  then show ?thesis
  proof cases
    case load
    with assms(2) obtain lib options al where
      "on_chain (load_plugin (sys_dlopen S) lib options al) w = Inr (0, w')"
      by (auto simp: call_function_def c_load_plugin_def split: list.splits prod.splits if_splits)
    then show ?thesis by (rule on_chain_ok [OF _ assms(3)]) (rule load_plugin_chain_ok)
  next
    case unload
    with assms(2,3) show ?thesis
      by (auto simp: call_function_def c_unload_plugin_def split: list.splits
          elim!: on_chain_ok unload_by_name_chain_ok)
  next
    case config
    with assms(2,3) show ?thesis
      by (auto simp: call_function_def c_config_def split: list.splits option.splits
          dest: config_lines_inv [OF assms(1)])
  next
    case other
    with assms(2,3) show ?thesis
      by (cases pfn) (auto simp: call_function_def c_list_plugins_def c_quit_def c_mq_path_def c_help_def Let_def
          split: fun_ptr.splits list.splits if_splits)
  qed
qed

lemma run_listener_ok: "listener_ok w \<Longrightarrow> run_listener S d name args w = Inr (rc, w') \<Longrightarrow> listener_ok w'"
proof (induction d arbitrary: name args w rc w')
  case (Suc d)
  have "interpreter (run_listener S d) listener_ok"
    by unfold_locales (rule Suc.IH)
  from call_function_ok [OF this] Suc.prems show ?case
    by (auto simp: run_command_find split: option.splits)
qed simp

text \<open>The listener is such an interpreter.\<close>

interpretation listener: interpreter "run_listener S d" listener_ok for S d
  by unfold_locales (rule run_listener_ok)

lemma initial_listener_ok: "listener_ok (initial_listener x)"
  using initial_chain_ok [of x] by (auto simp: listener_ok_def initial_listener_def initial_resolver_ok)

lemma listener_main_ok:
  assumes "listener_ok w" "listener_main S d argv w = Inr (rc, w')"
  shows "listener_ok w'"
proof -
  obtain cs r1 w1 where 1: "parse_args (run_listener S d) argv (w\<lparr>l_chain := (l_chain w)\<lparr>s_commands := cs\<rparr>\<rparr>) = Inr (r1, w1)"
    "w' = w1 \<or> (\<exists>r. capture_device_info (sys_lsblk S) (l_resolver w1) = Inr r \<and>
      w' = w1\<lparr>show_runtime_commands := True, l_resolver := r\<rparr>)"
    using assms(2) by (auto simp: listener_main_def split: if_splits)
  have ok: "listener_ok w1"
    using listener.parse_args_inv [OF _ 1(1)] assms(1) by simp
  with 1(2) capture_device_info_ok [of "l_resolver w1" "sys_lsblk S"] show ?thesis
    by (auto simp: listener_ok_def)
qed

section \<open>The resolver as a map\<close>

definition fd_map :: "resolver \<Rightarrow> int \<Rightarrow> string option" where
  "fd_map r = map_find (fd_to_dev r)"

text \<open>The specification of \<open>track_record\<close>: what a record does to a map from descriptors to devices,
  and the device it is given. \<open>dev\<close> is the device of a path.\<close>

definition is_open :: "monitor_record \<Rightarrow> bool" where
  "is_open rec \<longleftrightarrow> has_domain rec FILE_OPEN_CLOSE \<and> mr_op_type rec = int (op_index OPEN)"

definition is_close :: "monitor_record \<Rightarrow> bool" where
  "is_close rec \<longleftrightarrow> has_domain rec FILE_OPEN_CLOSE \<and> mr_op_type rec = int (op_index CLOSE)"

definition uses_device :: "monitor_record \<Rightarrow> bool" where
  "uses_device rec \<longleftrightarrow> is_open rec \<or> is_close rec \<or> has_domain rec FILE_READ \<or> has_domain rec FILE_WRITE \<or>
     has_domain rec FILE_METADATA \<or> has_domain rec FILE_SPACE \<or> has_domain rec SYNCS"

definition spec_map :: "(string \<Rightarrow> string) \<Rightarrow> monitor_record \<Rightarrow> (int \<Rightarrow> string option) \<Rightarrow> int \<Rightarrow> string option" where
  "spec_map dev rec M =
     (if mr_fd rec = FD_NONE then M
      else if is_open rec \<and> mr_s1 rec \<noteq> [] then M(mr_fd rec \<mapsto> dev (mr_s1 rec))
      else if is_close rec then M(mr_fd rec := None) else M)"

definition spec_device :: "monitor_record \<Rightarrow> (int \<Rightarrow> string option) \<Rightarrow> monitor_record" where
  "spec_device rec M =
     (if mr_fd rec = FD_NONE \<or> \<not> uses_device rec then rec
      else case M (mr_fd rec) of None \<Rightarrow> rec | Some dev \<Rightarrow> rec\<lparr>mr_device := take DEVICE_LEN dev\<rparr>)"

lemma domain_distinct:
  "has_domain rec d \<Longrightarrow> has_domain rec d' \<longleftrightarrow> d' = d"
  by (auto simp: has_domain_def domain_index_inj)

lemma track_record_ok:
  assumes "resolver_ok r" "length (mr_s1 rec) < PATH_MAX"
  shows "\<exists>r'. track_record rec r =
      Inr (spec_device rec (if is_close rec then fd_map r else spec_map (\<lambda>p. path_to_dev p r) rec (fd_map r)), r') \<and>
    resolver_ok r' \<and> fd_map r' = spec_map (\<lambda>p. path_to_dev p r) rec (fd_map r) \<and>
    fs_mount_path_to_dev r' = fs_mount_path_to_dev r \<and> root_fs_dev r' = root_fs_dev r"
proof -
  have oc: "\<not> (is_open rec \<and> is_close rec)" by (simp add: is_open_def is_close_def)
  consider (opened) "is_open rec" | (closed) "is_close rec" | (other) "\<not> is_open rec" "\<not> is_close rec" by blast
  then show ?thesis
  proof cases
    case opened
    obtain r1 where r1: "register_file rec r = Inr r1" "resolver_ok r1"
      "fs_mount_path_to_dev r1 = fs_mount_path_to_dev r" "root_fs_dev r1 = root_fs_dev r"
      "fd_map r1 = (if mr_fd rec \<noteq> FD_NONE \<and> mr_s1 rec \<noteq> []
        then (fd_map r)(mr_fd rec \<mapsto> path_to_dev (mr_s1 rec) r) else fd_map r)"
      using register_file_ok [OF assms] by (auto simp: fd_map_def)
    have m: "fd_map r1 = spec_map (\<lambda>p. path_to_dev p r) rec (fd_map r)"
      using r1(5) opened oc by (simp add: spec_map_def)
    have "track_record rec r = Inr (resolve_file rec r1, r1)"
      using opened r1(1) by (simp add: track_record_def is_open_def)
    moreover have "resolve_file rec r1 = spec_device rec (fd_map r1)"
      using opened by (simp add: resolve_file_eq spec_device_def uses_device_def fd_map_def)
    ultimately show ?thesis using opened oc m r1 by auto
  next
    case closed
    have rec1: "mr_fd (resolve_file rec r) = mr_fd rec"
      by (simp add: resolve_file_eq split: option.splits)
    define r1 where "r1 = deregister_file (resolve_file rec r) r"
    have r1: "resolver_ok r1" "fs_mount_path_to_dev r1 = fs_mount_path_to_dev r" "root_fs_dev r1 = root_fs_dev r"
      "fd_map r1 = (if mr_fd rec \<noteq> FD_NONE then (fd_map r)(mr_fd rec := None) else fd_map r)"
      using deregister_file_ok [OF assms(1), of "resolve_file rec r"] rec1 by (simp_all add: r1_def fd_map_def)
    have "track_record rec r = Inr (resolve_file rec r, r1)"
      using closed by (simp add: track_record_def is_close_def r1_def Let_def)
    moreover have "resolve_file rec r = spec_device rec (fd_map r)"
      using closed by (simp add: resolve_file_eq spec_device_def uses_device_def fd_map_def)
    moreover have "fd_map r1 = spec_map (\<lambda>p. path_to_dev p r) rec (fd_map r)"
      using r1(4) closed oc by (auto simp: spec_map_def)
    ultimately show ?thesis using closed r1 by auto
  next
    case other
    have m: "spec_map (\<lambda>p. path_to_dev p r) rec (fd_map r) = fd_map r"
      using other by (simp add: spec_map_def)
    have "track_record rec r = Inr (spec_device rec (fd_map r), r)"
    proof (cases "has_domain rec FILE_OPEN_CLOSE")
      case True
      with other have "\<not> uses_device rec"
        by (auto simp: uses_device_def domain_distinct [OF True])
      moreover have "track_record rec r = Inr (rec, r)"
        using True other by (simp add: track_record_def is_open_def is_close_def)
      ultimately show ?thesis by (simp add: spec_device_def)
    next
      case False
      with other show ?thesis
        by (auto simp: track_record_def spec_device_def uses_device_def resolve_file_eq fd_map_def)
    qed
    with m other assms(1) show ?thesis by simp
  qed
qed

section \<open>The input loop with the shipped plugins\<close>

text \<open>\<open>net\<close> is the libcurl of \<open>output_influxdb\<close>, if that plugin may be loaded.\<close>

text \<open>The device names are short enough for \<open>char device[10]\<close> to keep its NUL.\<close>

definition short_devices :: "resolver \<Rightarrow> bool" where
  "short_devices r \<longleftrightarrow> (\<forall>p. length (path_to_dev p r) < DEVICE_LEN) \<and>
     (\<forall>fd dev. fd_map r fd = Some dev \<longrightarrow> length dev < DEVICE_LEN)"

definition loop_ok ::
  "'n curl option \<Rightarrow> ('h, 'n plugin_world, 'p) system \<Rightarrow> (nat, 'n plugin_world, 'p) listener \<Rightarrow> bool" where
  "loop_ok net S w \<longleftrightarrow> length (sys_hostname S) < HOSTNAME_LEN \<and>
     (\<exists>ps. chain_ok (l_chain w) ps \<and> (\<forall>e\<in>set (entries (l_chain w) ps). shipped net (world (l_chain w)) e)) \<and>
     resolver_ok (l_resolver w) \<and> short_devices (l_resolver w)"

lemma spec_device_fields [simp]:
  "mr_hostname (spec_device rec M) = mr_hostname rec" "mr_s1 (spec_device rec M) = mr_s1 rec"
  "mr_s2 (spec_device rec M) = mr_s2 rec" "mr_facility (spec_device rec M) = mr_facility rec"
  "mr_dom_type (spec_device rec M) = mr_dom_type rec" "mr_op_type (spec_device rec M) = mr_op_type rec"
  "mr_fd (spec_device rec M) = mr_fd rec"
  by (simp_all add: spec_device_def split: option.splits)

lemma spec_device_upd:
  "\<exists>dev. spec_device (rec\<lparr>mr_hostname := h\<rparr>) M = rec\<lparr>mr_hostname := h, mr_device := dev\<rparr>"
  by (rule exI [of _ "mr_device (spec_device (rec\<lparr>mr_hostname := h\<rparr>) M)"], cases rec)
    (simp add: spec_device_def split: option.splits)

lemma printable_spec_device:
  assumes "printable rec" "\<forall>dev. M (mr_fd rec) = Some dev \<longrightarrow> length dev < DEVICE_LEN"
  shows "printable (spec_device rec M)"
proof -
  have "length (mr_device (spec_device rec M)) < DEVICE_LEN"
    using assms by (auto simp: spec_device_def printable_def terminated_record_def split: option.splits)
  with assms(1) show ?thesis by (simp add: printable_def terminated_record_def)
qed

lemma processable_spec_device:
  assumes "processable net rec" "\<forall>dev. M (mr_fd rec) = Some dev \<longrightarrow> length dev < DEVICE_LEN"
  shows "processable net (spec_device rec M)"
  using assms printable_spec_device [of rec M] by (simp add: processable_def taggable_def)

lemma short_devices_track:
  assumes "short_devices r" "fd_map r' = spec_map (\<lambda>p. path_to_dev p r) rec (fd_map r)"
    and "fs_mount_path_to_dev r' = fs_mount_path_to_dev r" "root_fs_dev r' = root_fs_dev r"
  shows "short_devices r' \<and> (\<forall>dev. fd_map r' (mr_fd rec) = Some dev \<longrightarrow> length dev < DEVICE_LEN)"
proof -
  have "path_to_dev p r' = path_to_dev p r" for p using assms(3,4) by (simp add: path_to_dev_def split: option.splits)
  moreover have "length dev < DEVICE_LEN" if "fd_map r' fd = Some dev" for fd dev
    using that assms(1) by (auto simp: assms(2) spec_map_def short_devices_def split: if_splits)
  ultimately show ?thesis using assms(1) by (simp add: short_devices_def)
qed

lemma handle_message_ok:
  assumes "loop_ok net S w" "processable net rec"
  shows "\<exists>out w'. handle_message S rec w = Inr (out, w') \<and> loop_ok net S w' \<and>
    out = spec_device (rec\<lparr>mr_hostname := sys_hostname S\<rparr>)
      (if is_close rec then fd_map (l_resolver w)
       else spec_map (\<lambda>p. path_to_dev p (l_resolver w)) rec (fd_map (l_resolver w))) \<and>
    fd_map (l_resolver w') = spec_map (\<lambda>p. path_to_dev p (l_resolver w)) rec (fd_map (l_resolver w)) \<and>
    fs_mount_path_to_dev (l_resolver w') = fs_mount_path_to_dev (l_resolver w) \<and>
    root_fs_dev (l_resolver w') = root_fs_dev (l_resolver w)"
proof -
  define rec1 where "rec1 = rec\<lparr>mr_hostname := sys_hostname S\<rparr>"
  define r where "r = l_resolver w"
  have host: "length (sys_hostname S) < HOSTNAME_LEN" using assms(1) by (simp add: loop_ok_def)
  have rec1: "rec\<lparr>mr_hostname := strncpy (take HOSTNAME_LEN (sys_hostname S)) HOSTNAME_LEN\<rparr> = rec1"
    using host by (simp add: rec1_def)
  have p1: "processable net rec1" "length (mr_s1 rec1) < PATH_MAX"
    using assms(2) host by (simp_all add: rec1_def processable_def printable_def terminated_record_def taggable_def)
  have same: "is_close rec1 = is_close rec" "spec_map dev rec1 M = spec_map dev rec M" for dev M
    by (simp_all add: rec1_def is_close_def is_open_def spec_map_def has_domain_def)
  have r: "resolver_ok r" "short_devices r" using assms(1) by (simp_all add: loop_ok_def r_def)
  define M where "M = (if is_close rec then fd_map r else spec_map (\<lambda>p. path_to_dev p r) rec (fd_map r))"
  obtain r' where t: "track_record rec1 r = Inr (spec_device rec1 M, r')" "resolver_ok r'"
    "fd_map r' = spec_map (\<lambda>p. path_to_dev p r) rec1 (fd_map r)"
    "fs_mount_path_to_dev r' = fs_mount_path_to_dev r" "root_fs_dev r' = root_fs_dev r"
    using track_record_ok [OF r(1) p1(2)] by (auto simp: M_def same)
  note sd = short_devices_track [OF r(2) t(3-5)]
  have "\<forall>dev. M (mr_fd rec1) = Some dev \<longrightarrow> length dev < DEVICE_LEN"
    using sd t(3) r(2) by (auto simp: M_def short_devices_def same)
  then have p2: "processable net (spec_device rec1 M)" by (rule processable_spec_device [OF p1(1)])
  obtain ps where ps: "chain_ok (l_chain w) ps" "\<forall>e\<in>set (entries (l_chain w) ps). shipped net (world (l_chain w)) e"
    using assms(1) by (auto simp: loop_ok_def)
  obtain s' where "execute_plugin_chain (spec_device rec1 M) (l_chain w) = Inr (spec_device rec1 M, s')"
    "chain_ok s' ps" "\<forall>e\<in>set (entries s' ps). shipped net (world s') e"
    using shipped.chain_executes [OF ps, of "spec_device rec1 M" "spec_device rec1 M"] p2 by auto
  then show ?thesis
    using t sd host by (auto simp: handle_message_def rec1 loop_ok_def r_def [symmetric] rec1_def [symmetric] same)
      (simp_all add: M_def)
qed

lemma input_loop_run:
  "input_loop S received w =
     bindR (run (handle_message S) (List.map_filter (\<lambda>r. r) received) w) (\<lambda>(outs, w'). Inr w')"
proof (induction S received w rule: input_loop.induct)
  case (3 S rec received w)
  then show ?case
    by (cases "handle_message S rec w") (auto simp: map_filter_simps bindR_assoc split_def)
qed (simp_all add: map_filter_simps)

interpretation messages: machine "handle_message S" "loop_ok net S" "processable net"
  "\<lambda>w rec out w'. out = spec_device (rec\<lparr>mr_hostname := sys_hostname S\<rparr>)
      (if is_close rec then fd_map (l_resolver w)
       else spec_map (\<lambda>p. path_to_dev p (l_resolver w)) rec (fd_map (l_resolver w)))" for net S
proof
  fix w rec assume "loop_ok net S w" "processable net rec"
  from handle_message_ok [OF this] show "\<exists>out w'. handle_message S rec w = Inr (out, w') \<and> loop_ok net S w' \<and>
    out = spec_device (rec\<lparr>mr_hostname := sys_hostname S\<rparr>)
      (if is_close rec then fd_map (l_resolver w)
       else spec_map (\<lambda>p. path_to_dev p (l_resolver w)) rec (fd_map (l_resolver w)))" by blast
qed

text \<open>What a monitor sends can be printed.\<close>

lemma op_index_less: "op \<noteq> END_OPS \<Longrightarrow> op_index op < 63"
  by (cases op) auto

lemma length_ops_names: "length ops_names = 63"
  by (simp add: ops_names_eq)

lemma make_record_printable:
  assumes "ev_dom_type e \<noteq> END_DOMAINS" "ev_op_type e \<noteq> END_OPS"
  shows "printable (make_record P w m e)"
proof -
  have "terminated_record (make_record P w m e)"
    by (auto simp: terminated_record_def make_record_def zero_record_def record_field_s_def buffer_sizes
        split: option.splits)
  with domain_index_less [OF assms(1)] op_index_less [OF assms(2)] show ?thesis
    by (simp add: printable_def make_record_def length_ops_names)
qed

section \<open>The life of a descriptor\<close>

text \<open>A run of records that neither opens nor closes \<open>fd\<close>.\<close>

definition leaves_fd :: "int \<Rightarrow> monitor_record \<Rightarrow> bool" where
  "leaves_fd fd rec \<longleftrightarrow> mr_fd rec \<noteq> fd \<or> \<not> (is_open rec \<and> mr_s1 rec \<noteq> []) \<and> \<not> is_close rec"

lemma spec_map_leaves: "leaves_fd fd rec \<Longrightarrow> spec_map dev rec M fd = M fd"
  by (auto simp: leaves_fd_def spec_map_def)

lemma run_track_leaves:
  assumes "resolver_ok r" "\<forall>rec\<in>set recs. length (mr_s1 rec) < PATH_MAX \<and> leaves_fd fd rec"
  shows "\<exists>outs r'. run track_record recs r = Inr (outs, r') \<and> resolver_ok r' \<and> fd_map r' fd = fd_map r fd \<and>
    fs_mount_path_to_dev r' = fs_mount_path_to_dev r \<and> root_fs_dev r' = root_fs_dev r"
  using assms
proof (induction recs arbitrary: r)
  case (Cons rec recs)
  obtain out r1 where 1: "track_record rec r = Inr (out, r1)" "resolver_ok r1"
    "fd_map r1 = spec_map (\<lambda>p. path_to_dev p r) rec (fd_map r)"
    "fs_mount_path_to_dev r1 = fs_mount_path_to_dev r" "root_fs_dev r1 = root_fs_dev r"
    using track_record_ok [OF Cons.prems(1), of rec] Cons.prems(2) by auto
  have "fd_map r1 fd = fd_map r fd" using Cons.prems(2) by (simp add: 1(3) spec_map_leaves)
  with Cons.IH [OF 1(2)] Cons.prems(2) 1 show ?case by fastforce
qed simp

section \<open>Reachable states\<close>

text \<open>The running listener: it has entered the input loop, then a message arrives or, from the thread of
  \<open>input_cli\<close>, a line of input, in any order. What a state can become is the value of a step that
  returns.\<close>

inductive reachable :: "('h, 'x, 'p) system \<Rightarrow> nat \<Rightarrow> ('h, 'x, 'p) listener \<Rightarrow> bool" for S d where
  start: "listener_main S d argv (initial_listener x) = Inr (None, w) \<Longrightarrow> reachable S d w"
| message: "reachable S d w \<Longrightarrow> handle_message S rec w = Inr (out, w') \<Longrightarrow> reachable S d w'"
| line: "reachable S d w \<Longrightarrow> parse_command (run_listener S d) buf w = Inr w' \<Longrightarrow> reachable S d w'"

inductive_cases reachable_cases: "reachable S d w"

lemma track_record_keeps:
  assumes "track_record rec r = Inr (out, r')" "resolver_ok r"
  shows "resolver_ok r'"
proof (cases "length (mr_s1 rec) < PATH_MAX")
  case True
  with track_record_ok [OF assms(2) True] assms(1) show ?thesis by auto
next
  case False
  then have "register_file rec r = Inr r1 \<Longrightarrow> r1 = r" for r1
    by (auto simp: register_file_def arr_string_def split: if_splits)
  with assms deregister_file_ok [OF assms(2)] show ?thesis
    by (auto simp: track_record_def Let_def split: if_splits)
qed

lemma handle_message_keeps:
  assumes "handle_message S rec w = Inr (out, w')" "listener_ok w"
  shows "listener_ok w'"
proof -
  obtain rec1 rec2 r s where 1: "track_record rec1 (l_resolver w) = Inr (rec2, r)"
    "execute_plugin_chain rec2 (l_chain w) = Inr (out, s)" "w' = w\<lparr>l_resolver := r, l_chain := s\<rparr>"
    using assms(1) by (auto simp: handle_message_def Let_def)
  obtain ps where ps: "chain_ok (l_chain w) ps" "resolver_ok (l_resolver w)"
    using assms(2) by (auto simp: listener_ok_def)
  have "chain_ok s ps"
    using execute_refines [OF ps(1), of rec2] 1(2) by (auto split: sum.splits prod.splits)
  with 1 track_record_keeps [OF 1(1) ps(2)] show ?thesis by (auto simp: listener_ok_def)
qed

lemma reachable_listener_ok: "reachable S d w \<Longrightarrow> listener_ok w"
proof (induction rule: reachable.induct)
  case (start argv x w)
  then show ?case by (rule listener_main_ok [OF initial_listener_ok])
next
  case (message w rec out w')
  then show ?case by (auto intro: handle_message_keeps)
next
  case (line w buf w')
  then show ?case by (auto intro: listener.parse_command_inv)
qed

end
