(* ===== verification/Listener_Properties.thy ===== *)
theory Listener_Properties
imports Listener_Loop Plugin_Influx
begin

unbundle bit_operations_syntax

text \<open>
  The properties of the listener and its plugins, each with a concrete instance of its hypotheses where
  it has any.
\<close>

section \<open>Concrete values\<close>

text \<open>A chain of two plugins: \<open>filter_domains\<close> for LINKS under the alias \<open>f\<close>, then \<open>output_csv\<close>.\<close>

definition demo_node ::
  "string \<Rightarrow> string option \<Rightarrow> (monitor_record \<Rightarrow> nat \<Rightarrow> unit plugin_world \<Rightarrow> (int \<times> monitor_record \<times> unit plugin_world) res) \<Rightarrow>
   nat \<Rightarrow> nat option \<Rightarrow> (nat, unit plugin_world) node" where
  "demo_node lib al process st nxt = \<lparr>pl_paused = False, pl_library = lib, pl_options = None, pl_alias = al,
     pfn_close_plugin = close_nothing, pfn_ok_to_accept_data = accept_always, pfn_process_data = process,
     pl_state = st, next_plugin = nxt, pl_loaded = True\<rparr>"

definition demo_plugin_world :: "unit plugin_world" where
  "demo_plugin_world = (initial_plugin_world ())\<lparr>pw_masks := [1 \<mapsto> 1]\<rparr>"

definition demo_chain :: "(nat, unit plugin_world, unit fun_ptr) chain" where
  "demo_chain = \<lparr>heap = [0 \<mapsto> demo_node ''filter.so'' (Some ''f'') filter_process_data 1 (Some 1),
                          1 \<mapsto> demo_node ''csv.so'' None csv_process_data 0 None],
     fresh = 2, plugins = Some 0, s_commands = [], world = demo_plugin_world\<rparr>"

lemma demo_node_simps [simp]:
  "pl_paused (demo_node l a p st q) = False" "pl_library (demo_node l a p st q) = l"
  "pl_alias (demo_node l a p st q) = a" "pfn_close_plugin (demo_node l a p st q) = close_nothing"
  "pfn_ok_to_accept_data (demo_node l a p st q) = accept_always"
  "pfn_process_data (demo_node l a p st q) = p" "pl_state (demo_node l a p st q) = st"
  "next_plugin (demo_node l a p st q) = q" "pl_loaded (demo_node l a p st q)"
  "content (demo_node l a p st q) = demo_node l a p st None"
  by (simp_all add: demo_node_def content_def)

lemma demo_chain_ok: "chain_ok demo_chain [0, 1]"
  by (auto simp: chain_ok_def demo_chain_def)

lemma demo_chain_shipped: "\<forall>e\<in>set (entries demo_chain [0, 1]). shipped net (world demo_chain) e"
  by (simp add: entries_def nodes_def demo_chain_def shipped_def demo_plugin_world_def initial_plugin_world_def)

definition demo_record :: monitor_record where
  "demo_record = zero_record\<lparr>mr_facility := ''u'', mr_fd := 5, mr_s1 := ''/home/a''\<rparr>"

lemma demo_record_printable: "printable demo_record"
  by (simp add: printable_def demo_record_def zero_record_def terminated_record_def buffer_sizes length_ops_names)

section \<open>The plugin chain\<close>

text \<open>C3: executing the chain is offering the record to the plugins of a list, one after the other, until
  one drops it. The heap's links, the plugins' contents and the list of commands are changed by nothing
  but the pause flags; a plugin's undefined behaviour is the chain's.\<close>

theorem execute_chain_refines:
  assumes "chain_ok s ps"
  shows "case offer_all rec (entries s ps) (world s) of
      Inl u \<Rightarrow> execute_plugin_chain rec s = Inl u
    | Inr (rec', ns, x) \<Rightarrow> \<exists>s'. execute_plugin_chain rec s = Inr (rec', s') \<and> chain_ok s' ps \<and>
        entries s' ps = ns \<and> world s' = x \<and> s_commands s' = s_commands s"
  by (rule execute_refines [OF assms])

theorem execute_chain_refines_witness:
  "\<exists>s'. execute_plugin_chain (demo_record\<lparr>mr_dom_type := 5\<rparr>) demo_chain =
     Inr (demo_record\<lparr>mr_dom_type := 5\<rparr>, s') \<and> world s' = demo_plugin_world"
proof -
  have "offer_all (demo_record\<lparr>mr_dom_type := 5\<rparr>) (entries demo_chain [0, 1]) (world demo_chain) =
      Inr (demo_record\<lparr>mr_dom_type := 5\<rparr>, entries demo_chain [0, 1], demo_plugin_world)"
    by (simp add: entries_def nodes_def demo_chain_def offer_accepting filter_process_data_def
        filter_process_eq demo_plugin_world_def initial_plugin_world_def plugin_codes)
  with execute_chain_refines [OF demo_chain_ok, of "demo_record\<lparr>mr_dom_type := 5\<rparr>"] show ?thesis by auto
qed

text \<open>Flow control of one plugin. A paused plugin sees no data until its \<open>ok_to_accept_data\<close> answers
  that it accepts; a plugin that refuses a record is paused; the record is withheld from the plugins
  behind it exactly when it answers that the record is dropped.\<close>

theorem offer_flow_control:
  assumes "offer rec n x = Inr (go_on, rec', n', x')"
  shows "(pl_paused n \<and> (\<exists>rc. rc \<noteq> PLUGIN_ACCEPT_DATA \<and> pfn_ok_to_accept_data n (pl_state n) x = Inr (rc, x') \<and>
            go_on \<and> rec' = rec \<and> n' = n)) \<or>
         (\<exists>x1 rc. (if pl_paused n then pfn_ok_to_accept_data n (pl_state n) x = Inr (PLUGIN_ACCEPT_DATA, x1)
                   else x1 = x) \<and>
            pfn_process_data n rec (pl_state n) x1 = Inr (rc, rec', x') \<and>
            n' = n\<lparr>pl_paused := (rc = PLUGIN_REFUSE_DATA)\<rparr> \<and> (go_on \<longleftrightarrow> rc \<noteq> PLUGIN_DROP_DATA))"
proof -
  have "n\<lparr>pl_paused := False\<rparr> = n \<longleftrightarrow> \<not> pl_paused n" by (cases n) simp
  with assms show ?thesis by (auto simp: offer_def split: if_splits)
qed

theorem offer_flow_control_witness:
  "\<exists>n'. offer demo_record ((demo_node ''csv.so'' None csv_process_data 0 None)\<lparr>pl_paused := True,
      pfn_ok_to_accept_data := (\<lambda>h x. Inr (PLUGIN_REFUSE_DATA, x))\<rparr>) demo_plugin_world =
    Inr (True, demo_record, n', demo_plugin_world) \<and> pl_paused n'"
proof -
  define n where "n = (demo_node ''csv.so'' None csv_process_data 0 None)\<lparr>pl_paused := True,
      pfn_ok_to_accept_data := (\<lambda>h x. Inr (PLUGIN_REFUSE_DATA, x))\<rparr>"
  have o: "offer demo_record n demo_plugin_world = Inr (True, demo_record, n, demo_plugin_world)"
    by (simp add: offer_def n_def plugin_codes)
  have "pl_paused n" by (simp add: n_def)
  with offer_flow_control [OF o] o show ?thesis unfolding n_def [symmetric] by (auto simp: n_def plugin_codes)
qed

text \<open>Loading a library that is found, has its four entry points and opens successfully adds it behind
  the plugins that are loaded, and changes none of them; the new plugin is not paused, and the state
  and world are what its \<open>open_plugin\<close> returned.\<close>

theorem load_plugin_appends:
  assumes "chain_ok s ps" "dlopen lib = Some l" "open_plugin l = Some po" "close_plugin l = Some pc"
    and "ok_to_accept_data l = Some pk" "process_data l = Some pp" "plugin_command l = None"
    and "po options (world s) = Inr (rc, st, x)" "rc \<noteq> PLUGIN_OPEN_FAIL"
  shows "\<exists>s' n. load_plugin dlopen lib options al s = Inr (0, s') \<and> chain_ok s' (ps @ [fresh s]) \<and>
    entries s' (ps @ [fresh s]) = entries s ps @ [n] \<and> world s' = x \<and> s_commands s' = s_commands s \<and>
    pl_library n = lib \<and> pl_alias n = al \<and> pl_state n = st \<and> \<not> pl_paused n \<and> pfn_process_data n = pp"
proof -
  define n where "n = \<lparr>pl_paused = False, pl_library = lib, pl_options = options, pl_alias = al,
    pfn_close_plugin = pc, pfn_ok_to_accept_data = pk, pfn_process_data = pp, pl_state = st,
    next_plugin = None, pl_loaded = True\<rparr>"
  have "load_plugin dlopen lib options al s = bindR (link_plugin n (s\<lparr>world := x\<rparr>)) (\<lambda>s'. Inr (0, s'))"
    using assms by (simp add: load_plugin_eq register_plugin_command_def n_def)
  moreover have "entries (s\<lparr>world := x\<rparr>) ps = entries s ps" by (simp add: entries_def nodes_def)
  moreover obtain s' where "link_plugin n (s\<lparr>world := x\<rparr>) = Inr s'" "chain_ok s' (ps @ [fresh s])"
    "entries s' (ps @ [fresh s]) = entries (s\<lparr>world := x\<rparr>) ps @ [n]" "world s' = x" "s_commands s' = s_commands s"
    using link_plugin_ok [of "s\<lparr>world := x\<rparr>" ps n] assms(1) by (auto simp: n_def)
  ultimately show ?thesis by (auto simp: n_def)
qed

theorem load_plugin_appends_witness:
  "\<exists>s'. load_plugin (\<lambda>_. Some csv_library) ''x.so'' None None demo_chain = Inr (0, s') \<and>
     chain_ok s' [0, 1, 2] \<and> map pl_library (entries s' [0, 1, 2]) = [''filter.so'', ''csv.so'', ''x.so'']"
proof -
  have f: "fresh demo_chain = 2" "map pl_library (entries demo_chain [0, 1]) = [''filter.so'', ''csv.so'']"
    by (simp_all add: demo_chain_def entries_def nodes_def)
  show ?thesis
    using load_plugin_appends [OF demo_chain_ok, of "\<lambda>_. Some csv_library" "''x.so''" csv_library open_stateless
      close_nothing accept_always csv_process_data None PLUGIN_OPEN_SUCCESS 0 "world demo_chain" None] f
    by (auto simp: csv_library_def open_stateless_def plugin_codes)
qed

text \<open>C30: unloading by name finds the first plugin with that library path or alias, closes it, takes
  exactly its node out of the chain and frees it; the other plugins keep their places, contents and pause
  flags. For a name that no plugin has, the result of the search is dereferenced unchecked.\<close>

theorem unload_by_name_removes:
  assumes "chain_ok s ps"
  shows "case find (\<lambda>p. names_plugin (the (heap s p)) name) ps of
      None \<Rightarrow> unload_plugin_by_name name s = Inl NullDeref
    | Some p \<Rightarrow> (let n = the (heap s p) in
        (\<forall>x. pfn_close_plugin n (pl_state n) (world s) = Inr x \<longrightarrow>
           (\<exists>s'. unload_plugin_by_name name s = Inr (0, s') \<and> chain_ok s' (remove1 p ps) \<and>
              entries s' (remove1 p ps) = entries s (remove1 p ps) \<and> world s' = x \<and> heap s' p = None \<and>
              s_commands s' = free_command (pl_library n) (s_commands s))))"
proof (cases "find (\<lambda>p. names_plugin (the (heap s p)) name) ps")
  case None
  then show ?thesis by (simp add: unload_plugin_by_name_def locate_ok [OF assms])
next
  case (Some p)
  from unload_by_name_ok [OF assms Some refl] show ?thesis by (simp add: Some Let_def)
qed

theorem unload_by_name_removes_witness:
  "\<exists>s'. unload_plugin_by_name ''f'' demo_chain = Inr (0, s') \<and> chain_ok s' [1] \<and> heap s' 0 = None"
  using unload_by_name_removes [OF demo_chain_ok, of "''f''"]
  by (auto simp: names_plugin_def demo_chain_def Let_def close_nothing_def)

text \<open>C31: the command of a plugin outlives it. \<open>unload_plugin\<close> asks \<open>free_command\<close> to remove the plugin's
  command, which removes the newest one instead. So if another plugin has registered a command since, that
  plugin is without its command, and the one of the plugin unloaded stays: entered at a prompt or in a
  configuration file, it calls the function of a library that no plugin of the chain has open any more, with
  the state of the closed plugin.\<close>

theorem command_outlives_plugin:
  assumes "chain_ok s ps" "find (\<lambda>p. names_plugin (the (heap s p)) name) ps = Some p"
    and "n = the (heap s p)" "pfn_close_plugin n (pl_state n) (world s) = Inr x"
    and "\<forall>q\<in>set ps. q \<noteq> p \<longrightarrow> pl_library (the (heap s q)) \<noteq> pl_library n"
    and "s_commands s = newer @ c # older" "newer \<noteq> []"
    and "\<forall>c'\<in>set newer. \<not> names_command c' (pl_library n)" "names_command c (pl_library n)"
    and "cmd_function c = Some (Plugin_command f)"
  shows "\<exists>s'. unload_plugin_by_name name s = Inr (0, s') \<and>
    (\<forall>q\<in>set (remove1 p ps). pl_library (the (heap s' q)) \<noteq> pl_library n) \<and>
    s_commands s' = tl newer @ c # older \<and>
    (\<forall>w args. l_chain w = s' \<longrightarrow>
       run_listener S (Suc d) (pl_library n) args w =
         bindR (sys_plugin_command S f args (cmd_state c) x) (\<lambda>(rc, y). Inr (rc, w\<lparr>l_chain := s'\<lparr>world := y\<rparr>\<rparr>)))"
proof -
  obtain s' where u: "unload_plugin_by_name name s = Inr (0, s')" "entries s' (remove1 p ps) = entries s (remove1 p ps)"
      "world s' = x" "s_commands s' = free_command (pl_library n) (s_commands s)"
    using unload_by_name_ok [OF assms(1-4)] by blast
  have d: "distinct ps" using assms(1) by (simp add: chain_ok_def)
  have libs: "pl_library (the (heap s' q)) \<noteq> pl_library n" if q: "q \<in> set (remove1 p ps)" for q
  proof -
    have "content (the (heap s' q)) = content (the (heap s q))" using u(2) q by (auto simp: entries_def nodes_def)
    then have "pl_library (the (heap s' q)) = pl_library (the (heap s q))" by (metis content_simps(2))
    with assms(5) q d show ?thesis by auto
  qed
  have cs: "s_commands s' = tl newer @ c # older"
    using u(4) assms(6,7,9) by (auto simp: free_command_eq)
  have first: "find P (ds @ e # es) = Some e" if "\<forall>d\<in>set ds. \<not> P d" "P e" for P ds and e :: "('c fun_ptr, 'a) command" and es
    using that by (induction ds) auto
  have "\<forall>c'\<in>set (tl newer). \<not> names_command c' (pl_library n)" using assms(8) by (cases newer) auto
  then have "find (\<lambda>c. names_command c (pl_library n)) (s_commands s') = Some c"
    unfolding cs using assms(9) by (intro first) auto
  then have "run_listener S (Suc d) (pl_library n) args w =
      bindR (sys_plugin_command S f args (cmd_state c) x) (\<lambda>(rc, y). Inr (rc, w\<lparr>l_chain := s'\<lparr>world := y\<rparr>\<rparr>))"
    if "l_chain w = s'" for w args
    using that assms(10) u(3) by (simp add: run_command_find call_function_def)
  with u(1) libs cs show ?thesis by blast
qed

definition demo_system :: "(nat, unit plugin_world, unit) system" where
  "demo_system = \<lparr>sys_dlopen = (\<lambda>p. if p = ''csv.so'' then Some csv_library else None),
     sys_plugin_command = (\<lambda>_ _ _ x. Inr (0, x)), sys_ftok = (\<lambda>_ _. 1), sys_msgget = (\<lambda>_ _. 7),
     sys_fopen = (\<lambda>p. if p = ''loop'' then Some (''c loop'' @ [newline]) else None),
     sys_lsblk = None, sys_hostname = ''h'', sys_garbage = 0\<rparr>"

definition demo_command :: "string \<Rightarrow> nat \<Rightarrow> (unit fun_ptr, nat) command" where
  "demo_command name st = \<lparr>cmd_name = name, cmd_short_name = name, cmd_params_desc = [], cmd_help = [],
     cmd_function = Some (Plugin_command ()), cmd_interactive_only = False, cmd_state = Some st\<rparr>"

theorem command_outlives_plugin_witness:
  "\<exists>s'. unload_plugin_by_name ''f'' (demo_chain\<lparr>s_commands := [demo_command ''new.so'' 2, demo_command ''filter.so'' 1]\<rparr>) =
     Inr (0, s') \<and> s_commands s' = [demo_command ''filter.so'' 1]"
proof -
  define s where "s = demo_chain\<lparr>s_commands := [demo_command ''new.so'' 2, demo_command ''filter.so'' 1]\<rparr>"
  have ok: "chain_ok s [0, 1]" using demo_chain_ok by (simp add: chain_ok_def s_def)
  have "find (\<lambda>p. names_plugin (the (heap s p)) ''f'') [0, 1] = Some 0"
    by (simp add: s_def names_plugin_def demo_chain_def)
  note x = command_outlives_plugin [OF ok this refl, where x = "world s" and newer = "[demo_command ''new.so'' 2]" and older = "[]"
      and c = "demo_command ''filter.so'' 1" and f = "()" and S = demo_system and d = 0]
  have "\<exists>s'. unload_plugin_by_name ''f'' s = Inr (0, s') \<and> s_commands s' = tl [demo_command ''new.so'' 2] @ [demo_command ''filter.so'' 1]"
    using x by (simp add: s_def demo_chain_def close_nothing_def demo_command_def names_command_def del: run_listener.simps) blast
  then show ?thesis by (simp add: s_def)
qed

text \<open>Unloading all plugins closes them from the first to the last, each in the world its
  predecessor's \<open>close_plugin\<close> has left, and leaves an empty chain.\<close>

theorem unload_all_closes:
  assumes "chain_ok s ps" "close_all (entries s ps) (world s) = Inr x"
  shows "\<exists>s'. unload_all_plugins s = Inr s' \<and> chain_ok s' [] \<and> world s' = x \<and>
    s_commands s' = fold (\<lambda>n. free_command (pl_library n)) (entries s ps) (s_commands s)"
  by (rule unload_all_ok [OF assms])

theorem unload_all_closes_witness:
  "\<exists>s'. unload_all_plugins demo_chain = Inr s' \<and> chain_ok s' [] \<and> world s' = demo_plugin_world"
proof -
  have "close_all (entries demo_chain [0, 1]) (world demo_chain) = Inr demo_plugin_world"
    by (simp add: entries_def nodes_def demo_chain_def close_nothing_def)
  from unload_all_closes [OF demo_chain_ok this] show ?thesis by auto
qed

text \<open>The command \<open>list-plugins\<close> writes past the end of a block whenever a plugin is loaded: the
  block for a plugin's text has no room for the NUL.\<close>

theorem list_plugins_overflows:
  assumes "chain_ok s ps" "ps \<noteq> []"
  shows "list_plugins s = Inl BufferOverflow"
  by (rule list_plugins_overflow [OF assms])

theorem list_plugins_overflows_witness: "list_plugins demo_chain = Inl BufferOverflow"
  using list_plugins_overflows [OF demo_chain_ok] by simp

text \<open>\<open>execute_plugin_chain\<close> reads the head of the chain before it takes the lock. If the thread that
  holds the lock unloads the first plugin meanwhile, the loop, whatever its fuel, starts with a node
  that has been freed.\<close>

theorem execute_with_stale_head:
  assumes "chain_ok s (p # ps)" "names_plugin (the (heap s p)) name"
    and "unload_plugin_by_name name s = Inr (0, s')" "0 < fuel"
  shows "execute_from fuel (plugins s) rec s' = Inl UseAfterFree"
  by (rule stale_head [OF assms])

theorem execute_with_stale_head_witness:
  "\<exists>s'. unload_plugin_by_name ''f'' demo_chain = Inr (0, s') \<and>
     execute_from (loop_fuel s') (plugins demo_chain) demo_record s' = Inl UseAfterFree"
proof -
  have "find (\<lambda>p. names_plugin (the (heap demo_chain p)) ''f'') [0, 1] = Some 0"
    by (simp add: names_plugin_def demo_chain_def)
  from unload_by_name_ok [OF demo_chain_ok this refl, of demo_plugin_world]
  obtain s' where s': "unload_plugin_by_name ''f'' demo_chain = Inr (0, s')"
    by (auto simp: demo_chain_def close_nothing_def)
  with execute_with_stale_head [OF demo_chain_ok _ s', of "loop_fuel s'" demo_record]
  show ?thesis by (simp add: loop_fuel_def names_plugin_def demo_chain_def)
qed

section \<open>Commands\<close>

text \<open>\<open>free_command\<close>, which should remove the named command, always removes the newest one: if the
  newest does not have the name but an older one has, the newest is gone and the named one stays; with no
  command of that name nothing changes.\<close>

theorem free_command_removes_head:
  "free_command name cs = (if \<exists>c\<in>set cs. names_command c name then tl cs else cs) \<and>
   (\<forall>c ds d. cs = c # ds \<and> \<not> names_command c name \<and> d \<in> set ds \<and> names_command d name \<longrightarrow>
      free_command name cs = ds \<and> d \<in> set (free_command name cs))"
  by (auto simp: free_command_eq)

theorem free_command_removes_head_witness:
  "free_command ''old'' [listener_command ''new'' ''n'' [] [] (Some C_help) False,
      listener_command ''old'' ''o'' [] [] (Some C_quit) False :: (unit fun_ptr, nat) command] =
   [listener_command ''old'' ''o'' [] [] (Some C_quit) False]"
  using free_command_removes_head [of "''old''" "[listener_command ''new'' ''n'' [] [] (Some C_help) False,
      listener_command ''old'' ''o'' [] [] (Some C_quit) False :: (unit fun_ptr, nat) command]"]
  by (simp add: names_command_def listener_command_def)

text \<open>C32: the command line is executed as it is written. For any sequence of commands in long or short
  form with their parameters (at most 127 each, none beginning with a dash), \<open>parse_args\<close> runs them in
  order with exactly these parameters and stops at the first that fails.\<close>

theorem parse_args_runs_in_order:
  assumes "\<forall>g\<in>set gs. group_ok g" "gs \<noteq> []"
  shows "parse_args runc (prog # concat (map print_group gs)) w = run_groups runc gs w"
  by (rule parse_args_groups [OF assms])

theorem parse_args_runs_in_order_witness:
  "parse_args (\<lambda>name args w. Inr (if name = ''bad'' then 1 else 0, w @ [(name, args)]))
     [''mq_listener'', ''-m'', ''mq1'', ''--bad'', ''-p'', ''x.so'', ''opts''] [] =
   Inr (- 1, [(''m'', [''mq1'']), (''bad'', [])])"
  using parse_args_runs_in_order [of "[(False, ''m'', [''mq1'']), (True, ''bad'', []), (False, ''p'', [''x.so'', ''opts''])]"
      "\<lambda>name args w. Inr (if name = ''bad'' then 1 else 0, w @ [(name, args)])" "''mq_listener''" "[]"]
  by (simp add: group_ok_def print_group_def max_tokens_def)

text \<open>C33: a line is split at blanks and newlines into a command and its arguments, for any tokens; with
  128 tokens or more the array on the stack is overrun.\<close>

theorem parse_command_tokens:
  assumes "\<forall>t\<in>set (name # args). t \<noteq> [] \<and> CHR '' '' \<notin> set t \<and> newline \<notin> set t"
  shows "parse_command runc (join CHR '' '' (name # args) @ [newline]) w =
    (if length args < 127 then bindR (runc name args w) (\<lambda>(rc, w'). Inr w') else Inl BufferOverflow)"
  by (rule parse_command_line [OF assms])

theorem parse_command_tokens_witness:
  "parse_command (\<lambda>name args w. Inr (0, (name, args))) (''u alias1'' @ [newline]) (''x'', []) = Inr (''u'', [''alias1''])"
  using parse_command_tokens [of "''u''" "[''alias1'']" "\<lambda>name args w. Inr (0, (name, args))" "(''x'', [])"]
  by (simp add: newline_def)

lemma commands_array: "set_commands_array commands cs = Inr (rev (butlast commands) @ cs)"
  by (simp add: commands_def set_command_def listener_command_def)

text \<open>The argument of \<open>load-plugin\<close> is split at its first colon; without a colon, or with nothing
  behind it, the plugin has no alias. A library that cannot be loaded ends the program, and a missing
  argument is dereferenced.\<close>

lemma load_plugin_argument:
  assumes "CHR '':'' \<notin> set lib"
  shows "split_library lib = (lib, None) \<and>
    split_library (lib @ '':'' @ al) = (lib, if al = [] then None else Some al) \<and>
    (sys_dlopen S lib = None \<longrightarrow> c_load_plugin S [lib] w = Inl (Exited 1)) \<and>
    c_load_plugin S [] w = Inl NullDeref"
proof -
  have "strstr lib '':'' = None"
    using assms by (induction lib) (auto simp: Cons_prefix_Cons)
  moreover have "takeWhile (\<lambda>c. c \<noteq> CHR '':'') lib = lib" using assms by (auto simp: takeWhile_eq_all_conv)
  ultimately have 1: "split_library lib = (lib, None)" by (simp add: split_library_def Let_def)
  have "strstr (lib @ CHR '':'' # al) '':'' = Some (CHR '':'' # al)" using assms by (induction lib) auto
  moreover have "takeWhile (\<lambda>c. c \<noteq> CHR '':'') (lib @ CHR '':'' # al) = lib" using assms by simp
  ultimately have 2: "split_library (lib @ '':'' @ al) = (lib, if al = [] then None else Some al)"
    by (simp add: split_library_def Let_def)
  show ?thesis using 1 2 by (simp add: c_load_plugin_def on_chain_def load_plugin_eq)
qed

text \<open>A configuration file that includes itself recurses without end: for every stack depth the
  command \<open>config\<close> on it overflows the stack, as long as the table of commands finds it.\<close>

theorem config_includes_itself:
  assumes "sys_fopen S path = Some (''c '' @ path @ [newline])" "path \<noteq> []" "CHR '' '' \<notin> set path"
    and "newline \<notin> set path" "NUL \<notin> set path" "length path < 4000"
    and "find (\<lambda>c. names_command c ''c'') (s_commands (l_chain w)) = Some c" "cmd_function c = Some C_config"
  shows "run_listener S d ''c'' [path] w = Inl StackOverflow"
proof (induction d)
  case (Suc d)
  have line: "''c '' @ path @ [newline] = (''c '' @ path) @ newline # []" by simp
  have "fgets PATH_MAX ((''c '' @ path) @ newline # []) = Some ((''c '' @ path) @ [newline], [])"
    using assms(4,6) by (intro fgets_line) (auto simp: PATH_MAX_def newline_def)
  then have lines: "fgets_all PATH_MAX (''c '' @ path @ [newline]) = [''c '' @ path @ [newline]]"
    unfolding line by (subst fgets_all_Some) (auto simp: PATH_MAX_def fgets_all_None fgets_def)
  have buf: "takeWhile (\<lambda>c. c \<noteq> NUL) (''c '' @ path @ [newline]) = ''c '' @ path @ [newline]"
    using assms(5) by (subst takeWhile_eq_all_conv) (auto simp: newline_def)
  have "strtok_all [CHR '' '', CHR 0x0A] (''c'' @ CHR '' '' # (path @ newline # [])) = [''c'', path]"
  proof -
    have "strtok_all [CHR '' '', CHR 0x0A] (path @ newline # []) = [path]"
      using assms(2-4) strtok_all_token [of path "[CHR '' '', CHR 0x0A]" newline "[]"] by (auto simp: newline_def)
    then show ?thesis using strtok_all_token [of "''c''" "[CHR '' '', CHR 0x0A]" "CHR '' ''"] by simp
  qed
  then have "parse_command (run_listener S d) (''c '' @ path @ [newline]) w = Inl StackOverflow"
    using Suc by (simp add: parse_command_def max_tokens_def Let_def)
  then have "c_config S (run_listener S d) [path] w = Inl StackOverflow"
    using assms(1) lines buf by (simp add: c_config_def Let_def)
  then show ?case
    using assms(7,8) by (simp add: run_command_find call_function_def)
qed simp

theorem config_includes_itself_witness:
  "run_listener demo_system 1000 ''c'' [''loop''] ((initial_listener demo_plugin_world :: (nat, unit plugin_world, unit) listener)
     \<lparr>l_chain := (initial_chain demo_plugin_world)\<lparr>s_commands := commands\<rparr>\<rparr>) = Inl StackOverflow"
  using config_includes_itself [of demo_system "''loop''" "(initial_listener demo_plugin_world)
     \<lparr>l_chain := (initial_chain demo_plugin_world)\<lparr>s_commands := commands\<rparr>\<rparr>"
     "listener_command ''config'' ''c'' ''<path>'' ''Start mq_listener with particular config file'' (Some C_config) False" 1000]
  by (simp add: demo_system_def newline_def commands_def names_command_def listener_command_def del: run_listener.simps)

section \<open>Devices\<close>

definition demo_device :: "string \<Rightarrow> string \<Rightarrow> device_config" where
  "demo_device name mount = \<lparr>dc_device_name = name, dc_maj_min = ''8:1'', dc_rm = CHR ''0'',
     dc_device_size = ''40G'', dc_ro = CHR ''0'', dc_device_type = ''part'', dc_mount_point = mount\<rparr>"

text \<open>C29: whatever \<open>lsblk\<close> prints, reading it is defined, keeps the maps ordered and leaves the
  descriptor table alone: no line \<open>fgets\<close> returns can fill the last array of the struct. And a table of
  devices printed as \<open>lsblk -P\<close> does is read back whole: each device is recorded at its mount point, where
  it takes the place of an earlier one, and the name of the last one mounted at \<open>/\<close> becomes the root
  device; nothing else is recorded. The names in the table have no blank, quote or newline and fit the arrays
  of the struct.\<close>

theorem capture_any_lsblk:
  assumes "resolver_ok s"
  shows "(\<exists>s'. capture_device_info lsblk s = Inr s' \<and> resolver_ok s' \<and> fd_to_dev s' = fd_to_dev s) \<and>
    ((\<forall>dc\<in>set dcs. device_ok dc) \<longrightarrow>
      (\<exists>s'. capture_device_info (Some (concat (map (\<lambda>dc. print_device dc @ [newline]) dcs))) s = Inr s' \<and>
         (\<forall>mp. map_find (fs_mount_path_to_dev s') mp =
            (case filter (\<lambda>dc. dc_mount_point dc = mp \<and> mp \<noteq> ''/'') dcs of
               [] \<Rightarrow> map_find (fs_mount_path_to_dev s) mp
             | ds \<Rightarrow> Some (dc_device_name (last ds)))) \<and>
         root_fs_dev s' =
            (case filter (\<lambda>dc. dc_mount_point dc = ''/'') dcs of
               [] \<Rightarrow> root_fs_dev s
             | ds \<Rightarrow> dc_device_name (last ds))))"
proof -
  have m: "(map_find (fs_mount_path_to_dev s) ++
      map_of (rev (map (\<lambda>dc. (dc_mount_point dc, dc_device_name dc)) (filter (\<lambda>dc. dc_mount_point dc \<noteq> ''/'') dcs)))) mp =
    (case filter (\<lambda>dc. dc_mount_point dc = mp \<and> mp \<noteq> ''/'') dcs of
       [] \<Rightarrow> map_find (fs_mount_path_to_dev s) mp | ds \<Rightarrow> Some (dc_device_name (last ds)))" for mp
    by (induction dcs rule: rev_induct) (auto simp: map_add_def split: list.splits option.splits)
  have "root_fs_dev (fold add_device dcs s) =
    (case filter (\<lambda>dc. dc_mount_point dc = ''/'') dcs of [] \<Rightarrow> root_fs_dev s | ds \<Rightarrow> dc_device_name (last ds))"
    by (auto simp: fold_add_device_root last_map split: list.splits)
  with m fold_add_device [OF assms, of dcs] capture_printed [of dcs s] capture_device_info_ok [OF assms, of lsblk]
  show ?thesis by auto
qed

theorem capture_any_lsblk_witness:
  "\<exists>s s'. capture_device_info (Some ''RM=x y'') initial_resolver = Inr s' \<and> resolver_ok s' \<and>
     capture_device_info (Some (concat (map (\<lambda>dc. print_device dc @ [newline])
       [demo_device ''sda1'' ''/'', demo_device ''sdb1'' ''/home'', demo_device ''sdc1'' ''/home'']))) initial_resolver = Inr s \<and>
     map_find (fs_mount_path_to_dev s) ''/home'' = Some ''sdc1'' \<and> root_fs_dev s = ''sda1''"
proof -
  define dcs where "dcs = [demo_device ''sda1'' ''/'', demo_device ''sdb1'' ''/home'', demo_device ''sdc1'' ''/home'']"
  have ok: "\<forall>dc\<in>set dcs. device_ok dc"
    by (simp add: dcs_def device_ok_def demo_device_def plain_def device_lengths print_device_def device_tokens_def
        quoted_def quote_def newline_def)
  note x = capture_any_lsblk [OF initial_resolver_ok, of "Some ''RM=x y''" dcs]
  obtain s where s: "capture_device_info (Some (concat (map (\<lambda>dc. print_device dc @ [newline]) dcs))) initial_resolver = Inr s"
    "map_find (fs_mount_path_to_dev s) ''/home'' = Some ''sdc1''" "root_fs_dev s = ''sda1''"
    using x [THEN conjunct2, THEN mp, OF ok] by (auto simp: dcs_def demo_device_def)
  with x show ?thesis unfolding dcs_def by blast
qed

text \<open>C28: a table of devices printed as \<open>lsblk -P\<close> does is read back whole, and a path is then on the
  device with the shortest mount point that is a prefix of it (of several devices with one mount point,
  the last), not the longest; the root device serves paths under no mount point.\<close>

theorem devices_of_paths:
  assumes "\<forall>dc\<in>set dcs. device_ok dc"
    and "M = map_of (rev (map (\<lambda>dc. (dc_mount_point dc, dc_device_name dc))
                            (filter (\<lambda>dc. dc_mount_point dc \<noteq> ''/'') dcs)))"
  shows "\<exists>s. capture_device_info (Some (concat (map (\<lambda>dc. print_device dc @ [newline]) dcs))) initial_resolver = Inr s \<and>
    (\<forall>path mp dev. M mp = Some dev \<longrightarrow> prefix mp path \<longrightarrow>
       (\<forall>mp'. M mp' \<noteq> None \<longrightarrow> prefix mp' path \<longrightarrow> length mp \<le> length mp') \<longrightarrow> path_to_dev path s = dev) \<and>
    (\<forall>path. (\<forall>mp. M mp \<noteq> None \<longrightarrow> \<not> prefix mp path) \<longrightarrow> path_to_dev path s = root_fs_dev s)"
proof -
  define s where "s = fold add_device dcs initial_resolver"
  have f: "resolver_ok s" "map_find (fs_mount_path_to_dev s) = M"
    using fold_add_device [OF initial_resolver_ok, of dcs]
    by (simp_all add: s_def assms(2) initial_resolver_def map_add_def fun_eq_iff split: option.splits)
  show ?thesis
    using capture_printed [OF assms(1), of initial_resolver] path_to_dev_shortest [OF f(1)] path_to_dev_root [OF f(1)]
    unfolding f(2) s_def [symmetric] by blast
qed

theorem devices_of_paths_witness:
  "\<exists>s. capture_device_info (Some (concat (map (\<lambda>dc. print_device dc @ [newline])
       [demo_device ''sda1'' ''/'', demo_device ''sdb1'' ''/home'', demo_device ''sdc1'' ''/home/data'']))) initial_resolver = Inr s \<and>
     path_to_dev ''/home/data/x'' s = ''sdb1''"
proof -
  have ok: "\<forall>dc\<in>set [demo_device ''sda1'' ''/'', demo_device ''sdb1'' ''/home'', demo_device ''sdc1'' ''/home/data'']. device_ok dc"
    by (simp add: device_ok_def demo_device_def plain_def device_lengths print_device_def device_tokens_def quoted_def quote_def newline_def)
  from devices_of_paths [OF ok refl] obtain s where s:
    "capture_device_info (Some (concat (map (\<lambda>dc. print_device dc @ [newline])
       [demo_device ''sda1'' ''/'', demo_device ''sdb1'' ''/home'', demo_device ''sdc1'' ''/home/data'']))) initial_resolver = Inr s"
    "\<forall>path mp dev. map_of [(''/home/data'', ''sdc1''), (''/home'', ''sdb1'')] mp = Some dev \<longrightarrow> prefix mp path \<longrightarrow>
       (\<forall>mp'. map_of [(''/home/data'', ''sdc1''), (''/home'', ''sdb1'')] mp' \<noteq> None \<longrightarrow> prefix mp' path \<longrightarrow> length mp \<le> length mp') \<longrightarrow>
       path_to_dev path s = dev"
    by (auto simp: demo_device_def)
  have "path_to_dev ''/home/data/x'' s = ''sdb1''"
    by (rule s(2) [rule_format, of "''/home''"]) (auto split: if_splits)
  with s(1) show ?thesis by blast
qed

text \<open>One device without a mount point is enough to make the table useless: \<open>MOUNTPOINT=""\<close> is
  entered as a mount point that is a prefix of everything, so every path is on the last such device.\<close>

theorem unmounted_device_captures_all:
  assumes "\<forall>dc\<in>set dcs. device_ok dc" "dcs = as @ dc # bs" "dc_mount_point dc = []"
    and "\<forall>d\<in>set bs. dc_mount_point d \<noteq> []"
  shows "\<exists>s. capture_device_info (Some (concat (map (\<lambda>dc. print_device dc @ [newline]) dcs))) initial_resolver = Inr s \<and>
    (\<forall>path. path_to_dev path s = dc_device_name dc)"
proof -
  define s where "s = fold add_device dcs initial_resolver"
  define M where "M = map_of (rev (map (\<lambda>dc. (dc_mount_point dc, dc_device_name dc))
                            (filter (\<lambda>dc. dc_mount_point dc \<noteq> ''/'') dcs)))"
  have f: "resolver_ok s" "map_find (fs_mount_path_to_dev s) = M"
    using fold_add_device [OF initial_resolver_ok, of dcs]
    by (simp_all add: s_def M_def initial_resolver_def map_add_def fun_eq_iff split: option.splits)
  have "map_of (rev (map (\<lambda>dc. (dc_mount_point dc, dc_device_name dc)) (filter (\<lambda>dc. dc_mount_point dc \<noteq> ''/'') bs))) [] = None"
    using assms(4) by (auto simp: map_of_eq_None_iff)
  then have "M [] = Some (dc_device_name dc)"
    using assms(2,3) by (simp add: M_def map_add_def)
  then have "path_to_dev path s = dc_device_name dc" for path
    using path_to_dev_shortest [OF f(1), of "[]" "dc_device_name dc" path] by (simp add: f(2))
  then show ?thesis
    using capture_printed [OF assms(1), of initial_resolver] by (simp add: s_def)
qed

theorem unmounted_device_captures_all_witness:
  "\<exists>s. capture_device_info (Some (concat (map (\<lambda>dc. print_device dc @ [newline])
       [demo_device ''sda'' [], demo_device ''sda1'' ''/'']))) initial_resolver = Inr s \<and> path_to_dev ''/etc/passwd'' s = ''sda''"
proof -
  have ok: "\<forall>dc\<in>set [demo_device ''sda'' [], demo_device ''sda1'' ''/'']. device_ok dc"
    by (simp add: device_ok_def demo_device_def plain_def device_lengths print_device_def device_tokens_def quoted_def quote_def newline_def)
  from unmounted_device_captures_all [OF ok, of "[]" "demo_device ''sda'' []" "[demo_device ''sda1'' ''/'']"]
  show ?thesis by (auto simp: demo_device_def)
qed

text \<open>C27: the life of a descriptor. After a record of an OPEN with a path, and any records that do not
  open or close the same descriptor, a record of a read, write, metadata, space or sync operation or of
  the CLOSE on it is given the device the path was on at the OPEN; the CLOSE ends it. No other
  descriptor is affected.\<close>

theorem device_between_open_and_close:
  assumes "resolver_ok r" "is_open o'" "mr_fd o' \<noteq> FD_NONE" "mr_s1 o' \<noteq> []"
    and "\<forall>rec\<in>set (o' # u # recs). length (mr_s1 rec) < PATH_MAX"
    and "\<forall>rec\<in>set recs. leaves_fd (mr_fd o') rec"
    and "uses_device u" "\<not> is_open u" "mr_fd u = mr_fd o'"
  shows "\<exists>outs r1 out r2. run track_record (o' # recs) r = Inr (outs, r1) \<and> track_record u r1 = Inr (out, r2) \<and>
    mr_device out = take DEVICE_LEN (path_to_dev (mr_s1 o') r) \<and>
    (is_close u \<longrightarrow> fd_map r2 (mr_fd o') = None) \<and>
    (\<forall>fd. fd \<noteq> mr_fd o' \<longrightarrow> fd_map r2 fd = fd_map r1 fd)"
proof -
  obtain out0 r0 where 0: "track_record o' r = Inr (out0, r0)" "resolver_ok r0"
    "fd_map r0 = spec_map (\<lambda>p. path_to_dev p r) o' (fd_map r)"
    using track_record_ok [OF assms(1), of o'] assms(5) by auto
  obtain outs r1 where 1: "run track_record recs r0 = Inr (outs, r1)" "resolver_ok r1"
    "fd_map r1 (mr_fd o') = fd_map r0 (mr_fd o')"
    using run_track_leaves [OF 0(2), of recs "mr_fd o'"] assms(5,6) by auto
  have M: "fd_map r1 (mr_fd u) = Some (path_to_dev (mr_s1 o') r)"
    using 1(3) 0(3) assms(2-4,9) by (simp add: spec_map_def)
  obtain r2 where 2: "track_record u r1 = Inr (spec_device u (if is_close u then fd_map r1
      else spec_map (\<lambda>p. path_to_dev p r1) u (fd_map r1)), r2)"
    "fd_map r2 = spec_map (\<lambda>p. path_to_dev p r1) u (fd_map r1)"
    using track_record_ok [OF 1(2), of u] assms(5) by auto
  show ?thesis
    using 0(1) 1(1) 2 M assms(3,7-9) by (auto simp: spec_device_def spec_map_def)
qed

theorem device_between_open_and_close_witness:
  "\<exists>outs r1 out r2. run track_record [demo_record\<lparr>mr_dom_type := 13\<rparr>]
       (initial_resolver\<lparr>fs_mount_path_to_dev := [(''/home'', ''sdb1'')]\<rparr>) = Inr (outs, r1) \<and>
     track_record (demo_record\<lparr>mr_dom_type := 13, mr_op_type := 1, mr_s1 := []\<rparr>) r1 = Inr (out, r2) \<and>
     mr_device out = ''sdb1'' \<and> fd_map r2 5 = None"
  using device_between_open_and_close
    [of "initial_resolver\<lparr>fs_mount_path_to_dev := [(''/home'', ''sdb1'')]\<rparr>" "demo_record\<lparr>mr_dom_type := 13\<rparr>"
        "demo_record\<lparr>mr_dom_type := 13, mr_op_type := 1, mr_s1 := []\<rparr>" "[]"]
  by (auto simp: demo_record_def zero_record_def resolver_ok_def initial_resolver_def map_ok_def is_open_def
      is_close_def uses_device_def has_domain_def FD_NONE_def buffer_sizes path_to_dev_def)

section \<open>Plugins\<close>

text \<open>C35: a chain of \<open>filter_domains\<close> and \<open>output_csv\<close> prints a line for a record exactly when the bit of
  the record's domain is set in the filter's mask, and otherwise prints nothing; the record itself is
  not changed.\<close>

theorem filter_gates_csv:
  assumes "chain_ok s [p, q]" "entries s [p, q] = [f, c]" "shipped net (world s) f" "shipped net (world s) c"
    and "pfn_process_data f = filter_process_data" "pw_masks (world s) (pl_state f) = Some m"
    and "pfn_process_data c = csv_process_data" "printable rec"
  shows "\<exists>s' line. execute_plugin_chain rec s = Inr (rec, s') \<and>
    pw_out (world s') = pw_out (world s) @ line \<and> (line \<noteq> [] \<longleftrightarrow> bit m (nat (mr_dom_type rec)))"
proof -
  define dropped where "dropped \<longleftrightarrow> \<not> bit m (nat (mr_dom_type rec))"
  have acc: "pfn_ok_to_accept_data f = accept_always" "pfn_ok_to_accept_data c = accept_always"
    using assms(3,4) by (simp_all add: shipped_def)
  have dom: "0 \<le> mr_dom_type rec" "mr_dom_type rec < 32"
    using assms(8) by (simp_all add: printable_def)
  have off: "offer rec f (world s) = Inr (\<not> dropped, rec, f\<lparr>pl_paused := False\<rparr>, world s)"
    using acc(1) assms(5,6) filter_process_eq [OF dom, of m]
    by (simp add: offer_accepting filter_process_data_def dropped_def plugin_codes)
  obtain fs where fs: "csv_fields rec = Inr fs"
    using line_strings_printable [OF assms(8)] by (simp add: csv_fields_def)
  have offc: "offer rec c (world s) = Inr (True, rec, c\<lparr>pl_paused := False\<rparr>,
      (world s)\<lparr>pw_out := pw_out (world s) @ join CHR '','' fs @ [newline]\<rparr>)"
    using acc(2) assms(7) fs
    by (simp add: offer_accepting csv_process_data_def csv_process_def plugin_codes)
  have all: "offer_all rec (entries s [p, q]) (world s) =
    (if dropped then Inr (rec, [f\<lparr>pl_paused := False\<rparr>, c], world s)
     else Inr (rec, [f\<lparr>pl_paused := False\<rparr>, c\<lparr>pl_paused := False\<rparr>],
       (world s)\<lparr>pw_out := pw_out (world s) @ join CHR '','' fs @ [newline]\<rparr>))"
    using off offc by (simp add: assms(2))
  show ?thesis
  proof (cases dropped)
    case True
    with all execute_refines [OF assms(1), of rec] obtain s' where
      "execute_plugin_chain rec s = Inr (rec, s')" "world s' = world s" by auto
    with True show ?thesis by (intro exI [of _ s'] exI [of _ "[]"]) (simp add: dropped_def)
  next
    case False
    with all execute_refines [OF assms(1), of rec] obtain s' where
      "execute_plugin_chain rec s = Inr (rec, s')"
      "world s' = (world s)\<lparr>pw_out := pw_out (world s) @ join CHR '','' fs @ [newline]\<rparr>" by auto
    with False show ?thesis
      by (intro exI [of _ s'] exI [of _ "join CHR '','' fs @ [newline]"]) (simp add: dropped_def)
  qed
qed

theorem filter_gates_csv_witness:
  "\<exists>s' line. execute_plugin_chain demo_record demo_chain = Inr (demo_record, s') \<and>
     pw_out (world s') = line \<and> line \<noteq> []"
  using filter_gates_csv [OF demo_chain_ok, where f = "demo_node ''filter.so'' (Some ''f'') filter_process_data 1 None"
      and c = "demo_node ''csv.so'' None csv_process_data 0 None" and m = 1 and rec = demo_record and net = None] demo_chain_shipped demo_record_printable
  by (auto simp: entries_def nodes_def demo_chain_def demo_plugin_world_def initial_plugin_world_def
      demo_record_def zero_record_def)

text \<open>C36: \<open>print-mask\<close> prints the names of the enabled domains, separated by commas, and the list it
  prints, given to \<open>update-mask\<close>, restores the mask, provided that the mask has only bits of domains. A
  mask with any other bit, such as the one of the list \<open>ALL\<close>, makes it read past the table of names.\<close>

theorem print_mask_update_mask:
  "if \<forall>i\<ge>19. \<not> bit m i
   then filter_command [''print-mask''] m =
          Inr (m, ''domain_mask:'' @ join CHR '','' (mask_names m 0) @ [CHR 0x0A]) \<and>
        filter_command [''update-mask'', join CHR '','' (mask_names m 0)] m' = Inr (m, [])
   else filter_command [''print-mask''] m = Inl OutOfBounds"
proof (cases "\<forall>i\<ge>19. \<not> bit m i")
  case True
  then show ?thesis by (simp add: filter_command_def print_mask_ok print_mask_roundtrip)
next
  case False
  then obtain k where "bit m k" "19 \<le> k" by auto
  from print_mask_out_of_bounds [OF this] False show ?thesis by (simp add: filter_command_def)
qed

theorem print_mask_update_mask_witness:
  "filter_command [''print-mask''] 8225 = Inr (8225, ''domain_mask:LINKS,SYNCS,FILE_OPEN_CLOSE'' @ [CHR 0x0A]) \<and>
   filter_command [''update-mask'', ''LINKS,SYNCS,FILE_OPEN_CLOSE''] 0 = Inr (8225, [])"
proof -
  have bits: "\<forall>i\<ge>19. \<not> bit (8225 :: 32 word) i"
  proof -
    have "\<not> bit (take_bit 14 (8225 :: 32 word)) i" if "19 \<le> i" for i
      unfolding bit_take_bit_iff using that by linarith
    then show ?thesis by simp
  qed
  have names: "mask_names 8225 0 = [''LINKS'', ''SYNCS'', ''FILE_OPEN_CLOSE'']"
    by (simp add: mask_names_def upt_rec domains_names_eq bit_iff_odd)
  show ?thesis
    using print_mask_update_mask [of 8225 0] bits by (simp add: names)
qed



text \<open>\<open>output_csv\<close> reads outside its objects exactly on the records that no monitor sends or that the
  resolver damages: a domain or operation number outside its table, or a string that fills its array,
  such as a device name of ten characters or more.\<close>

lemma csv_defined_iff:
  "defined (csv_process r out) \<longleftrightarrow>
     length (mr_facility r) < STR_LEN \<and> length (mr_device r) < DEVICE_LEN \<and>
     0 \<le> mr_dom_type r \<and> mr_dom_type r < int (length domains_names) \<and>
     0 \<le> mr_op_type r \<and> mr_op_type r < int (length ops_names) \<and>
     length (mr_s1 r) < PATH_MAX \<and> length (mr_s2 r) < STR_LEN"
  unfolding line_strings_defined [symmetric]
  by (cases "line_strings r") (auto simp: csv_process_def csv_fields_def)

text \<open>C38: every tag value \<open>output_influxdb\<close> prepares is well formed for the line protocol and fits its
  array with the NUL, for any source string and any array of at least two bytes: special characters
  stand behind a backslash, no backslash stands alone (also not at the end of a value cut short), and
  there is no newline.\<close>

theorem escaped_value_safe:
  assumes "copy_escaped_tag_value src n = Inr d" "2 \<le> n"
  shows "escaped d \<and> length d < n"
  using escape_from_ok [of n src None "[]" d] assms by (simp add: copy_escaped_tag_value_def)

theorem escaped_value_safe_witness: "escaped (''a'' @ [backslash] @ '' b'') \<and> length (''a'' @ [backslash] @ '' b'') < 10"
proof -
  have "copy_escaped_tag_value ''a b'' 10 = Inr (''a'' @ [backslash] @ '' b'')"
    by (simp add: copy_escaped_tag_value_def special_def newline_def backslash_def)
  from escaped_value_safe [OF this] show ?thesis by simp
qed

text \<open>A value that fits, with no newline, no backslash and no special character twice in a row or at
  its start, is escaped without loss: removing the backslashes gives it back. One that starts with a
  special character makes the function use a variable that was never set.\<close>

theorem escape_roundtrip:
  assumes "clean_after None src" "length (escape_all src) < n"
  shows "copy_escaped_tag_value src n = Inr (escape_all src) \<and> unescape (escape_all src) = src \<and>
    (\<forall>c. special c \<longrightarrow> copy_escaped_tag_value (c # src) n = Inl UninitRead)"
  using escape_from_clean [OF assms(1), of "[]" n] assms clean_no_backslash [OF assms(1)]
  by (simp add: copy_escaped_tag_value_def unescape_escape_all)

theorem escape_roundtrip_witness: "unescape (escape_all ''a b=c'') = ''a b=c''"
  using escape_roundtrip [of "''a b=c''" 20]
  by (simp add: special_def newline_def backslash_def escape_all_def)

text \<open>\<open>output_influxdb\<close> accepts a record exactly when the post succeeds, and refuses it, which pauses
  the plugin, when libcurl gives no handle or the post fails; the white-space test in front of the tag
  values is true of the empty string only; and unloading the plugin frees a string literal.\<close>

theorem influx_answers:
  assumes "influx_postdata data = Inr postdata"
  shows "influx_process einit perform data (out, x) =
      Inr (if fst (einit x) \<and> fst (perform influx_url postdata (snd (einit x)))
           then PLUGIN_ACCEPT_DATA else PLUGIN_REFUSE_DATA,
           if fst (einit x) then out @ postdata @ [newline] else out,
           if fst (einit x) then snd (perform influx_url postdata (snd (einit x))) else snd (einit x)) \<and>
    length postdata \<le> 1023 \<and> (\<forall>s. is_all_whitespace s \<longleftrightarrow> s = []) \<and> influx_close x = Inl BadFree"
proof -
  have "length postdata \<le> 1023"
    using assms by (auto simp: influx_postdata_def)
  with assms show ?thesis
    by (auto simp: influx_process_def is_all_whitespace_eq influx_close_def split: prod.splits)
qed

theorem influx_answers_witness:
  "\<exists>postdata. influx_postdata zero_record = Inr postdata \<and>
     influx_process (\<lambda>x. (True, x)) (\<lambda>u d x. (False, x)) zero_record ([], ()) =
       Inr (PLUGIN_REFUSE_DATA, postdata @ [newline], ())"
proof -
  have "printable zero_record"
    by (simp add: printable_def zero_record_def terminated_record_def buffer_sizes length_ops_names)
  then have "\<exists>postdata. influx_postdata zero_record = Inr postdata"
    by (simp add: influx_postdata_def line_strings_printable escaped_or_empty_def zero_record_def buffer_sizes)
  then obtain postdata where p: "influx_postdata zero_record = Inr postdata" ..
  from influx_answers [OF p, of "\<lambda>x. (True, x)" "\<lambda>u d x. (False, x)" "[]" "()"] p show ?thesis by simp
qed

end
