(* ===== verification/Interposer.thy ===== *)
theory Interposer
imports Domain_Mask
begin

text \<open>
  \<open>io_monitor/generate_interposer.sh\<close>, which turns each line of \<open>monitored_functions.data\<close> into the
  wrapper of a library function, and the lines themselves.

  The script is a text transformation, and so is its model: a line of the data in, the lines of the four
  generated headers out. \<open>sh\<close> is taken to be \<open>dash\<close>, whose \<open>echo\<close> turns \<open>\n\<close> into a line break. The
  last step, the layout by \<open>indent\<close>, is left out.
\<close>

section \<open>The commands the script is made of\<close>

text \<open>\<open>echo $X\<close> without quotes: the words of \<open>X\<close> with one blank between them.\<close>

definition blank :: "char \<Rightarrow> char" where
  "blank c = (if c = CHR 0x09 \<or> c = CHR 0x0A then CHR '' '' else c)"

definition echo :: "string \<Rightarrow> string" where
  "echo s = join CHR '' '' (filter (\<lambda>w. w \<noteq> []) (split_line CHR '' '' (map blank s)))"

text \<open>\<open>cut -d c -f n\<close>, \<open>-f n-\<close> and \<open>-f 1 --complement\<close>. A line without the delimiter is printed whole.\<close>

definition select_field :: "nat \<Rightarrow> string list \<Rightarrow> string" where
  "select_field n fs =
     (if length fs = 1 then hd fs else if n \<le> length fs then fs ! (n - 1) else [])"

definition cut_field :: "char \<Rightarrow> nat \<Rightarrow> string \<Rightarrow> string" where
  "cut_field c n s = select_field n (split_line c s)"

definition cut_from :: "char \<Rightarrow> nat \<Rightarrow> string \<Rightarrow> string" where
  "cut_from c n s = (let fs = split_line c s in if length fs = 1 then s else join c (drop (n - 1) fs))"

text \<open>\<open>rev | cut -d ' ' -f 1 | rev\<close> and \<open>rev | cut -d ' ' -f 1 --complement | rev\<close>.\<close>

definition last_word :: "string \<Rightarrow> string" where
  "last_word s = rev (cut_field CHR '' '' 1 (rev s))"

definition but_last_word :: "string \<Rightarrow> string" where
  "but_last_word s = rev (cut_from CHR '' '' 2 (rev s))"

definition grep_F :: "string \<Rightarrow> string \<Rightarrow> bool" where
  "grep_F needle s \<longleftrightarrow> strstr s needle \<noteq> None"

text \<open>\<open>sed 's/),/)/'\<close>, on the first occurrence.\<close>

fun sed_paren_comma :: "string \<Rightarrow> string" where
  "sed_paren_comma [] = []"
| "sed_paren_comma (c # s) = (if prefix '','' s \<and> c = CHR '')'' then c # tl s else c # sed_paren_comma s)"

section \<open>A line of the data\<close>

record row =
  rw_prototype :: string
  rw_ret :: string
  rw_name :: string
  rw_domain :: string
  rw_op :: string
  rw_s1 :: string
  rw_s2 :: string
  rw_hook :: string

text \<open>\<open>egrep '^#|^$'\<close>: such lines are skipped.\<close>

definition skip_line :: "string \<Rightarrow> bool" where
  "skip_line line \<longleftrightarrow> (case echo line of [] \<Rightarrow> True | c # _ \<Rightarrow> c = CHR ''#'')"

definition parse_row :: "string \<Rightarrow> row" where
  "parse_row line =
     (let fs = split_line CHR ''|'' (echo line);
          prototype = select_field 1 fs;
          ret_and_name = cut_field CHR ''('' 1 (echo prototype)
      in \<lparr>rw_prototype = prototype,
          rw_ret = but_last_word (echo ret_and_name),
          rw_name = last_word (echo ret_and_name),
          rw_domain = select_field 2 fs,
          rw_op = select_field 3 fs,
          rw_s1 = select_field 4 fs,
          rw_s2 = select_field 5 fs,
          rw_hook = select_field 6 fs\<rparr>)"

text \<open>The tests on a row. The descriptor and the size are recorded if hook or prototype have a word that
  begins with \<open>fd\<close> or \<open>count\<close>.\<close>

definition is_variadic :: "row \<Rightarrow> bool" where
  "is_variadic r \<longleftrightarrow> grep_F ''...'' (echo (rw_prototype r))"

definition is_open_call :: "row \<Rightarrow> bool" where
  "is_open_call r \<longleftrightarrow> grep_F ''open'' (echo (rw_prototype r))"

definition is_exec_call :: "row \<Rightarrow> bool" where
  "is_exec_call r \<longleftrightarrow> grep_F ''exec'' (echo (rw_prototype r))"

definition recorded_fd :: "row \<Rightarrow> string" where
  "recorded_fd r =
     (if grep_F '' fd'' (echo (rw_hook r @ '' '' @ rw_prototype r)) then ''fd'' else ''FD_NONE'')"

definition recorded_count :: "row \<Rightarrow> string" where
  "recorded_count r =
     (if grep_F '' count'' (echo (rw_hook r @ '' '' @ rw_prototype r)) then ''count'' else ''ZERO_BYTES'')"

section \<open>The generated text\<close>

definition hook_and_record :: "row \<Rightarrow> string list" where
  "hook_and_record r =
     [[], ''   /* invoke hook */'',
      ''   '' @ rw_hook r,
      ''   /* end of hook; record metadata on function call */'',
      ''   record('' @ rw_domain r @ '', '' @ rw_op r @ '', '' @ recorded_fd r @ '', '' @ rw_s1 r @ '', '' @ rw_s2 r @ '', '',
      ''   TIME_BEFORE(), TIME_AFTER(), error_code, '' @ recorded_count r @ '');'']"

text \<open>The last parameter before the dots.\<close>

definition last_named :: "row \<Rightarrow> string" where
  "last_named r =
     rev (cut_field CHR '' '' 1 (cut_field CHR '','' 2 (rev (echo (rw_prototype r)))))"

definition variadic_setup :: "row \<Rightarrow> string list" where
  "variadic_setup r =
     (if is_variadic r
      then [''   /* set up variadic arguments */'', ''va_list args;'',
            ''va_start(args, '' @ last_named r @ '');''] @
           (if is_open_call r
            then [''   /* extract mode for open call */'', ''int mode = va_arg(args, int);''] else [])
      else [])"

text \<open>The loop over the parameters; each line of its output but the dots' loses brackets.\<close>

definition call_argument :: "row \<Rightarrow> string \<Rightarrow> string" where
  "call_argument r arg =
     (if grep_F ''...'' (echo arg) then if is_open_call r then ''mode),'' else ''args),''
      else filter (\<lambda>c. c \<noteq> CHR ''['' \<and> c \<noteq> CHR '']'') (last_word (echo arg) @ '',''))"

definition call_arguments :: "row \<Rightarrow> string" where
  "call_arguments r =
     sed_paren_comma (concat (map (call_argument r)
       (split_line CHR '','' (cut_from CHR ''('' 2 (echo (rw_prototype r))))))"

definition original_call :: "row \<Rightarrow> string" where
  "original_call r =
     (if rw_ret r = ''void'' then ''   orig_'' @ rw_name r @ ''(''
      else if is_variadic r \<and> \<not> is_open_call r
      then ''   '' @ rw_ret r @ '' result = orig_v'' @ rw_name r @ ''(''
      else ''   '' @ rw_ret r @ '' result = orig_'' @ rw_name r @ ''('') @ call_arguments r @ '';''"

definition intercept_function :: "nat \<Rightarrow> row \<Rightarrow> string list" where
  "intercept_function line_ctr r =
     [''/*'', ''input line: '' @ show_nat line_ctr, ''return: '' @ echo (rw_ret r),
      ''name: '' @ rw_name r, ''*/'',
      echo (rw_prototype r), ''{'', ''CHECK_LOADED_FNS();'', ''PUTS('' @ [CHR 0x22] @ rw_name r @ [CHR 0x22] @ '');'',
      ''    DECL_VARS();'', ''   GET_START_TIME();''] @
     (if is_exec_call r then ''   GET_END_TIME();'' # hook_and_record r else []) @
     variadic_setup r @
     [[], ''   /* call original function */'', original_call r] @
     (if is_variadic r then [''va_end(args);''] else []) @
     [''   GET_END_TIME();''] @
     (if is_exec_call r then [] else hook_and_record r) @
     (if rw_ret r \<noteq> ''void'' then [''   return result;''] else []) @ [''}'']"

definition function_type :: "row \<Rightarrow> string" where
  "function_type r =
     ''typedef '' @ echo (rw_ret r) @ '' (*orig_'' @ rw_name r @ ''_f_type) ('' @
     echo (cut_from CHR ''('' 2 (echo (rw_prototype r))) @ '';''"

definition orig_handler :: "row \<Rightarrow> string" where
  "orig_handler r = ''static orig_'' @ rw_name r @ ''_f_type orig_'' @ rw_name r @ '' = NULL;''"

definition assign_function :: "row \<Rightarrow> string" where
  "assign_function r =
     ''orig_'' @ rw_name r @ '' = (orig_'' @ rw_name r @ ''_f_type)dlsym(RTLD_NEXT,'' @
     [CHR 0x22] @ rw_name r @ [CHR 0x22] @ '');''"

text \<open>The four headers behind their common first lines. Lines are counted from 2.\<close>

record headers =
  hd_intercept_functions :: "string list"
  hd_io_function_types :: "string list"
  hd_io_function_orig_handlers :: "string list"
  hd_assign_functions :: "string list"

definition data_rows :: "string list \<Rightarrow> (nat \<times> row) list" where
  "data_rows ls =
     map (\<lambda>(n, l). (n, parse_row l)) (filter (\<lambda>(n, l). \<not> skip_line l) (zip [2..<length ls + 2] ls))"

definition generate_interposer :: "string list \<Rightarrow> headers" where
  "generate_interposer ls =
     (let rs = data_rows ls
      in \<lparr>hd_intercept_functions = concat (map (\<lambda>(n, r). intercept_function n r @ [[]]) rs),
          hd_io_function_types = map (\<lambda>(n, r). function_type r) rs,
          hd_io_function_orig_handlers = map (\<lambda>(n, r). orig_handler r) rs,
          hd_assign_functions =
            [''void assign_lib_functions()'', ''{''] @ map (\<lambda>(n, r). assign_function r) rs @ [''}'']\<rparr>)"

section \<open>monitored\_functions.data\<close>

text \<open>The file's lines by section, with one blank for each run of blanks, as \<open>echo $LINE\<close> gives them.\<close>

definition file_calls :: "string list" where
  \<open>file_calls = [
    ''#-------------------------------------------------------------|-----------------|------------|-----------|--------|---------------------------------------------------------------------------------------------------------------|'',
    ''#PROTOTYPE |DOMAIN |OP |S1 |S2 |HOOK_AFTER |'',
    ''#-------------------------------------------------------------|-----------------|------------|-----------|--------|---------------------------------------------------------------------------------------------------------------|'',
    ''#variants of open and close | | | | | |'',
    ''#-------------------------------------------------------------|-----------------|------------|-----------|--------|---------------------------------------------------------------------------------------------------------------|'',
    ''# due to limitations of parser (for this file) always (!) use "char* path" instead of "char *path" (put asterisk with type, not with name of the variable) |'',
    ''int open(const char* pathname, int flags, ...) |FILE_OPEN_CLOSE | OPEN | pathname | NULL | if (result == -1) {error_code = errno;} |'',
    ''int open64(const char* pathname, int flags, ...) |FILE_OPEN_CLOSE | OPEN | pathname | NULL | if (result == -1) {error_code = errno;} |'',
    ''FILE* fopen(const char* path, const char* mode) |FILE_OPEN_CLOSE | OPEN | path | mode | int fd; if (result == NULL) {error_code=errno; fd=FD_NONE;} else {fd=fileno(result);} |'',
    ''FILE* fopen64(const char* path, const char* mode) |FILE_OPEN_CLOSE | OPEN | path | mode | int fd; if (result == NULL) {error_code=errno; fd=FD_NONE;} else {fd=fileno(result);} |'',
    ''int creat(const char* pathname, mode_t mode) |FILE_OPEN_CLOSE | OPEN | pathname | NULL | if (result == -1) {error_code = errno;} |'',
    ''int creat64(const char* pathname, mode_t mode) |FILE_OPEN_CLOSE | OPEN | pathname | NULL | if (result == -1) {error_code = errno;} |'',
    ''int fclose(FILE* fp) |FILE_OPEN_CLOSE | CLOSE | NULL | NULL | if (result == -1) {error_code = errno;} |'',
    ''int close(int fd) |FILE_OPEN_CLOSE | CLOSE | NULL | NULL | if (result == -1) {error_code = errno;} |'']\<close>

definition read_calls :: "string list" where
  \<open>read_calls = [
    ''#-------------------------------------------------------------|-----------------|------------|-----------|--------|---------------------------------------------------------------------------------------------------------------|'',
    ''#variants of read | | | | | |'',
    ''#-------------------------------------------------------------|-----------------|------------|-----------|--------|---------------------------------------------------------------------------------------------------------------|'',
    ''ssize_t read(int fd, void* buf, size_t count) |FILE_READ | READ | NULL | NULL | if (result < 0) error_code = errno; check_for_http(FILE_READ, fd, buf, count, TIME_BEFORE(), TIME_AFTER()); |'',
    ''ssize_t recv(int fd, void* buf, size_t count, int flags) |FILE_READ | READ | NULL | NULL | if (result < 0) error_code = errno; check_for_http(FILE_READ, fd, buf, count, TIME_BEFORE(), TIME_AFTER()); |'',
    ''ssize_t pread(int fd, void* buf, size_t count, off_t offset) |FILE_READ | READ | NULL | NULL | if (result < 0) error_code = errno; |'',
    ''ssize_t readv(int fd, const struct iovec* iov, int iovcnt) |FILE_READ | READ | NULL | NULL | if (result < 0) error_code = errno; |'',
    ''ssize_t preadv(int fd, const struct iovec* iov, int iovcnt, off_t offset)|FILE_READ| READ | NULL | NULL | if (result < 0) error_code = errno; |'',
    ''size_t fread(void* ptr, size_t size, size_t nmemb, FILE* stream)|FILE_READ | READ | NULL | NULL | if (result < 0) error_code = errno; int fd = fileno(stream); int count = size*nmemb; |'',
    ''# keep in mind, that for each variadic function (other than open) you must include its v... version in this file too (in addition to its standard version) |'',
    ''int fscanf(FILE* stream, const char* format, ...) |FILE_READ | READ | NULL | NULL | if (result == EOF) error_code = errno; int fd = fileno(stream); int count = result; |'',
    ''int vfscanf(FILE* stream, const char* format, va_list ap) |FILE_READ | READ | NULL | NULL | if (result == EOF) error_code = errno; int fd = fileno(stream); int count = result; |'']\<close>

definition write_calls :: "string list" where
  \<open>write_calls = [
    ''#-------------------------------------------------------------|-----------------|------------|-----------|--------|---------------------------------------------------------------------------------------------------------------|'',
    ''#variants of write | | | | | |'',
    ''#-------------------------------------------------------------|-----------------|------------|-----------|--------|---------------------------------------------------------------------------------------------------------------|'',
    ''ssize_t write(int fd, const void* buf, size_t count) |FILE_WRITE | WRITE | NULL | NULL | if (result < 0) error_code = errno; check_for_http(FILE_WRITE, fd, buf, count, TIME_BEFORE(), TIME_AFTER()); |'',
    ''ssize_t send(int fd, const void* buf, size_t count, int flags)|FILE_WRITE | WRITE | NULL | NULL | if (result < 0) error_code = errno; check_for_http(FILE_WRITE, fd, buf, count, TIME_BEFORE(), TIME_AFTER()); |'',
    ''ssize_t pwrite(int fd, const void* buf, size_t count, off_t offset)|FILE_WRITE | WRITE | NULL | NULL | if (result < 0) error_code = errno; |'',
    ''ssize_t writev(int fd, const struct iovec* iov, int iovcnt) |FILE_WRITE | WRITE | NULL | NULL | if (result < 0) error_code = errno; |'',
    ''ssize_t pwritev(int fd, const struct iovec* iov, int iovcnt, off_t offset)|FILE_WRITE | WRITE| NULL | NULL | if (result < 0) error_code = errno; |'',
    ''int fprintf(FILE* stream, const char* format, ...) |FILE_WRITE | WRITE | NULL | NULL | if (result < 0) error_code = errno; int fd = fileno(stream); int count = result; |'',
    ''int vfprintf(FILE* stream, const char* format, va_list ap) |FILE_WRITE | WRITE | NULL | NULL | if (result < 0) error_code = errno; int fd = fileno(stream); int count = result; |'',
    ''size_t fwrite(const void* ptr, size_t size, size_t nmemb, FILE* stream)|FILE_WRITE|WRITE | NULL | NULL | if (result < nmemb) error_code = errno; int fd = fileno(stream); int count = size*nmemb; |'']\<close>

definition sync_calls :: "string list" where
  \<open>sync_calls = [
    ''#-------------------------------------------------------------|-----------------|------------|-----------|--------|---------------------------------------------------------------------------------------------------------------|'',
    ''#PROTOTYPE |DOMAIN |OP |S1 |S2 |HOOK_AFTER |'',
    ''#variants of sync | | | | | |'',
    ''#-------------------------------------------------------------|-----------------|------------|-----------|--------|---------------------------------------------------------------------------------------------------------------|'',
    ''int fsync(int fd) |SYNCS | SYNC | NULL | NULL | if (result == -1) {error_code = errno;} |'',
    ''int fdatasync(int fd) |SYNCS | SYNC | NULL | NULL | if (result == -1) {error_code = errno;} |'',
    ''void sync() |SYNCS | SYNC | NULL | NULL | |'',
    ''int syncfs(int fd) |SYNCS | SYNC | NULL | NULL | if (result == -1) {error_code = errno;} |'',
    ''int fflush(FILE* fp) |SYNCS | FLUSH | NULL | NULL | if (result != 0) {error_code = errno;} int fd = fileno(fp); |'']\<close>

definition xattr_calls :: "string list" where
  \<open>xattr_calls = [
    ''#-------------------------------------------------------------|-----------------|------------|-----------|--------|---------------------------------------------------------------------------------------------------------------|'',
    ''# xattr routines | | | | | |'',
    ''#-------------------------------------------------------------|-----------------|------------|-----------|--------|---------------------------------------------------------------------------------------------------------------|'',
    ''int setxattr(const char* path, const char* name, const void* value, size_t size, int flags) | XATTRS | SETXATTR | path | name | int count = size; if (result == -1) {error_code = errno;} |'',
    ''int lsetxattr(const char* path, const char* name, const void* value, size_t size, int flags) | XATTRS | SETXATTR | path | name | int count = size; if (result == -1) {error_code = errno;} |'',
    ''int fsetxattr(int fd, const char* name, const void* value, size_t size, int flags) | XATTRS | SETXATTR | name | NULL | int count = size; if (result == -1) {error_code = errno;} |'',
    ''ssize_t getxattr(const char* path, const char* name, void* value, size_t size) |XATTRS | GETXATTR | path | name | int count = result; if (result == -1) {error_code = errno;} |'',
    ''ssize_t lgetxattr(const char* path, const char* name, void* value, size_t size) |XATTRS | GETXATTR | path | name | int count = result; if (result == -1) {error_code = errno;} |'',
    ''ssize_t fgetxattr(int fd, const char* name, void* value, size_t size) |XATTRS | GETXATTR | name | NULL | int count = size; if (result == -1) {error_code = errno;} |'',
    ''ssize_t listxattr(const char* path, char* list, size_t size) | XATTRS | LISTXATTR | path | NULL | if (result < 0) error_code = errno; |'',
    ''ssize_t llistxattr(const char* path, char* list, size_t size) | XATTRS | LISTXATTR | path | NULL | if (result < 0) error_code = errno; |'',
    ''ssize_t flistxattr(int fd, char* list, size_t size) | XATTRS | LISTXATTR | NULL | NULL | if (result < 0) error_code = errno; |'',
    ''int removexattr(const char* path, const char* name) | XATTRS | REMOVEXATTR| path | NULL | if (result < 0) error_code = errno; |'',
    ''int lremovexattr(const char* path, const char* name) | XATTRS | REMOVEXATTR| path | NULL | if (result < 0) error_code = errno; |'',
    ''int fremovexattr(int fd, const char* name) | XATTRS | REMOVEXATTR| NULL | NULL | if (result < 0) error_code = errno; |'',
    ''#-------------------------------------------------------------|-----------------|------------|-----------|--------|---------------------------------------------------------------------------------------------------------------|'',
    ''int mount(const char* source, const char* target, const char* filesystemtype, unsigned long mountflags, const void* data) | FILE_SYSTEMS | MOUNT | source | target | if (result != 0) error_code = errno; |'',
    ''int umount(const char* target) | FILE_SYSTEMS | UMOUNT | target | NULL | if (result != 0) error_code = errno; |'',
    ''int umount2(const char* target, int flags) | FILE_SYSTEMS | UMOUNT | target | NULL | if (result != 0) error_code = errno; |'']\<close>

definition dir_calls :: "string list" where
  \<open>dir_calls = [
    ''#-------------------------------------------------------------|-----------------|------------|-----------|--------|---------------------------------------------------------------------------------------------------------------|'',
    ''#PROTOTYPE |DOMAIN |OP |S1 |S2 |HOOK_AFTER |'',
    ''#directory functions | | | | | |'',
    ''#-------------------------------------------------------------|-----------------|------------|-----------|--------|---------------------------------------------------------------------------------------------------------------|'',
    ''DIR* opendir(const char* name) | DIR_METADATA | OPENDIR | name | NULL | int fd = FD_NONE; if (!result) error_code = errno; else fd = dirfd(result); |'',
    ''DIR* fdopendir(int fd) | DIR_METADATA | OPENDIR | NULL | NULL | if (!result) error_code = errno; |'',
    ''int closedir(DIR* dirp) | DIR_METADATA | CLOSEDIR | NULL | NULL | if (result) error_code = errno; int fd = dirfd(dirp); |'',
    ''struct dirent* readdir(DIR* dirp) | DIR_METADATA | READDIR | NULL | NULL | if (!result) error_code = errno; int fd = dirfd(dirp); |'',
    ''int readdir_r(DIR* dirp, struct dirent* entry, struct dirent** _res)| DIR_METADATA | READDIR | NULL | NULL | if (result) error_code = errno; int fd = dirfd(dirp); |'',
    ''void rewinddir(DIR* dirp) | DIR_METADATA | REWINDDIR | NULL | NULL | int fd = dirfd(dirp); |'',
    ''void seekdir(DIR* dirp, long loc) | DIR_METADATA | SEEKDIR | NULL | NULL | int fd = dirfd(dirp); |'',
    ''long telldir(DIR* dirp) | DIR_METADATA | TELLDIR | NULL | NULL | int fd = dirfd(dirp); |'']\<close>

definition stat_calls :: "string list" where
  \<open>stat_calls = [
    ''#-------------------------------------------------------------|-----------------|------------|-----------|--------|---------------------------------------------------------------------------------------------------------------|'',
    ''#file metadata functions | | | | | |'',
    ''int fstat(int fd, struct stat* buf) | FILE_METADATA | STAT | NULL | NULL | if (result != 0) error_code = errno; |'',
    ''int lstat(const char* path, struct stat* buf) | FILE_METADATA | STAT | path | NULL | if (result != 0) error_code = errno; |'',
    ''int stat(const char* path, struct stat* buf) | FILE_METADATA | STAT | path | NULL | if (result != 0) error_code = errno; |'',
    ''# some other variants of stat, actually used by stat command | | | | | |'',
    ''int __lxstat(int v, const char* path, struct stat* buf) | FILE_METADATA | STAT | path | NULL | if (result != 0) error_code = errno; |'',
    ''int __xstat(int v, const char* path, struct stat* buf) | FILE_METADATA | STAT | path | NULL | if (result != 0) error_code = errno; |'',
    ''int __fxstat(int v, int fd, struct stat* buf) | FILE_METADATA | STAT | NULL | NULL | if (result != 0) error_code = errno; |'',
    ''int __lxstat64(int v, const char* path, struct stat64* buf) | FILE_METADATA | STAT | path | NULL | if (result != 0) error_code = errno; |'',
    ''int __xstat64(int v, const char* path, struct stat64* buf) | FILE_METADATA | STAT | path | NULL | if (result != 0) error_code = errno; |'',
    ''int __fxstat64(int v, int fd, struct stat64* buf) | FILE_METADATA | STAT | NULL | NULL | if (result != 0) error_code = errno; |'',
    ''int access(const char* path, int amode) | FILE_METADATA | ACCESS | path | NULL | if (result != 0) error_code = errno; |'']\<close>

definition attribute_calls :: "string list" where
  \<open>attribute_calls = [
    ''int faccessat(int fd, const char* path, int mode, int flag) | FILE_METADATA | ACCESS | path | NULL | if (result != 0) error_code = errno; |'',
    ''int chmod(const char* path, mode_t mode) | FILE_METADATA | CHMOD | path | NULL | if (result != 0) error_code = errno; |'',
    ''int fchmod(int fd, mode_t mode) | FILE_METADATA | CHMOD | NULL | NULL | if (result != 0) error_code = errno; |'',
    ''int fchmodat(int fd, const char* path, mode_t mode, int flag) | FILE_METADATA | CHMOD | path | NULL | if (result != 0) error_code = errno; |'',
    ''int chown(const char* path, uid_t owner, gid_t group) | FILE_METADATA | CHOWN | path | NULL | if (result != 0) error_code = errno; |'',
    ''int lchown(const char* path, uid_t owner, gid_t group) | FILE_METADATA | CHOWN | path | NULL | if (result != 0) error_code = errno; |'',
    ''int fchown(int fd, uid_t owner, gid_t group) | FILE_METADATA | CHOWN | NULL | NULL | if (result != 0) error_code = errno; |'',
    ''int fchownat(int fd, const char* path, uid_t owner, gid_t group, int flag)| FILE_METADATA | CHOWN | path | NULL | if (result != 0) error_code = errno; |'',
    ''int utime(const char* path, const struct utimbuf* times) | FILE_METADATA | UTIME | path | NULL | if (result != 0) error_code = errno; |'',
    ''int posix_fallocate(int fd, off_t offset, off_t len) | FILE_METADATA | ALLOCATE | NULL | NULL | if (result != 0) error_code = errno; |'',
    ''int fallocate(int fd, int mode, off_t offset, off_t len) | FILE_METADATA | ALLOCATE | NULL | NULL | if (result != 0) error_code = errno; |'',
    ''int truncate(const char* path, off_t length) | FILE_METADATA | TRUNCATE | path | NULL | if (result != 0) error_code = errno; |'',
    ''int ftruncate(int fd, off_t length) | FILE_METADATA | TRUNCATE | NULL | NULL | if (result != 0) error_code = errno; |'']\<close>

definition socket_calls :: "string list" where
  \<open>socket_calls = [
    ''#-------------------------------------------------------------|-----------------|------------|-----------|--------|---------------------------------------------------------------------------------------------------------------|'',
    ''#PROTOTYPE |DOMAIN |OP |S1 |S2 |HOOK_AFTER |'',
    ''#socket functions | | | | | |'',
    ''#-------------------------------------------------------------|-----------------|------------|-----------|--------|---------------------------------------------------------------------------------------------------------------|'',
    ''int connect(int fd, const struct sockaddr* addr, socklen_t addrlen)| SOCKETS | CONNECT | path | NULL | if (result == -1) error_code = errno; char path[200]=""; real_ip(addr, path); |'',
    ''int socket(int domain, int type, int protocol) | SOCKETS | SOCKET | NULL | NULL | int fd = result; if (result == -1) error_code = errno; |'',
    ''int bind(int fd, const struct sockaddr* addr, socklen_t addrlen) | SOCKETS | BIND | path | NULL | if (result == -1) error_code = errno; char path[200]=""; real_ip(addr, path); |'']\<close>

definition process_calls :: "string list" where
  \<open>process_calls = [
    ''#-------------------------------------------------------------|-----------------|------------|-----------|--------|---------------------------------------------------------------------------------------------------------------|'',
    ''#dirs functions | | | | | |'',
    ''int chdir(const char* path) | DIRS | CHDIR | path | NULL | if (result != 0) error_code = errno; |'',
    ''int fchdir(int fd) | DIRS | CHDIR | NULL | NULL | if (result != 0) error_code = errno; |'',
    ''int mkdir(const char* path, mode_t mode) | DIRS | MKDIR | path | NULL | if (result != 0) error_code = errno; |'',
    ''int mkdirat(int fd, const char* path, mode_t mode) | DIRS | MKDIR | path | NULL | if (result != 0) error_code = errno; |'',
    ''int rmdir(const char* path) | DIRS | MKDIR | path | NULL | if (result != 0) error_code = errno; |'',
    ''#-------------------------------------------------------------|-----------------|------------|-----------|--------|---------------------------------------------------------------------------------------------------------------|'',
    ''int execl(const char* path, const char* arg, ...) | PROCESSES | EXEC | path | arg | |'',
    ''int execlp(const char* file, const char* arg, ...) | PROCESSES | EXEC | file | arg | |'',
    ''int execle(const char* path, const char* arg, ...) | PROCESSES | EXEC | path | arg | |'',
    ''int execv(const char* path, char* const argv[]) | PROCESSES | EXEC | path | NULL | |'',
    ''int execvp(const char* file, char* const argv[]) | PROCESSES | EXEC | file | NULL | |'',
    ''int execvpe(const char* file, char* const argv[], char* const envp[])| PROCESSES | EXEC | file | NULL | |'',
    ''int fork() | PROCESSES | FORK | NULL | NULL | if (result == 0) init(); |'',
    ''# | | | | | /* in child process recognize init */ |'',
    ''int kill(pid_t _pid, int _sig) | PROCESSES | KILL | tpid | tsig | char tpid[10]; char tsig[10]; sprintf(tpid, "%d", _pid); sprintf(tsig, "%d", _sig); |'']\<close>

definition misc_calls :: "string list" where
  \<open>misc_calls = [
    ''#-------------------------------------------------------------|-----------------|------------|-----------|--------|---------------------------------------------------------------------------------------------------------------|'',
    ''int rename(const char* oldpath, const char* newpath) | MISC | RENAME | oldpath | newpath| if (result !=0) error_code = errno; |'',
    ''int flock(int fd, int operation) | MISC | FLOCK | NULL | NULL | if (result !=0) error_code = errno; |'',
    ''int mknod(const char* pathname, mode_t mode, dev_t dev) | MISC | MKNOD | pathname | NULL | if (result != 0) error_code = errno; |'',
    ''int chroot(const char* path) | MISC | CHROOT | path | NULL | if (result != 0) error_code = errno; |'',
    ''#-------------------------------------------------------------|-----------------|------------|-----------|--------|---------------------------------------------------------------------------------------------------------------|'',
    ''int dup(int oldfd) | FILE_DESCRIPTORS| DUP | NULL | NULL | if (result != 0) error_code = errno; |'',
    ''int dup2(int oldfd, int newfd) | FILE_DESCRIPTORS| DUP | NULL | NULL | if (result != 0) error_code = errno; |'',
    ''int dup3(int oldfd, int newfd, int flags) | FILE_DESCRIPTORS| DUP | NULL | NULL | if (result != 0) error_code = errno; |'',
    ''#-------------------------------------------------------------|-----------------|------------|-----------|--------|---------------------------------------------------------------------------------------------------------------|'',
    ''int unlink(const char* pathname) | LINKS | UNLINK | pathname | NULL | if (result != 0) error_code = errno; |'',
    ''int link(const char* oldpath, const char* newpath) | LINKS | LINK | oldpath |newpath | if (result != 0) error_code = errno; |'',
    ''ssize_t readlink(const char* path, char* buf, size_t bufsiz) | LINKS | READLINK | path | NULL | if (result != 0) error_code = errno; |'',
    ''#-------------------------------------------------------------|-----------------|------------|-----------|--------|---------------------------------------------------------------------------------------------------------------|'',
    ''#thread functions | | | | | |'',
    ''int pthread_mutex_unlock(pthread_mutex_t* mutex) | THREADS | MUTEX_UNLOCK | NULL | NULL | if (result != 0) error_code = errno; |'',
    ''int pthread_mutex_lock(pthread_mutex_t* mutex) | THREADS | MUTEX_LOCK | NULL | NULL | if (result != 0) error_code = errno; |'',
    ''int pthread_mutex_init(pthread_mutex_t* mutex, const pthread_mutexattr_t* attr) | THREADS | MUTEX_INIT | NULL | NULL | if (result != 0) error_code = errno; |'',
    ''int pthread_mutex_destroy(pthread_mutex_t* mutex) | THREADS | MUTEX_DESTROY | NULL | NULL | if (result != 0) error_code = errno; |'',
    ''int pthread_cond_signal(pthread_cond_t* cond) | THREADS | COND_SIGNAL | NULL | NULL | if (result != 0) error_code = errno; |'',
    ''int pthread_cond_broadcast(pthread_cond_t* cond) | THREADS | COND_BROADCAST | NULL | NULL | if (result != 0) error_code = errno; |'',
    ''int pthread_cond_wait(pthread_cond_t* cond, pthread_mutex_t* mutex) | THREADS | COND_WAIT | NULL | NULL | if (result != 0) error_code = errno; |'',
    ''#-------------------------------------------------------------|-----------------|------------|-----------|--------|---------------------------------------------------------------------------------------------------------------|'']\<close>

definition monitored_functions :: "string list" where
  "monitored_functions =
     file_calls @ read_calls @ write_calls @ sync_calls @ xattr_calls @ dir_calls @
     stat_calls @ attribute_calls @ socket_calls @ process_calls @ misc_calls"

end
