(* ===== verification/Interposer_Table.thy ===== *)
theory Interposer_Table
imports Interposer
begin

text \<open>
  What the wrappers of the functions in \<open>monitored_functions.data\<close> record: the generator evaluated on
  each line of the file. A wrapper is described by its name, the domain and the operation it records, and
  the expressions it records as descriptor and as number of bytes.
\<close>

type_synonym wrapper = "string \<times> string \<times> string \<times> string \<times> string"

definition row_summary :: "row \<Rightarrow> wrapper" where
  "row_summary r = (rw_name r, echo (rw_domain r), echo (rw_op r), recorded_fd r, recorded_count r)"

section \<open>Scoping\<close>

text \<open>The names the call of \<open>record\<close> can refer to: the parameters, and what the hook declares.\<close>

definition parameters :: "row \<Rightarrow> string list" where
  "parameters r =
     map (\<lambda>arg. filter (\<lambda>c. c \<noteq> CHR ''['' \<and> c \<noteq> CHR '']'' \<and> c \<noteq> CHR '')'') (last_word (echo arg)))
       (split_line CHR '','' (cut_from CHR ''('' 2 (echo (rw_prototype r))))"

definition in_scope :: "row \<Rightarrow> string \<Rightarrow> bool" where
  "in_scope r x \<longleftrightarrow> List.member (parameters r) x \<or> grep_F (''int '' @ x) (rw_hook r) \<or>
     grep_F (''char '' @ x @ ''['') (rw_hook r)"

definition well_scoped :: "row \<Rightarrow> bool" where
  "well_scoped r \<longleftrightarrow>
     list_all (\<lambda>x. x \<in> {''NULL'', ''FD_NONE'', ''ZERO_BYTES''} \<or> in_scope r x)
       [echo (rw_s1 r), echo (rw_s2 r), recorded_fd r, recorded_count r]"

text \<open>A wrapper that hands a \<open>va_list\<close> on calls \<open>orig_v<name>\<close>.\<close>

definition needs_va_list :: "row \<Rightarrow> bool" where
  "needs_va_list r \<longleftrightarrow> is_variadic r \<and> \<not> is_open_call r"

definition rows_of :: "string list \<Rightarrow> row list" where
  "rows_of ls = map parse_row (filter (\<lambda>l. \<not> skip_line l) ls)"

definition check_rows :: "string list \<Rightarrow> (wrapper \<times> bool \<times> bool) list" where
  "check_rows ls = map (\<lambda>r. (row_summary r, well_scoped r, needs_va_list r)) (rows_of ls)"

lemma rows_of_append [simp]: "rows_of (ls @ ms) = rows_of ls @ rows_of ms"
  by (simp add: rows_of_def)

lemma check_rows_append [simp]: "check_rows (ls @ ms) = check_rows ls @ check_rows ms"
  by (simp add: check_rows_def)

lemma data_rows_rows: "map snd (data_rows ls) = rows_of ls"
proof -
  have "map snd (map (\<lambda>(n, l). (n, parse_row l)) (filter (\<lambda>(n, l). \<not> skip_line l) (zip ns ls))) = rows_of ls"
    if "length ns = length ls" for ns :: "nat list"
    using that by (induction ns ls rule: list_induct2) (auto simp: rows_of_def)
  moreover define ns where "ns = [2..<length ls + 2]"
  then have "length ns = length ls" by (simp only: length_upt diff_add_inverse2)
  ultimately show ?thesis by (simp only: data_rows_def ns_def [symmetric])
qed

section \<open>The table\<close>

definition file_wrappers :: "wrapper list" where
  "file_wrappers =
    [(''open'', ''FILE_OPEN_CLOSE'', ''OPEN'', ''FD_NONE'', ''ZERO_BYTES''),
     (''open64'', ''FILE_OPEN_CLOSE'', ''OPEN'', ''FD_NONE'', ''ZERO_BYTES''),
     (''fopen'', ''FILE_OPEN_CLOSE'', ''OPEN'', ''fd'', ''ZERO_BYTES''),
     (''fopen64'', ''FILE_OPEN_CLOSE'', ''OPEN'', ''fd'', ''ZERO_BYTES''),
     (''creat'', ''FILE_OPEN_CLOSE'', ''OPEN'', ''FD_NONE'', ''ZERO_BYTES''),
     (''creat64'', ''FILE_OPEN_CLOSE'', ''OPEN'', ''FD_NONE'', ''ZERO_BYTES''),
     (''fclose'', ''FILE_OPEN_CLOSE'', ''CLOSE'', ''FD_NONE'', ''ZERO_BYTES''),
     (''close'', ''FILE_OPEN_CLOSE'', ''CLOSE'', ''fd'', ''ZERO_BYTES'')]"

definition read_wrappers :: "wrapper list" where
  "read_wrappers =
    [(''read'', ''FILE_READ'', ''READ'', ''fd'', ''count''),
     (''recv'', ''FILE_READ'', ''READ'', ''fd'', ''count''),
     (''pread'', ''FILE_READ'', ''READ'', ''fd'', ''count''),
     (''readv'', ''FILE_READ'', ''READ'', ''fd'', ''ZERO_BYTES''),
     (''preadv'', ''FILE_READ'', ''READ'', ''fd'', ''ZERO_BYTES''),
     (''fread'', ''FILE_READ'', ''READ'', ''fd'', ''count''),
     (''fscanf'', ''FILE_READ'', ''READ'', ''fd'', ''count''),
     (''vfscanf'', ''FILE_READ'', ''READ'', ''fd'', ''count'')]"

definition write_wrappers :: "wrapper list" where
  "write_wrappers =
    [(''write'', ''FILE_WRITE'', ''WRITE'', ''fd'', ''count''),
     (''send'', ''FILE_WRITE'', ''WRITE'', ''fd'', ''count''),
     (''pwrite'', ''FILE_WRITE'', ''WRITE'', ''fd'', ''count''),
     (''writev'', ''FILE_WRITE'', ''WRITE'', ''fd'', ''ZERO_BYTES''),
     (''pwritev'', ''FILE_WRITE'', ''WRITE'', ''fd'', ''ZERO_BYTES''),
     (''fprintf'', ''FILE_WRITE'', ''WRITE'', ''fd'', ''count''),
     (''vfprintf'', ''FILE_WRITE'', ''WRITE'', ''fd'', ''count''),
     (''fwrite'', ''FILE_WRITE'', ''WRITE'', ''fd'', ''count'')]"

definition sync_wrappers :: "wrapper list" where
  "sync_wrappers =
    [(''fsync'', ''SYNCS'', ''SYNC'', ''fd'', ''ZERO_BYTES''),
     (''fdatasync'', ''SYNCS'', ''SYNC'', ''fd'', ''ZERO_BYTES''),
     (''sync'', ''SYNCS'', ''SYNC'', ''FD_NONE'', ''ZERO_BYTES''),
     (''syncfs'', ''SYNCS'', ''SYNC'', ''fd'', ''ZERO_BYTES''),
     (''fflush'', ''SYNCS'', ''FLUSH'', ''fd'', ''ZERO_BYTES'')]"

definition xattr_wrappers :: "wrapper list" where
  "xattr_wrappers =
    [(''setxattr'', ''XATTRS'', ''SETXATTR'', ''FD_NONE'', ''count''),
     (''lsetxattr'', ''XATTRS'', ''SETXATTR'', ''FD_NONE'', ''count''),
     (''fsetxattr'', ''XATTRS'', ''SETXATTR'', ''fd'', ''count''),
     (''getxattr'', ''XATTRS'', ''GETXATTR'', ''FD_NONE'', ''count''),
     (''lgetxattr'', ''XATTRS'', ''GETXATTR'', ''FD_NONE'', ''count''),
     (''fgetxattr'', ''XATTRS'', ''GETXATTR'', ''fd'', ''count''),
     (''listxattr'', ''XATTRS'', ''LISTXATTR'', ''FD_NONE'', ''ZERO_BYTES''),
     (''llistxattr'', ''XATTRS'', ''LISTXATTR'', ''FD_NONE'', ''ZERO_BYTES''),
     (''flistxattr'', ''XATTRS'', ''LISTXATTR'', ''fd'', ''ZERO_BYTES''),
     (''removexattr'', ''XATTRS'', ''REMOVEXATTR'', ''FD_NONE'', ''ZERO_BYTES''),
     (''lremovexattr'', ''XATTRS'', ''REMOVEXATTR'', ''FD_NONE'', ''ZERO_BYTES''),
     (''fremovexattr'', ''XATTRS'', ''REMOVEXATTR'', ''fd'', ''ZERO_BYTES''),
     (''mount'', ''FILE_SYSTEMS'', ''MOUNT'', ''FD_NONE'', ''ZERO_BYTES''),
     (''umount'', ''FILE_SYSTEMS'', ''UMOUNT'', ''FD_NONE'', ''ZERO_BYTES''),
     (''umount2'', ''FILE_SYSTEMS'', ''UMOUNT'', ''FD_NONE'', ''ZERO_BYTES'')]"

definition dir_wrappers :: "wrapper list" where
  "dir_wrappers =
    [(''opendir'', ''DIR_METADATA'', ''OPENDIR'', ''fd'', ''ZERO_BYTES''),
     (''fdopendir'', ''DIR_METADATA'', ''OPENDIR'', ''fd'', ''ZERO_BYTES''),
     (''closedir'', ''DIR_METADATA'', ''CLOSEDIR'', ''fd'', ''ZERO_BYTES''),
     (''readdir'', ''DIR_METADATA'', ''READDIR'', ''fd'', ''ZERO_BYTES''),
     (''readdir_r'', ''DIR_METADATA'', ''READDIR'', ''fd'', ''ZERO_BYTES''),
     (''rewinddir'', ''DIR_METADATA'', ''REWINDDIR'', ''fd'', ''ZERO_BYTES''),
     (''seekdir'', ''DIR_METADATA'', ''SEEKDIR'', ''fd'', ''ZERO_BYTES''),
     (''telldir'', ''DIR_METADATA'', ''TELLDIR'', ''fd'', ''ZERO_BYTES'')]"

definition stat_wrappers :: "wrapper list" where
  "stat_wrappers =
    [(''fstat'', ''FILE_METADATA'', ''STAT'', ''fd'', ''ZERO_BYTES''),
     (''lstat'', ''FILE_METADATA'', ''STAT'', ''FD_NONE'', ''ZERO_BYTES''),
     (''stat'', ''FILE_METADATA'', ''STAT'', ''FD_NONE'', ''ZERO_BYTES''),
     (''__lxstat'', ''FILE_METADATA'', ''STAT'', ''FD_NONE'', ''ZERO_BYTES''),
     (''__xstat'', ''FILE_METADATA'', ''STAT'', ''FD_NONE'', ''ZERO_BYTES''),
     (''__fxstat'', ''FILE_METADATA'', ''STAT'', ''fd'', ''ZERO_BYTES''),
     (''__lxstat64'', ''FILE_METADATA'', ''STAT'', ''FD_NONE'', ''ZERO_BYTES''),
     (''__xstat64'', ''FILE_METADATA'', ''STAT'', ''FD_NONE'', ''ZERO_BYTES''),
     (''__fxstat64'', ''FILE_METADATA'', ''STAT'', ''fd'', ''ZERO_BYTES''),
     (''access'', ''FILE_METADATA'', ''ACCESS'', ''FD_NONE'', ''ZERO_BYTES'')]"

definition attribute_wrappers :: "wrapper list" where
  "attribute_wrappers =
    [(''faccessat'', ''FILE_METADATA'', ''ACCESS'', ''fd'', ''ZERO_BYTES''),
     (''chmod'', ''FILE_METADATA'', ''CHMOD'', ''FD_NONE'', ''ZERO_BYTES''),
     (''fchmod'', ''FILE_METADATA'', ''CHMOD'', ''fd'', ''ZERO_BYTES''),
     (''fchmodat'', ''FILE_METADATA'', ''CHMOD'', ''fd'', ''ZERO_BYTES''),
     (''chown'', ''FILE_METADATA'', ''CHOWN'', ''FD_NONE'', ''ZERO_BYTES''),
     (''lchown'', ''FILE_METADATA'', ''CHOWN'', ''FD_NONE'', ''ZERO_BYTES''),
     (''fchown'', ''FILE_METADATA'', ''CHOWN'', ''fd'', ''ZERO_BYTES''),
     (''fchownat'', ''FILE_METADATA'', ''CHOWN'', ''fd'', ''ZERO_BYTES''),
     (''utime'', ''FILE_METADATA'', ''UTIME'', ''FD_NONE'', ''ZERO_BYTES''),
     (''posix_fallocate'', ''FILE_METADATA'', ''ALLOCATE'', ''fd'', ''ZERO_BYTES''),
     (''fallocate'', ''FILE_METADATA'', ''ALLOCATE'', ''fd'', ''ZERO_BYTES''),
     (''truncate'', ''FILE_METADATA'', ''TRUNCATE'', ''FD_NONE'', ''ZERO_BYTES''),
     (''ftruncate'', ''FILE_METADATA'', ''TRUNCATE'', ''fd'', ''ZERO_BYTES'')]"

definition socket_wrappers :: "wrapper list" where
  "socket_wrappers =
    [(''connect'', ''SOCKETS'', ''CONNECT'', ''fd'', ''ZERO_BYTES''),
     (''socket'', ''SOCKETS'', ''SOCKET'', ''fd'', ''ZERO_BYTES''),
     (''bind'', ''SOCKETS'', ''BIND'', ''fd'', ''ZERO_BYTES'')]"

definition process_wrappers :: "wrapper list" where
  "process_wrappers =
    [(''chdir'', ''DIRS'', ''CHDIR'', ''FD_NONE'', ''ZERO_BYTES''),
     (''fchdir'', ''DIRS'', ''CHDIR'', ''fd'', ''ZERO_BYTES''),
     (''mkdir'', ''DIRS'', ''MKDIR'', ''FD_NONE'', ''ZERO_BYTES''),
     (''mkdirat'', ''DIRS'', ''MKDIR'', ''fd'', ''ZERO_BYTES''),
     (''rmdir'', ''DIRS'', ''MKDIR'', ''FD_NONE'', ''ZERO_BYTES''),
     (''execl'', ''PROCESSES'', ''EXEC'', ''FD_NONE'', ''ZERO_BYTES''),
     (''execlp'', ''PROCESSES'', ''EXEC'', ''FD_NONE'', ''ZERO_BYTES''),
     (''execle'', ''PROCESSES'', ''EXEC'', ''FD_NONE'', ''ZERO_BYTES''),
     (''execv'', ''PROCESSES'', ''EXEC'', ''FD_NONE'', ''ZERO_BYTES''),
     (''execvp'', ''PROCESSES'', ''EXEC'', ''FD_NONE'', ''ZERO_BYTES''),
     (''execvpe'', ''PROCESSES'', ''EXEC'', ''FD_NONE'', ''ZERO_BYTES''),
     (''fork'', ''PROCESSES'', ''FORK'', ''FD_NONE'', ''ZERO_BYTES''),
     (''kill'', ''PROCESSES'', ''KILL'', ''FD_NONE'', ''ZERO_BYTES'')]"

definition misc_wrappers :: "wrapper list" where
  "misc_wrappers =
    [(''rename'', ''MISC'', ''RENAME'', ''FD_NONE'', ''ZERO_BYTES''),
     (''flock'', ''MISC'', ''FLOCK'', ''fd'', ''ZERO_BYTES''),
     (''mknod'', ''MISC'', ''MKNOD'', ''FD_NONE'', ''ZERO_BYTES''),
     (''chroot'', ''MISC'', ''CHROOT'', ''FD_NONE'', ''ZERO_BYTES''),
     (''dup'', ''FILE_DESCRIPTORS'', ''DUP'', ''FD_NONE'', ''ZERO_BYTES''),
     (''dup2'', ''FILE_DESCRIPTORS'', ''DUP'', ''FD_NONE'', ''ZERO_BYTES''),
     (''dup3'', ''FILE_DESCRIPTORS'', ''DUP'', ''FD_NONE'', ''ZERO_BYTES''),
     (''unlink'', ''LINKS'', ''UNLINK'', ''FD_NONE'', ''ZERO_BYTES''),
     (''link'', ''LINKS'', ''LINK'', ''FD_NONE'', ''ZERO_BYTES''),
     (''readlink'', ''LINKS'', ''READLINK'', ''FD_NONE'', ''ZERO_BYTES''),
     (''pthread_mutex_unlock'', ''THREADS'', ''MUTEX_UNLOCK'', ''FD_NONE'', ''ZERO_BYTES''),
     (''pthread_mutex_lock'', ''THREADS'', ''MUTEX_LOCK'', ''FD_NONE'', ''ZERO_BYTES''),
     (''pthread_mutex_init'', ''THREADS'', ''MUTEX_INIT'', ''FD_NONE'', ''ZERO_BYTES''),
     (''pthread_mutex_destroy'', ''THREADS'', ''MUTEX_DESTROY'', ''FD_NONE'', ''ZERO_BYTES''),
     (''pthread_cond_signal'', ''THREADS'', ''COND_SIGNAL'', ''FD_NONE'', ''ZERO_BYTES''),
     (''pthread_cond_broadcast'', ''THREADS'', ''COND_BROADCAST'', ''FD_NONE'', ''ZERO_BYTES''),
     (''pthread_cond_wait'', ''THREADS'', ''COND_WAIT'', ''FD_NONE'', ''ZERO_BYTES'')]"

definition wrapper_table :: "wrapper list" where
  "wrapper_table =
     file_wrappers @ read_wrappers @ write_wrappers @ sync_wrappers @ xattr_wrappers @
     dir_wrappers @ stat_wrappers @ attribute_wrappers @ socket_wrappers @ process_wrappers @ misc_wrappers"

text \<open>The generator on each part of the file.\<close>

lemma check_file: "check_rows file_calls = map (\<lambda>w. (w, True, False)) file_wrappers"
  by code_simp

lemma check_read: "check_rows read_calls = map (\<lambda>w. (w, True, fst w \<in> {''fscanf''})) read_wrappers"
  by code_simp

lemma check_write: "check_rows write_calls = map (\<lambda>w. (w, True, fst w \<in> {''fprintf''})) write_wrappers"
  by code_simp

lemma check_sync: "check_rows sync_calls = map (\<lambda>w. (w, True, False)) sync_wrappers"
  by code_simp

lemma check_xattr: "check_rows xattr_calls = map (\<lambda>w. (w, True, False)) xattr_wrappers"
  by code_simp

lemma check_dir: "check_rows dir_calls = map (\<lambda>w. (w, True, False)) dir_wrappers"
  by code_simp

lemma check_stat: "check_rows stat_calls = map (\<lambda>w. (w, True, False)) stat_wrappers"
  by code_simp

lemma check_attribute: "check_rows attribute_calls = map (\<lambda>w. (w, True, False)) attribute_wrappers"
  by code_simp

lemma check_socket: "check_rows socket_calls = map (\<lambda>w. (w, True, False)) socket_wrappers"
  by code_simp

lemma check_process: "check_rows process_calls = map (\<lambda>w. (w, True, fst w \<in> {''execl'', ''execlp'', ''execle''})) process_wrappers"
  by code_simp

lemma check_misc: "check_rows misc_calls = map (\<lambda>w. (w, True, False)) misc_wrappers"
  by code_simp

lemma check_rows_table:
  assumes "check_rows ls = map (\<lambda>w. (w, True, P w)) ws"
  shows "map row_summary (rows_of ls) = ws"
    and "\<forall>r\<in>set (rows_of ls). well_scoped r \<and> needs_va_list r = P (row_summary r)"
proof -
  have "map fst (check_rows ls) = ws" by (simp add: assms comp_def)
  then show w: "map row_summary (rows_of ls) = ws" by (simp add: check_rows_def comp_def)
  have "map (\<lambda>r. (row_summary r, well_scoped r, needs_va_list r)) (rows_of ls) =
      map (\<lambda>r. (row_summary r, True, P (row_summary r))) (rows_of ls)"
    using assms by (simp add: check_rows_def w [symmetric])
  then show "\<forall>r\<in>set (rows_of ls). well_scoped r \<and> needs_va_list r = P (row_summary r)"
    by simp
qed

lemmas checked = check_file check_read check_write check_sync check_xattr check_dir check_stat
  check_attribute check_socket check_process check_misc

lemma rows_table: "map row_summary (rows_of monitored_functions) = wrapper_table"
  unfolding monitored_functions_def wrapper_table_def
  by (simp add: checked [THEN check_rows_table(1)])

lemma rows_well_scoped: "\<forall>r\<in>set (rows_of monitored_functions). well_scoped r"
  using checked [THEN check_rows_table(2)] by (auto simp: monitored_functions_def)

text \<open>The wrappers that need the \<open>v\<close> variant of their function.\<close>

definition va_list_names :: "string list" where
  "va_list_names = [''fscanf'', ''fprintf'', ''execl'', ''execlp'', ''execle'']"

lemma rows_va_list:
  "\<forall>r\<in>set (rows_of monitored_functions). needs_va_list r = List.member va_list_names (rw_name r)"
proof -
  have "list_all (\<lambda>(w, ok, va). va = List.member va_list_names (fst w)) (check_rows monitored_functions)"
    unfolding monitored_functions_def check_rows_append checked by code_simp
  then show ?thesis by (auto simp: check_rows_def row_summary_def list_all_iff)
qed

end
