(* ===== verification/Hook_Syntax.thy ===== *)
theory Hook_Syntax
imports Interposer_Table
begin

text \<open>
  The last column of \<open>monitored_functions.data\<close>, the hook, is C text that the generator copies into the
  wrapper. This theory reads it: the part of C the hooks are written in, as tokens and as a syntax tree.
\<close>

section \<open>Tokens\<close>

datatype token = Id string | Number nat | Literal string | Sym string

definition id_start :: "char \<Rightarrow> bool" where
  "id_start c \<longleftrightarrow>
     c \<in> set ''abcdefghijklmnopqrstuvwxyzABCDEFGHIJKLMNOPQRSTUVWXYZ_''"

definition id_char :: "char \<Rightarrow> bool" where
  "id_char c \<longleftrightarrow> id_start c \<or> is_digit c"

text \<open>The classes of characters by their bits, for evaluation.\<close>

lemma char_class_code [code]:
  "id_start (Char b0 b1 b2 b3 b4 b5 b6 b7) \<longleftrightarrow>
     b6 \<and> \<not> b7 \<and> (if b0 \<or> b1 \<or> b2 \<or> b3 \<or> b4
       then \<not> (b4 \<and> b3 \<and> (b2 \<or> b1 \<and> b0)) \<or> \<not> b5 \<and> b4 \<and> b3 \<and> b2 \<and> b1 \<and> b0 else False)"
  "is_digit (Char b0 b1 b2 b3 b4 b5 b6 b7) \<longleftrightarrow> \<not> b7 \<and> \<not> b6 \<and> b5 \<and> b4 \<and> (b3 \<longrightarrow> \<not> b2 \<and> \<not> b1)"
  "is_space (Char b0 b1 b2 b3 b4 b5 b6 b7) \<longleftrightarrow>
     \<not> b7 \<and> \<not> b6 \<and> \<not> b4 \<and>
     (if b5 then \<not> (b0 \<or> b1 \<or> b2 \<or> b3) else b3 \<and> (b0 \<or> b1 \<or> b2) \<and> \<not> (b2 \<and> b1))"
  by (cases b0; cases b1; cases b2; cases b3; cases b4; cases b5; cases b6; cases b7;
      simp add: id_start_def is_digit_def is_space_def of_char_def)+

text \<open>The operators of two characters are the comparisons with an equals sign behind.\<close>

function tokens :: "string \<Rightarrow> token list" where
  "tokens [] = []"
| "tokens (c # s) =
     (if is_space c then tokens s
      else if id_start c then Id (c # takeWhile id_char s) # tokens (dropWhile id_char s)
      else if is_digit c then Number (nat (atol (c # takeWhile is_digit s))) # tokens (dropWhile is_digit s)
      else if c = CHR 0x22
      then Literal (takeWhile (\<lambda>x. x \<noteq> CHR 0x22) s) # tokens (drop 1 (dropWhile (\<lambda>x. x \<noteq> CHR 0x22) s))
      else if (c = CHR ''='' \<or> c = CHR ''!'') \<and> prefix ''='' s then Sym [c, CHR ''=''] # tokens (drop 1 s)
      else Sym [c] # tokens s)"
  by pat_completeness auto
termination
  by (relation "measure length")
    (auto simp: le_imp_less_Suc length_dropWhile_le intro: le_less_trans [OF diff_le_self])

section \<open>Syntax\<close>

datatype binop = Equal | Unequal | Less | Times

datatype cexp =
    Var string
  | Const int
  | Text string
  | Not cexp
  | Bin binop cexp cexp
  | Call string "cexp list"

text \<open>A type is a word: \<open>int\<close> is the only one a hook declares a scalar of, \<open>char\<close> the one of its arrays.\<close>

datatype stmt =
    Declare string string "cexp option"
  | Declare_array string string nat "string option"
  | Assign string cexp
  | Do cexp
  | If cexp stmt "stmt option"
  | Block "stmt list"

text \<open>The types of parameters and variables: integers by width and signedness, pointers by what the hooks
  do with them, arrays of characters by their size.\<close>

datatype ctype = Int32 | UInt32 | Int64 | UInt64

datatype pointer_kind = Char_ptr | File_ptr | Dir_ptr | Sockaddr_ptr | Other_ptr

datatype vtype = Arith ctype | Ptr pointer_kind | Chars nat

section \<open>Parsing\<close>

text \<open>Recursive descent, with fuel for the depth of the recursion: a parser returns what it has read and
  the tokens behind it. A binary operation has no operators in its operands.\<close>

type_synonym 'a parser = "token list \<Rightarrow> ('a \<times> token list) option"

fun parse_exp :: "nat \<Rightarrow> cexp parser"
and parse_unary :: "nat \<Rightarrow> cexp parser"
and parse_operands :: "nat \<Rightarrow> cexp list parser" where
  "parse_exp 0 ts = None"
| "parse_exp (Suc f) ts =
     (case parse_unary f ts of
        None \<Rightarrow> None
      | Some (a, Sym op # ts') \<Rightarrow>
          (case map_of [(''=='', Equal), (''!='', Unequal), (''<'', Less), (''*'', Times)] op of
             None \<Rightarrow> Some (a, Sym op # ts')
           | Some b \<Rightarrow> map_option (\<lambda>(a', rest). (Bin b a a', rest)) (parse_unary f ts'))
      | Some r \<Rightarrow> Some r)"
| "parse_unary 0 ts = None"
| "parse_unary (Suc f) ts =
     (case ts of
        Id x # Sym p # ts' \<Rightarrow>
          (if p = ''('' then map_option (\<lambda>(as, rest). (Call x as, rest)) (parse_operands f ts')
           else Some (Var x, Sym p # ts'))
      | Id x # ts' \<Rightarrow> Some (Var x, ts')
      | Number n # ts' \<Rightarrow> Some (Const (int n), ts')
      | Literal s # ts' \<Rightarrow> Some (Text s, ts')
      | Sym p # ts' \<Rightarrow>
          (if p = ''!'' then map_option (\<lambda>(a, rest). (Not a, rest)) (parse_unary f ts')
           else if p = ''-'' then (case ts' of Number n # rest \<Rightarrow> Some (Const (- int n), rest) | _ \<Rightarrow> None)
           else None)
      | [] \<Rightarrow> None)"
| "parse_operands 0 ts = None"
| "parse_operands (Suc f) ts =
     (if ts \<noteq> [] \<and> hd ts = Sym '')'' then Some ([], tl ts)
      else case parse_exp f ts of
        Some (a, Sym p # rest) \<Rightarrow>
          (if p = '','' then map_option (\<lambda>(as, rest'). (a # as, rest')) (parse_operands f rest)
           else if p = '')'' then Some ([a], rest)
           else None)
      | _ \<Rightarrow> None)"

text \<open>A token that has to come next.\<close>

definition expect :: "string \<Rightarrow> ('a \<times> token list) option \<Rightarrow> ('a \<times> token list) option" where
  "expect p r =
     (case r of Some (a, Sym q # rest) \<Rightarrow> if q = p then Some (a, rest) else None | _ \<Rightarrow> None)"

definition parse_declaration :: "nat \<Rightarrow> string \<Rightarrow> stmt parser" where
  "parse_declaration f ty ts =
     (case ts of
        Id x # Sym p # Number n # Sym q # rest \<Rightarrow>
          (if p = ''['' \<and> q = '']''
           then expect '';'' (case rest of
                  Sym e # Literal s # rest' \<Rightarrow>
                    if e = ''='' then Some (Declare_array ty x n (Some s), rest') else None
                | _ \<Rightarrow> Some (Declare_array ty x n None, rest))
           else if p = ''=''
           then expect '';'' (map_option (\<lambda>(a, rest'). (Declare ty x (Some a), rest'))
                  (parse_exp f (Number n # Sym q # rest)))
           else None)
      | Id x # Sym p # rest \<Rightarrow>
          (if p = '';'' then Some (Declare ty x None, rest)
           else if p = ''=''
           then expect '';'' (map_option (\<lambda>(a, rest'). (Declare ty x (Some a), rest')) (parse_exp f rest))
           else None)
      | _ \<Rightarrow> None)"

definition parse_simple :: "nat \<Rightarrow> stmt parser" where
  "parse_simple f ts =
     expect '';'' (case ts of
        Id x # Sym p # rest \<Rightarrow>
          (if p = ''='' then map_option (\<lambda>(a, rest'). (Assign x a, rest')) (parse_exp f rest)
           else map_option (\<lambda>(a, rest'). (Do a, rest')) (parse_exp f ts))
      | _ \<Rightarrow> map_option (\<lambda>(a, rest'). (Do a, rest')) (parse_exp f ts))"

fun parse_stmt :: "nat \<Rightarrow> stmt parser"
and parse_block :: "nat \<Rightarrow> stmt list parser" where
  "parse_stmt 0 ts = None"
| "parse_stmt (Suc f) ts =
     (case ts of
        Sym p # rest \<Rightarrow>
          if p = ''{'' then map_option (\<lambda>(ss, rest'). (Block ss, rest')) (parse_block f rest) else None
      | Id x # rest \<Rightarrow>
          if x = ''if''
          then (case expect '')'' (case rest of
                      Sym p # rest1 \<Rightarrow> if p = ''('' then parse_exp f rest1 else None
                    | _ \<Rightarrow> None) of
                  None \<Rightarrow> None
                | Some (c, rest2) \<Rightarrow>
                    (case parse_stmt f rest2 of
                       None \<Rightarrow> None
                     | Some (s1, Id y # rest3) \<Rightarrow>
                         if y = ''else''
                         then map_option (\<lambda>(s2, rest4). (If c s1 (Some s2), rest4)) (parse_stmt f rest3)
                         else Some (If c s1 None, Id y # rest3)
                     | Some (s1, rest3) \<Rightarrow> Some (If c s1 None, rest3)))
          else if x = ''int'' \<or> x = ''char'' then parse_declaration f x rest
          else parse_simple f ts
      | _ \<Rightarrow> None)"
| "parse_block 0 ts = None"
| "parse_block (Suc f) ts =
     (if ts \<noteq> [] \<and> hd ts = Sym ''}'' then Some ([], tl ts)
      else case parse_stmt f ts of
        None \<Rightarrow> None
      | Some (s, rest) \<Rightarrow> map_option (\<lambda>(ss, rest'). (s # ss, rest')) (parse_block f rest))"

text \<open>A hook is a list of statements up to its end, read as a block. Each call of a parser reads a token
  or calls the next one with the same tokens, at most three deep.\<close>

definition parse_hook :: "string \<Rightarrow> stmt list option" where
  "parse_hook s =
     (let ts = tokens s
      in case parse_block (4 * length ts + 4) (ts @ [Sym ''}'']) of
           Some (ss, []) \<Rightarrow> Some ss
         | _ \<Rightarrow> None)"

lemma parse_hook_examples:
  "parse_hook ''if (result == -1) {error_code = errno;} '' =
     Some [If (Bin Equal (Var ''result'') (Const (- 1))) (Block [Assign ''error_code'' (Var ''errno'')]) None]"
  "parse_hook ''int fd = FD_NONE; if (!result) error_code = errno; else fd = dirfd(result);'' =
     Some [Declare ''int'' ''fd'' (Some (Var ''FD_NONE'')),
       If (Not (Var ''result'')) (Assign ''error_code'' (Var ''errno''))
         (Some (Assign ''fd'' (Call ''dirfd'' [Var ''result''])))]"
  by code_simp+

end
