(* ===== verification/Hook_Table.thy ===== *)
theory Hook_Table
imports Hook_Syntax
begin

text \<open>
  The wrappers of \<open>monitored_functions.data\<close> as programs: the types of parameters and result, read from
  the prototype, the syntax tree of the hook, and the arguments of \<open>record\<close>, for each line of the file.
\<close>

section \<open>Types in a prototype\<close>

definition pointer_named :: "string \<Rightarrow> pointer_kind" where
  "pointer_named t =
     (case map_of [(''FILE*'', File_ptr), (''DIR*'', Dir_ptr), (''const struct sockaddr*'', Sockaddr_ptr),
        (''const char*'', Char_ptr), (''char*'', Char_ptr)] t of
        None \<Rightarrow> Other_ptr
      | Some k \<Rightarrow> k)"

text \<open>The integer types of the C library on a machine of 64 bits. A \<open>va_list\<close> is an array.\<close>

definition type_named :: "string \<Rightarrow> vtype option" where
  "type_named t =
     (if List.member t CHR ''*'' then Some (Ptr (pointer_named t))
      else map_of [(''int'', Arith Int32), (''pid_t'', Arith Int32), (''mode_t'', Arith UInt32),
        (''uid_t'', Arith UInt32), (''gid_t'', Arith UInt32), (''socklen_t'', Arith UInt32),
        (''size_t'', Arith UInt64), (''dev_t'', Arith UInt64), (''unsigned long'', Arith UInt64),
        (''ssize_t'', Arith Int64), (''off_t'', Arith Int64), (''long'', Arith Int64),
        (''va_list'', Ptr Other_ptr)] t)"

definition params_of :: "row \<Rightarrow> (string \<times> vtype option) list" where
  "params_of r =
     filter (\<lambda>(x, t). x \<noteq> [] \<and> x \<noteq> ''...'')
       (map (\<lambda>arg.
          (filter (\<lambda>c. c \<noteq> CHR ''['' \<and> c \<noteq> CHR '']'' \<and> c \<noteq> CHR '')'') (last_word (echo arg)),
           type_named (but_last_word (echo arg))))
         (split_line CHR '','' (cut_from CHR ''('' 2 (echo (rw_prototype r)))))"

section \<open>The program of a row\<close>

record code =
  cd_ret :: "vtype option"
  cd_exec :: bool
  cd_params :: "(string \<times> vtype) list"
  cd_hook :: "stmt list"
  cd_fd :: string
  cd_count :: string
  cd_s1 :: string
  cd_s2 :: string

definition code_of :: "row \<Rightarrow> code option" where
  "code_of r =
     (case parse_hook (rw_hook r) of
        None \<Rightarrow> None
      | Some ss \<Rightarrow>
          if list_all (\<lambda>(x, t). t \<noteq> None) (params_of r) \<and> (rw_ret r = ''void'' \<or> type_named (rw_ret r) \<noteq> None)
          then Some \<lparr>cd_ret = (if rw_ret r = ''void'' then None else type_named (rw_ret r)),
                 cd_exec = is_exec_call r, cd_params = map (\<lambda>(x, t). (x, the t)) (params_of r),
                 cd_hook = ss, cd_fd = recorded_fd r, cd_count = recorded_count r,
                 cd_s1 = echo (rw_s1 r), cd_s2 = echo (rw_s2 r)\<rparr>
          else None)"

abbreviation program ::
  "vtype option \<Rightarrow> bool \<Rightarrow> (string \<times> vtype) list \<Rightarrow> stmt list \<Rightarrow> string \<Rightarrow> string \<Rightarrow> string \<Rightarrow> string \<Rightarrow> code" where
  "program t ex ps ss fd count s1 s2 \<equiv>
     \<lparr>cd_ret = t, cd_exec = ex, cd_params = ps, cd_hook = ss, cd_fd = fd, cd_count = count, cd_s1 = s1, cd_s2 = s2\<rparr>"

section \<open>The table\<close>

abbreviation "set_error \<equiv> Assign ''error_code'' (Var ''errno'')"
abbreviation "set_error_block \<equiv> Block [set_error]"
abbreviation "is_minus_one \<equiv> Bin Equal (Var ''result'') (Const (- 1))"
abbreviation "is_nonzero \<equiv> Bin Unequal (Var ''result'') (Const 0)"
abbreviation "is_negative \<equiv> Bin Less (Var ''result'') (Const 0)"
abbreviation "time_before \<equiv> Call ''TIME_BEFORE'' []"
abbreviation "time_after \<equiv> Call ''TIME_AFTER'' []"

definition file_code :: "(string \<times> code) list" where
  "file_code = [
     (''open'', program (Some (Arith Int32)) False
        [(''pathname'', Ptr Char_ptr), (''flags'', Arith Int32)]
        [If is_minus_one set_error_block None]
        ''FD_NONE'' ''ZERO_BYTES'' ''pathname'' ''NULL''),
     (''open64'', program (Some (Arith Int32)) False
        [(''pathname'', Ptr Char_ptr), (''flags'', Arith Int32)]
        [If is_minus_one set_error_block None]
        ''FD_NONE'' ''ZERO_BYTES'' ''pathname'' ''NULL''),
     (''fopen'', program (Some (Ptr File_ptr)) False
        [(''path'', Ptr Char_ptr), (''mode'', Ptr Char_ptr)]
        [Declare ''int'' ''fd'' None, If (Bin Equal (Var ''result'') (Var ''NULL'')) (Block [set_error,
         Assign ''fd'' (Var ''FD_NONE'')]) (Some (Block [Assign ''fd'' (Call ''fileno'' [Var ''result''])]))]
        ''fd'' ''ZERO_BYTES'' ''path'' ''mode''),
     (''fopen64'', program (Some (Ptr File_ptr)) False
        [(''path'', Ptr Char_ptr), (''mode'', Ptr Char_ptr)]
        [Declare ''int'' ''fd'' None, If (Bin Equal (Var ''result'') (Var ''NULL'')) (Block [set_error,
         Assign ''fd'' (Var ''FD_NONE'')]) (Some (Block [Assign ''fd'' (Call ''fileno'' [Var ''result''])]))]
        ''fd'' ''ZERO_BYTES'' ''path'' ''mode''),
     (''creat'', program (Some (Arith Int32)) False
        [(''pathname'', Ptr Char_ptr), (''mode'', Arith UInt32)]
        [If is_minus_one set_error_block None]
        ''FD_NONE'' ''ZERO_BYTES'' ''pathname'' ''NULL''),
     (''creat64'', program (Some (Arith Int32)) False
        [(''pathname'', Ptr Char_ptr), (''mode'', Arith UInt32)]
        [If is_minus_one set_error_block None]
        ''FD_NONE'' ''ZERO_BYTES'' ''pathname'' ''NULL''),
     (''fclose'', program (Some (Arith Int32)) False
        [(''fp'', Ptr File_ptr)]
        [If is_minus_one set_error_block None]
        ''FD_NONE'' ''ZERO_BYTES'' ''NULL'' ''NULL''),
     (''close'', program (Some (Arith Int32)) False
        [(''fd'', Arith Int32)]
        [If is_minus_one set_error_block None]
        ''fd'' ''ZERO_BYTES'' ''NULL'' ''NULL'')]"

definition read_code :: "(string \<times> code) list" where
  "read_code = [
     (''read'', program (Some (Arith Int64)) False
        [(''fd'', Arith Int32), (''buf'', Ptr Other_ptr), (''count'', Arith UInt64)]
        [If is_negative set_error None, Do (Call ''check_for_http'' [Var ''FILE_READ'', Var ''fd'', Var ''buf'',
         Var ''count'', time_before, time_after])]
        ''fd'' ''count'' ''NULL'' ''NULL''),
     (''recv'', program (Some (Arith Int64)) False
        [(''fd'', Arith Int32), (''buf'', Ptr Other_ptr), (''count'', Arith UInt64), (''flags'', Arith Int32)]
        [If is_negative set_error None, Do (Call ''check_for_http'' [Var ''FILE_READ'', Var ''fd'', Var ''buf'',
         Var ''count'', time_before, time_after])]
        ''fd'' ''count'' ''NULL'' ''NULL''),
     (''pread'', program (Some (Arith Int64)) False
        [(''fd'', Arith Int32), (''buf'', Ptr Other_ptr), (''count'', Arith UInt64), (''offset'', Arith Int64)]
        [If is_negative set_error None]
        ''fd'' ''count'' ''NULL'' ''NULL''),
     (''readv'', program (Some (Arith Int64)) False
        [(''fd'', Arith Int32), (''iov'', Ptr Other_ptr), (''iovcnt'', Arith Int32)]
        [If is_negative set_error None]
        ''fd'' ''ZERO_BYTES'' ''NULL'' ''NULL''),
     (''preadv'', program (Some (Arith Int64)) False
        [(''fd'', Arith Int32), (''iov'', Ptr Other_ptr), (''iovcnt'', Arith Int32), (''offset'', Arith Int64)]
        [If is_negative set_error None]
        ''fd'' ''ZERO_BYTES'' ''NULL'' ''NULL''),
     (''fread'', program (Some (Arith UInt64)) False
        [(''ptr'', Ptr Other_ptr), (''size'', Arith UInt64), (''nmemb'', Arith UInt64), (''stream'', Ptr File_ptr)]
        [If is_negative set_error None, Declare ''int'' ''fd'' (Some (Call ''fileno'' [Var ''stream''])),
         Declare ''int'' ''count'' (Some (Bin Times (Var ''size'') (Var ''nmemb'')))]
        ''fd'' ''count'' ''NULL'' ''NULL''),
     (''fscanf'', program (Some (Arith Int32)) False
        [(''stream'', Ptr File_ptr), (''format'', Ptr Char_ptr)]
        [If (Bin Equal (Var ''result'') (Var ''EOF'')) set_error None,
         Declare ''int'' ''fd'' (Some (Call ''fileno'' [Var ''stream''])),
         Declare ''int'' ''count'' (Some (Var ''result''))]
        ''fd'' ''count'' ''NULL'' ''NULL''),
     (''vfscanf'', program (Some (Arith Int32)) False
        [(''stream'', Ptr File_ptr), (''format'', Ptr Char_ptr), (''ap'', Ptr Other_ptr)]
        [If (Bin Equal (Var ''result'') (Var ''EOF'')) set_error None,
         Declare ''int'' ''fd'' (Some (Call ''fileno'' [Var ''stream''])),
         Declare ''int'' ''count'' (Some (Var ''result''))]
        ''fd'' ''count'' ''NULL'' ''NULL'')]"

definition write_code :: "(string \<times> code) list" where
  "write_code = [
     (''write'', program (Some (Arith Int64)) False
        [(''fd'', Arith Int32), (''buf'', Ptr Other_ptr), (''count'', Arith UInt64)]
        [If is_negative set_error None, Do (Call ''check_for_http'' [Var ''FILE_WRITE'', Var ''fd'', Var ''buf'',
         Var ''count'', time_before, time_after])]
        ''fd'' ''count'' ''NULL'' ''NULL''),
     (''send'', program (Some (Arith Int64)) False
        [(''fd'', Arith Int32), (''buf'', Ptr Other_ptr), (''count'', Arith UInt64), (''flags'', Arith Int32)]
        [If is_negative set_error None, Do (Call ''check_for_http'' [Var ''FILE_WRITE'', Var ''fd'', Var ''buf'',
         Var ''count'', time_before, time_after])]
        ''fd'' ''count'' ''NULL'' ''NULL''),
     (''pwrite'', program (Some (Arith Int64)) False
        [(''fd'', Arith Int32), (''buf'', Ptr Other_ptr), (''count'', Arith UInt64), (''offset'', Arith Int64)]
        [If is_negative set_error None]
        ''fd'' ''count'' ''NULL'' ''NULL''),
     (''writev'', program (Some (Arith Int64)) False
        [(''fd'', Arith Int32), (''iov'', Ptr Other_ptr), (''iovcnt'', Arith Int32)]
        [If is_negative set_error None]
        ''fd'' ''ZERO_BYTES'' ''NULL'' ''NULL''),
     (''pwritev'', program (Some (Arith Int64)) False
        [(''fd'', Arith Int32), (''iov'', Ptr Other_ptr), (''iovcnt'', Arith Int32), (''offset'', Arith Int64)]
        [If is_negative set_error None]
        ''fd'' ''ZERO_BYTES'' ''NULL'' ''NULL''),
     (''fprintf'', program (Some (Arith Int32)) False
        [(''stream'', Ptr File_ptr), (''format'', Ptr Char_ptr)]
        [If is_negative set_error None, Declare ''int'' ''fd'' (Some (Call ''fileno'' [Var ''stream''])),
         Declare ''int'' ''count'' (Some (Var ''result''))]
        ''fd'' ''count'' ''NULL'' ''NULL''),
     (''vfprintf'', program (Some (Arith Int32)) False
        [(''stream'', Ptr File_ptr), (''format'', Ptr Char_ptr), (''ap'', Ptr Other_ptr)]
        [If is_negative set_error None, Declare ''int'' ''fd'' (Some (Call ''fileno'' [Var ''stream''])),
         Declare ''int'' ''count'' (Some (Var ''result''))]
        ''fd'' ''count'' ''NULL'' ''NULL''),
     (''fwrite'', program (Some (Arith UInt64)) False
        [(''ptr'', Ptr Other_ptr), (''size'', Arith UInt64), (''nmemb'', Arith UInt64), (''stream'', Ptr File_ptr)]
        [If (Bin Less (Var ''result'') (Var ''nmemb'')) set_error None,
         Declare ''int'' ''fd'' (Some (Call ''fileno'' [Var ''stream''])),
         Declare ''int'' ''count'' (Some (Bin Times (Var ''size'') (Var ''nmemb'')))]
        ''fd'' ''count'' ''NULL'' ''NULL'')]"

definition sync_code :: "(string \<times> code) list" where
  "sync_code = [
     (''fsync'', program (Some (Arith Int32)) False
        [(''fd'', Arith Int32)]
        [If is_minus_one set_error_block None]
        ''fd'' ''ZERO_BYTES'' ''NULL'' ''NULL''),
     (''fdatasync'', program (Some (Arith Int32)) False
        [(''fd'', Arith Int32)]
        [If is_minus_one set_error_block None]
        ''fd'' ''ZERO_BYTES'' ''NULL'' ''NULL''),
     (''sync'', program None False
        []
        []
        ''FD_NONE'' ''ZERO_BYTES'' ''NULL'' ''NULL''),
     (''syncfs'', program (Some (Arith Int32)) False
        [(''fd'', Arith Int32)]
        [If is_minus_one set_error_block None]
        ''fd'' ''ZERO_BYTES'' ''NULL'' ''NULL''),
     (''fflush'', program (Some (Arith Int32)) False
        [(''fp'', Ptr File_ptr)]
        [If is_nonzero set_error_block None, Declare ''int'' ''fd'' (Some (Call ''fileno'' [Var ''fp'']))]
        ''fd'' ''ZERO_BYTES'' ''NULL'' ''NULL'')]"

definition xattr_code :: "(string \<times> code) list" where
  "xattr_code = [
     (''setxattr'', program (Some (Arith Int32)) False
        [(''path'', Ptr Char_ptr), (''name'', Ptr Char_ptr), (''value'', Ptr Other_ptr), (''size'', Arith UInt64),
         (''flags'', Arith Int32)]
        [Declare ''int'' ''count'' (Some (Var ''size'')), If is_minus_one set_error_block None]
        ''FD_NONE'' ''count'' ''path'' ''name''),
     (''lsetxattr'', program (Some (Arith Int32)) False
        [(''path'', Ptr Char_ptr), (''name'', Ptr Char_ptr), (''value'', Ptr Other_ptr), (''size'', Arith UInt64),
         (''flags'', Arith Int32)]
        [Declare ''int'' ''count'' (Some (Var ''size'')), If is_minus_one set_error_block None]
        ''FD_NONE'' ''count'' ''path'' ''name''),
     (''fsetxattr'', program (Some (Arith Int32)) False
        [(''fd'', Arith Int32), (''name'', Ptr Char_ptr), (''value'', Ptr Other_ptr), (''size'', Arith UInt64),
         (''flags'', Arith Int32)]
        [Declare ''int'' ''count'' (Some (Var ''size'')), If is_minus_one set_error_block None]
        ''fd'' ''count'' ''name'' ''NULL''),
     (''getxattr'', program (Some (Arith Int64)) False
        [(''path'', Ptr Char_ptr), (''name'', Ptr Char_ptr), (''value'', Ptr Other_ptr), (''size'', Arith UInt64)]
        [Declare ''int'' ''count'' (Some (Var ''result'')), If is_minus_one set_error_block None]
        ''FD_NONE'' ''count'' ''path'' ''name''),
     (''lgetxattr'', program (Some (Arith Int64)) False
        [(''path'', Ptr Char_ptr), (''name'', Ptr Char_ptr), (''value'', Ptr Other_ptr), (''size'', Arith UInt64)]
        [Declare ''int'' ''count'' (Some (Var ''result'')), If is_minus_one set_error_block None]
        ''FD_NONE'' ''count'' ''path'' ''name''),
     (''fgetxattr'', program (Some (Arith Int64)) False
        [(''fd'', Arith Int32), (''name'', Ptr Char_ptr), (''value'', Ptr Other_ptr), (''size'', Arith UInt64)]
        [Declare ''int'' ''count'' (Some (Var ''size'')), If is_minus_one set_error_block None]
        ''fd'' ''count'' ''name'' ''NULL''),
     (''listxattr'', program (Some (Arith Int64)) False
        [(''path'', Ptr Char_ptr), (''list'', Ptr Char_ptr), (''size'', Arith UInt64)]
        [If is_negative set_error None]
        ''FD_NONE'' ''ZERO_BYTES'' ''path'' ''NULL''),
     (''llistxattr'', program (Some (Arith Int64)) False
        [(''path'', Ptr Char_ptr), (''list'', Ptr Char_ptr), (''size'', Arith UInt64)]
        [If is_negative set_error None]
        ''FD_NONE'' ''ZERO_BYTES'' ''path'' ''NULL''),
     (''flistxattr'', program (Some (Arith Int64)) False
        [(''fd'', Arith Int32), (''list'', Ptr Char_ptr), (''size'', Arith UInt64)]
        [If is_negative set_error None]
        ''fd'' ''ZERO_BYTES'' ''NULL'' ''NULL''),
     (''removexattr'', program (Some (Arith Int32)) False
        [(''path'', Ptr Char_ptr), (''name'', Ptr Char_ptr)]
        [If is_negative set_error None]
        ''FD_NONE'' ''ZERO_BYTES'' ''path'' ''NULL''),
     (''lremovexattr'', program (Some (Arith Int32)) False
        [(''path'', Ptr Char_ptr), (''name'', Ptr Char_ptr)]
        [If is_negative set_error None]
        ''FD_NONE'' ''ZERO_BYTES'' ''path'' ''NULL''),
     (''fremovexattr'', program (Some (Arith Int32)) False
        [(''fd'', Arith Int32), (''name'', Ptr Char_ptr)]
        [If is_negative set_error None]
        ''fd'' ''ZERO_BYTES'' ''NULL'' ''NULL''),
     (''mount'', program (Some (Arith Int32)) False
        [(''source'', Ptr Char_ptr), (''target'', Ptr Char_ptr), (''filesystemtype'', Ptr Char_ptr),
         (''mountflags'', Arith UInt64), (''data'', Ptr Other_ptr)]
        [If is_nonzero set_error None]
        ''FD_NONE'' ''ZERO_BYTES'' ''source'' ''target''),
     (''umount'', program (Some (Arith Int32)) False
        [(''target'', Ptr Char_ptr)]
        [If is_nonzero set_error None]
        ''FD_NONE'' ''ZERO_BYTES'' ''target'' ''NULL''),
     (''umount2'', program (Some (Arith Int32)) False
        [(''target'', Ptr Char_ptr), (''flags'', Arith Int32)]
        [If is_nonzero set_error None]
        ''FD_NONE'' ''ZERO_BYTES'' ''target'' ''NULL'')]"

definition dir_code :: "(string \<times> code) list" where
  "dir_code = [
     (''opendir'', program (Some (Ptr Dir_ptr)) False
        [(''name'', Ptr Char_ptr)]
        [Declare ''int'' ''fd'' (Some (Var ''FD_NONE'')),
         If (Not (Var ''result'')) set_error (Some (Assign ''fd'' (Call ''dirfd'' [Var ''result''])))]
        ''fd'' ''ZERO_BYTES'' ''name'' ''NULL''),
     (''fdopendir'', program (Some (Ptr Dir_ptr)) False
        [(''fd'', Arith Int32)]
        [If (Not (Var ''result'')) set_error None]
        ''fd'' ''ZERO_BYTES'' ''NULL'' ''NULL''),
     (''closedir'', program (Some (Arith Int32)) False
        [(''dirp'', Ptr Dir_ptr)]
        [If (Var ''result'') set_error None, Declare ''int'' ''fd'' (Some (Call ''dirfd'' [Var ''dirp'']))]
        ''fd'' ''ZERO_BYTES'' ''NULL'' ''NULL''),
     (''readdir'', program (Some (Ptr Other_ptr)) False
        [(''dirp'', Ptr Dir_ptr)]
        [If (Not (Var ''result'')) set_error None, Declare ''int'' ''fd'' (Some (Call ''dirfd'' [Var ''dirp'']))]
        ''fd'' ''ZERO_BYTES'' ''NULL'' ''NULL''),
     (''readdir_r'', program (Some (Arith Int32)) False
        [(''dirp'', Ptr Dir_ptr), (''entry'', Ptr Other_ptr), (''_res'', Ptr Other_ptr)]
        [If (Var ''result'') set_error None, Declare ''int'' ''fd'' (Some (Call ''dirfd'' [Var ''dirp'']))]
        ''fd'' ''ZERO_BYTES'' ''NULL'' ''NULL''),
     (''rewinddir'', program None False
        [(''dirp'', Ptr Dir_ptr)]
        [Declare ''int'' ''fd'' (Some (Call ''dirfd'' [Var ''dirp'']))]
        ''fd'' ''ZERO_BYTES'' ''NULL'' ''NULL''),
     (''seekdir'', program None False
        [(''dirp'', Ptr Dir_ptr), (''loc'', Arith Int64)]
        [Declare ''int'' ''fd'' (Some (Call ''dirfd'' [Var ''dirp'']))]
        ''fd'' ''ZERO_BYTES'' ''NULL'' ''NULL''),
     (''telldir'', program (Some (Arith Int64)) False
        [(''dirp'', Ptr Dir_ptr)]
        [Declare ''int'' ''fd'' (Some (Call ''dirfd'' [Var ''dirp'']))]
        ''fd'' ''ZERO_BYTES'' ''NULL'' ''NULL'')]"

definition stat_code :: "(string \<times> code) list" where
  "stat_code = [
     (''fstat'', program (Some (Arith Int32)) False
        [(''fd'', Arith Int32), (''buf'', Ptr Other_ptr)]
        [If is_nonzero set_error None]
        ''fd'' ''ZERO_BYTES'' ''NULL'' ''NULL''),
     (''lstat'', program (Some (Arith Int32)) False
        [(''path'', Ptr Char_ptr), (''buf'', Ptr Other_ptr)]
        [If is_nonzero set_error None]
        ''FD_NONE'' ''ZERO_BYTES'' ''path'' ''NULL''),
     (''stat'', program (Some (Arith Int32)) False
        [(''path'', Ptr Char_ptr), (''buf'', Ptr Other_ptr)]
        [If is_nonzero set_error None]
        ''FD_NONE'' ''ZERO_BYTES'' ''path'' ''NULL''),
     (''__lxstat'', program (Some (Arith Int32)) False
        [(''v'', Arith Int32), (''path'', Ptr Char_ptr), (''buf'', Ptr Other_ptr)]
        [If is_nonzero set_error None]
        ''FD_NONE'' ''ZERO_BYTES'' ''path'' ''NULL''),
     (''__xstat'', program (Some (Arith Int32)) False
        [(''v'', Arith Int32), (''path'', Ptr Char_ptr), (''buf'', Ptr Other_ptr)]
        [If is_nonzero set_error None]
        ''FD_NONE'' ''ZERO_BYTES'' ''path'' ''NULL''),
     (''__fxstat'', program (Some (Arith Int32)) False
        [(''v'', Arith Int32), (''fd'', Arith Int32), (''buf'', Ptr Other_ptr)]
        [If is_nonzero set_error None]
        ''fd'' ''ZERO_BYTES'' ''NULL'' ''NULL''),
     (''__lxstat64'', program (Some (Arith Int32)) False
        [(''v'', Arith Int32), (''path'', Ptr Char_ptr), (''buf'', Ptr Other_ptr)]
        [If is_nonzero set_error None]
        ''FD_NONE'' ''ZERO_BYTES'' ''path'' ''NULL''),
     (''__xstat64'', program (Some (Arith Int32)) False
        [(''v'', Arith Int32), (''path'', Ptr Char_ptr), (''buf'', Ptr Other_ptr)]
        [If is_nonzero set_error None]
        ''FD_NONE'' ''ZERO_BYTES'' ''path'' ''NULL''),
     (''__fxstat64'', program (Some (Arith Int32)) False
        [(''v'', Arith Int32), (''fd'', Arith Int32), (''buf'', Ptr Other_ptr)]
        [If is_nonzero set_error None]
        ''fd'' ''ZERO_BYTES'' ''NULL'' ''NULL''),
     (''access'', program (Some (Arith Int32)) False
        [(''path'', Ptr Char_ptr), (''amode'', Arith Int32)]
        [If is_nonzero set_error None]
        ''FD_NONE'' ''ZERO_BYTES'' ''path'' ''NULL'')]"

definition attribute_code :: "(string \<times> code) list" where
  "attribute_code = [
     (''faccessat'', program (Some (Arith Int32)) False
        [(''fd'', Arith Int32), (''path'', Ptr Char_ptr), (''mode'', Arith Int32), (''flag'', Arith Int32)]
        [If is_nonzero set_error None]
        ''fd'' ''ZERO_BYTES'' ''path'' ''NULL''),
     (''chmod'', program (Some (Arith Int32)) False
        [(''path'', Ptr Char_ptr), (''mode'', Arith UInt32)]
        [If is_nonzero set_error None]
        ''FD_NONE'' ''ZERO_BYTES'' ''path'' ''NULL''),
     (''fchmod'', program (Some (Arith Int32)) False
        [(''fd'', Arith Int32), (''mode'', Arith UInt32)]
        [If is_nonzero set_error None]
        ''fd'' ''ZERO_BYTES'' ''NULL'' ''NULL''),
     (''fchmodat'', program (Some (Arith Int32)) False
        [(''fd'', Arith Int32), (''path'', Ptr Char_ptr), (''mode'', Arith UInt32), (''flag'', Arith Int32)]
        [If is_nonzero set_error None]
        ''fd'' ''ZERO_BYTES'' ''path'' ''NULL''),
     (''chown'', program (Some (Arith Int32)) False
        [(''path'', Ptr Char_ptr), (''owner'', Arith UInt32), (''group'', Arith UInt32)]
        [If is_nonzero set_error None]
        ''FD_NONE'' ''ZERO_BYTES'' ''path'' ''NULL''),
     (''lchown'', program (Some (Arith Int32)) False
        [(''path'', Ptr Char_ptr), (''owner'', Arith UInt32), (''group'', Arith UInt32)]
        [If is_nonzero set_error None]
        ''FD_NONE'' ''ZERO_BYTES'' ''path'' ''NULL''),
     (''fchown'', program (Some (Arith Int32)) False
        [(''fd'', Arith Int32), (''owner'', Arith UInt32), (''group'', Arith UInt32)]
        [If is_nonzero set_error None]
        ''fd'' ''ZERO_BYTES'' ''NULL'' ''NULL''),
     (''fchownat'', program (Some (Arith Int32)) False
        [(''fd'', Arith Int32), (''path'', Ptr Char_ptr), (''owner'', Arith UInt32), (''group'', Arith UInt32),
         (''flag'', Arith Int32)]
        [If is_nonzero set_error None]
        ''fd'' ''ZERO_BYTES'' ''path'' ''NULL''),
     (''utime'', program (Some (Arith Int32)) False
        [(''path'', Ptr Char_ptr), (''times'', Ptr Other_ptr)]
        [If is_nonzero set_error None]
        ''FD_NONE'' ''ZERO_BYTES'' ''path'' ''NULL''),
     (''posix_fallocate'', program (Some (Arith Int32)) False
        [(''fd'', Arith Int32), (''offset'', Arith Int64), (''len'', Arith Int64)]
        [If is_nonzero set_error None]
        ''fd'' ''ZERO_BYTES'' ''NULL'' ''NULL''),
     (''fallocate'', program (Some (Arith Int32)) False
        [(''fd'', Arith Int32), (''mode'', Arith Int32), (''offset'', Arith Int64), (''len'', Arith Int64)]
        [If is_nonzero set_error None]
        ''fd'' ''ZERO_BYTES'' ''NULL'' ''NULL''),
     (''truncate'', program (Some (Arith Int32)) False
        [(''path'', Ptr Char_ptr), (''length'', Arith Int64)]
        [If is_nonzero set_error None]
        ''FD_NONE'' ''ZERO_BYTES'' ''path'' ''NULL''),
     (''ftruncate'', program (Some (Arith Int32)) False
        [(''fd'', Arith Int32), (''length'', Arith Int64)]
        [If is_nonzero set_error None]
        ''fd'' ''ZERO_BYTES'' ''NULL'' ''NULL'')]"

definition socket_code :: "(string \<times> code) list" where
  "socket_code = [
     (''connect'', program (Some (Arith Int32)) False
        [(''fd'', Arith Int32), (''addr'', Ptr Sockaddr_ptr), (''addrlen'', Arith UInt32)]
        [If is_minus_one set_error None, Declare_array ''char'' ''path'' 200 (Some []),
         Do (Call ''real_ip'' [Var ''addr'', Var ''path''])]
        ''fd'' ''ZERO_BYTES'' ''path'' ''NULL''),
     (''socket'', program (Some (Arith Int32)) False
        [(''domain'', Arith Int32), (''type'', Arith Int32), (''protocol'', Arith Int32)]
        [Declare ''int'' ''fd'' (Some (Var ''result'')), If is_minus_one set_error None]
        ''fd'' ''ZERO_BYTES'' ''NULL'' ''NULL''),
     (''bind'', program (Some (Arith Int32)) False
        [(''fd'', Arith Int32), (''addr'', Ptr Sockaddr_ptr), (''addrlen'', Arith UInt32)]
        [If is_minus_one set_error None, Declare_array ''char'' ''path'' 200 (Some []),
         Do (Call ''real_ip'' [Var ''addr'', Var ''path''])]
        ''fd'' ''ZERO_BYTES'' ''path'' ''NULL'')]"

definition process_code :: "(string \<times> code) list" where
  "process_code = [
     (''chdir'', program (Some (Arith Int32)) False
        [(''path'', Ptr Char_ptr)]
        [If is_nonzero set_error None]
        ''FD_NONE'' ''ZERO_BYTES'' ''path'' ''NULL''),
     (''fchdir'', program (Some (Arith Int32)) False
        [(''fd'', Arith Int32)]
        [If is_nonzero set_error None]
        ''fd'' ''ZERO_BYTES'' ''NULL'' ''NULL''),
     (''mkdir'', program (Some (Arith Int32)) False
        [(''path'', Ptr Char_ptr), (''mode'', Arith UInt32)]
        [If is_nonzero set_error None]
        ''FD_NONE'' ''ZERO_BYTES'' ''path'' ''NULL''),
     (''mkdirat'', program (Some (Arith Int32)) False
        [(''fd'', Arith Int32), (''path'', Ptr Char_ptr), (''mode'', Arith UInt32)]
        [If is_nonzero set_error None]
        ''fd'' ''ZERO_BYTES'' ''path'' ''NULL''),
     (''rmdir'', program (Some (Arith Int32)) False
        [(''path'', Ptr Char_ptr)]
        [If is_nonzero set_error None]
        ''FD_NONE'' ''ZERO_BYTES'' ''path'' ''NULL''),
     (''execl'', program (Some (Arith Int32)) True
        [(''path'', Ptr Char_ptr), (''arg'', Ptr Char_ptr)]
        []
        ''FD_NONE'' ''ZERO_BYTES'' ''path'' ''arg''),
     (''execlp'', program (Some (Arith Int32)) True
        [(''file'', Ptr Char_ptr), (''arg'', Ptr Char_ptr)]
        []
        ''FD_NONE'' ''ZERO_BYTES'' ''file'' ''arg''),
     (''execle'', program (Some (Arith Int32)) True
        [(''path'', Ptr Char_ptr), (''arg'', Ptr Char_ptr)]
        []
        ''FD_NONE'' ''ZERO_BYTES'' ''path'' ''arg''),
     (''execv'', program (Some (Arith Int32)) True
        [(''path'', Ptr Char_ptr), (''argv'', Ptr Other_ptr)]
        []
        ''FD_NONE'' ''ZERO_BYTES'' ''path'' ''NULL''),
     (''execvp'', program (Some (Arith Int32)) True
        [(''file'', Ptr Char_ptr), (''argv'', Ptr Other_ptr)]
        []
        ''FD_NONE'' ''ZERO_BYTES'' ''file'' ''NULL''),
     (''execvpe'', program (Some (Arith Int32)) True
        [(''file'', Ptr Char_ptr), (''argv'', Ptr Other_ptr), (''envp'', Ptr Other_ptr)]
        []
        ''FD_NONE'' ''ZERO_BYTES'' ''file'' ''NULL''),
     (''fork'', program (Some (Arith Int32)) False
        []
        [If (Bin Equal (Var ''result'') (Const 0)) (Do (Call ''init'' [])) None]
        ''FD_NONE'' ''ZERO_BYTES'' ''NULL'' ''NULL''),
     (''kill'', program (Some (Arith Int32)) False
        [(''_pid'', Arith Int32), (''_sig'', Arith Int32)]
        [Declare_array ''char'' ''tpid'' 10 None, Declare_array ''char'' ''tsig'' 10 None,
         Do (Call ''sprintf'' [Var ''tpid'', Text ''%d'', Var ''_pid'']), Do (Call ''sprintf'' [Var ''tsig'',
         Text ''%d'', Var ''_sig''])]
        ''FD_NONE'' ''ZERO_BYTES'' ''tpid'' ''tsig'')]"

definition misc_code :: "(string \<times> code) list" where
  "misc_code = [
     (''rename'', program (Some (Arith Int32)) False
        [(''oldpath'', Ptr Char_ptr), (''newpath'', Ptr Char_ptr)]
        [If is_nonzero set_error None]
        ''FD_NONE'' ''ZERO_BYTES'' ''oldpath'' ''newpath''),
     (''flock'', program (Some (Arith Int32)) False
        [(''fd'', Arith Int32), (''operation'', Arith Int32)]
        [If is_nonzero set_error None]
        ''fd'' ''ZERO_BYTES'' ''NULL'' ''NULL''),
     (''mknod'', program (Some (Arith Int32)) False
        [(''pathname'', Ptr Char_ptr), (''mode'', Arith UInt32), (''dev'', Arith UInt64)]
        [If is_nonzero set_error None]
        ''FD_NONE'' ''ZERO_BYTES'' ''pathname'' ''NULL''),
     (''chroot'', program (Some (Arith Int32)) False
        [(''path'', Ptr Char_ptr)]
        [If is_nonzero set_error None]
        ''FD_NONE'' ''ZERO_BYTES'' ''path'' ''NULL''),
     (''dup'', program (Some (Arith Int32)) False
        [(''oldfd'', Arith Int32)]
        [If is_nonzero set_error None]
        ''FD_NONE'' ''ZERO_BYTES'' ''NULL'' ''NULL''),
     (''dup2'', program (Some (Arith Int32)) False
        [(''oldfd'', Arith Int32), (''newfd'', Arith Int32)]
        [If is_nonzero set_error None]
        ''FD_NONE'' ''ZERO_BYTES'' ''NULL'' ''NULL''),
     (''dup3'', program (Some (Arith Int32)) False
        [(''oldfd'', Arith Int32), (''newfd'', Arith Int32), (''flags'', Arith Int32)]
        [If is_nonzero set_error None]
        ''FD_NONE'' ''ZERO_BYTES'' ''NULL'' ''NULL''),
     (''unlink'', program (Some (Arith Int32)) False
        [(''pathname'', Ptr Char_ptr)]
        [If is_nonzero set_error None]
        ''FD_NONE'' ''ZERO_BYTES'' ''pathname'' ''NULL''),
     (''link'', program (Some (Arith Int32)) False
        [(''oldpath'', Ptr Char_ptr), (''newpath'', Ptr Char_ptr)]
        [If is_nonzero set_error None]
        ''FD_NONE'' ''ZERO_BYTES'' ''oldpath'' ''newpath''),
     (''readlink'', program (Some (Arith Int64)) False
        [(''path'', Ptr Char_ptr), (''buf'', Ptr Char_ptr), (''bufsiz'', Arith UInt64)]
        [If is_nonzero set_error None]
        ''FD_NONE'' ''ZERO_BYTES'' ''path'' ''NULL''),
     (''pthread_mutex_unlock'', program (Some (Arith Int32)) False
        [(''mutex'', Ptr Other_ptr)]
        [If is_nonzero set_error None]
        ''FD_NONE'' ''ZERO_BYTES'' ''NULL'' ''NULL''),
     (''pthread_mutex_lock'', program (Some (Arith Int32)) False
        [(''mutex'', Ptr Other_ptr)]
        [If is_nonzero set_error None]
        ''FD_NONE'' ''ZERO_BYTES'' ''NULL'' ''NULL''),
     (''pthread_mutex_init'', program (Some (Arith Int32)) False
        [(''mutex'', Ptr Other_ptr), (''attr'', Ptr Other_ptr)]
        [If is_nonzero set_error None]
        ''FD_NONE'' ''ZERO_BYTES'' ''NULL'' ''NULL''),
     (''pthread_mutex_destroy'', program (Some (Arith Int32)) False
        [(''mutex'', Ptr Other_ptr)]
        [If is_nonzero set_error None]
        ''FD_NONE'' ''ZERO_BYTES'' ''NULL'' ''NULL''),
     (''pthread_cond_signal'', program (Some (Arith Int32)) False
        [(''cond'', Ptr Other_ptr)]
        [If is_nonzero set_error None]
        ''FD_NONE'' ''ZERO_BYTES'' ''NULL'' ''NULL''),
     (''pthread_cond_broadcast'', program (Some (Arith Int32)) False
        [(''cond'', Ptr Other_ptr)]
        [If is_nonzero set_error None]
        ''FD_NONE'' ''ZERO_BYTES'' ''NULL'' ''NULL''),
     (''pthread_cond_wait'', program (Some (Arith Int32)) False
        [(''cond'', Ptr Other_ptr), (''mutex'', Ptr Other_ptr)]
        [If is_nonzero set_error None]
        ''FD_NONE'' ''ZERO_BYTES'' ''NULL'' ''NULL'')]"

text \<open>The script's fields of each line, parsed.\<close>

lemma file_code: "map (\<lambda>r. (rw_name r, code_of r)) (rows_of file_calls) = map (\<lambda>(n, c). (n, Some c)) file_code"
  by code_simp

lemma read_code: "map (\<lambda>r. (rw_name r, code_of r)) (rows_of read_calls) = map (\<lambda>(n, c). (n, Some c)) read_code"
  by code_simp

lemma write_code: "map (\<lambda>r. (rw_name r, code_of r)) (rows_of write_calls) = map (\<lambda>(n, c). (n, Some c)) write_code"
  by code_simp

lemma sync_code: "map (\<lambda>r. (rw_name r, code_of r)) (rows_of sync_calls) = map (\<lambda>(n, c). (n, Some c)) sync_code"
  by code_simp

lemma xattr_code: "map (\<lambda>r. (rw_name r, code_of r)) (rows_of xattr_calls) = map (\<lambda>(n, c). (n, Some c)) xattr_code"
  by code_simp

lemma dir_code: "map (\<lambda>r. (rw_name r, code_of r)) (rows_of dir_calls) = map (\<lambda>(n, c). (n, Some c)) dir_code"
  by code_simp

lemma stat_code: "map (\<lambda>r. (rw_name r, code_of r)) (rows_of stat_calls) = map (\<lambda>(n, c). (n, Some c)) stat_code"
  by code_simp

lemma attribute_code: "map (\<lambda>r. (rw_name r, code_of r)) (rows_of attribute_calls) = map (\<lambda>(n, c). (n, Some c)) attribute_code"
  by code_simp

lemma socket_code: "map (\<lambda>r. (rw_name r, code_of r)) (rows_of socket_calls) = map (\<lambda>(n, c). (n, Some c)) socket_code"
  by code_simp

lemma process_code: "map (\<lambda>r. (rw_name r, code_of r)) (rows_of process_calls) = map (\<lambda>(n, c). (n, Some c)) process_code"
  by code_simp

lemma misc_code: "map (\<lambda>r. (rw_name r, code_of r)) (rows_of misc_calls) = map (\<lambda>(n, c). (n, Some c)) misc_code"
  by code_simp

definition code_table :: "(string \<times> code) list" where
  "code_table =
     file_code @ read_code @ write_code @ sync_code @ xattr_code @ dir_code @ stat_code @ attribute_code @
     socket_code @ process_code @ misc_code"

lemmas codes = file_code read_code write_code sync_code xattr_code dir_code stat_code attribute_code
  socket_code process_code misc_code

lemma code_table: "map (\<lambda>r. (rw_name r, code_of r)) (rows_of monitored_functions) = map (\<lambda>(n, c). (n, Some c)) code_table"
  unfolding monitored_functions_def code_table_def by (simp add: codes)

end
