(* ===== verification/Hook_Run.thy ===== *)
theory Hook_Run
imports Hook_Syntax Recorder
begin

text \<open>
  Running a hook. The names of a hook are the parameters of the wrapper, its variables \<open>result\<close> and
  \<open>error_code\<close>, and what the hook declares; the integers keep their width and signedness, and a variable
  without a value is one that was never set. What a compiler would reject is \<open>IllFormed\<close>; the
  typing rules of \<open>Hook_Typing\<close> exclude it.
\<close>

section \<open>Values\<close>

text \<open>A pointer to characters is the string there, one to other memory what is there, and a \<open>FILE*\<close> or
  \<open>DIR*\<close> the number of a stream.\<close>

datatype pointer = Null | String string | Bytes string | Stream nat | Address sockaddr_in | Elsewhere

datatype cval = VInt ctype int | VPtr pointer

datatype slot = Scalar vtype "cval option" | Char_array nat "string option"

type_synonym vars = "string \<Rightarrow> slot option"

text \<open>Conversion to a type, modulo its size, and the usual arithmetic conversions.\<close>

fun convert :: "ctype \<Rightarrow> int \<Rightarrow> int" where
  "convert Int32 i = int32 i"
| "convert UInt32 i = i mod 2 ^ 32"
| "convert Int64 i = (i + 2 ^ 63) mod 2 ^ 64 - 2 ^ 63"
| "convert UInt64 i = i mod 2 ^ 64"

definition common :: "ctype \<Rightarrow> ctype \<Rightarrow> ctype" where
  "common a b =
     (if a = UInt64 \<or> b = UInt64 then UInt64 else if a = Int64 \<or> b = Int64 then Int64
      else if a = UInt32 \<or> b = UInt32 then UInt32 else Int32)"

lemma convert_twice [simp]: "convert ct (convert ct i) = convert ct i"
  by (cases ct) (simp_all add: int32_def mod_simps)

text \<open>\<open>errno\<close>, the open streams with their descriptors, and the functions of the monitor that a hook
  calls for their effect.\<close>

record 'm hook_env =
  he_errno :: int
  he_streams :: "nat \<Rightarrow> int option"
  he_http :: "int \<Rightarrow> int \<Rightarrow> pointer \<Rightarrow> nat \<Rightarrow> 'm \<Rightarrow> 'm res"
  he_init :: "'m \<Rightarrow> 'm res"

section \<open>Expressions\<close>

text \<open>Macros and enumerators.\<close>

definition macro :: "'m hook_env \<Rightarrow> string \<Rightarrow> cval option" where
  "macro E x =
     map_of [(''NULL'', VPtr Null), (''EOF'', VInt Int32 (- 1)), (''FD_NONE'', VInt Int32 FD_NONE),
       (''errno'', VInt Int32 (he_errno E)),
       (''FILE_READ'', VInt Int32 (int (domain_index FILE_READ))),
       (''FILE_WRITE'', VInt Int32 (int (domain_index FILE_WRITE)))] x"

definition truth :: "cval \<Rightarrow> bool" where
  "truth v = (case v of VInt ct i \<Rightarrow> i \<noteq> 0 | VPtr p \<Rightarrow> p \<noteq> Null)"

definition of_truth :: "bool \<Rightarrow> cval" where
  "of_truth b = VInt Int32 (if b then 1 else 0)"

text \<open>A pointer is compared with \<open>NULL\<close> only, and unsigned numbers only are multiplied.\<close>

fun binop_value :: "binop \<Rightarrow> cval \<Rightarrow> cval \<Rightarrow> cval res" where
  "binop_value op (VInt a i) (VInt b j) =
     (let ct = common a b; i' = convert ct i; j' = convert ct j
      in case op of
           Equal \<Rightarrow> Inr (of_truth (i' = j'))
         | Unequal \<Rightarrow> Inr (of_truth (i' \<noteq> j'))
         | Less \<Rightarrow> Inr (of_truth (i' < j'))
         | Times \<Rightarrow> if ct = UInt64 \<or> ct = UInt32 then Inr (VInt ct (convert ct (i' * j'))) else Inl IllFormed)"
| "binop_value op (VPtr p) (VPtr Null) =
     (case op of
        Equal \<Rightarrow> Inr (of_truth (p = Null))
      | Unequal \<Rightarrow> Inr (of_truth (p \<noteq> Null))
      | _ \<Rightarrow> Inl IllFormed)"
| "binop_value op _ _ = Inl IllFormed"

text \<open>\<open>fileno\<close> and \<open>dirfd\<close>.\<close>

fun stream_fd :: "'m hook_env \<Rightarrow> cval \<Rightarrow> cval res" where
  "stream_fd E (VPtr (Stream h)) =
     (case he_streams E h of None \<Rightarrow> Inl UseAfterFree | Some fd \<Rightarrow> Inr (VInt Int32 fd))"
| "stream_fd E (VPtr Null) = Inl NullDeref"
| "stream_fd E _ = Inl IllFormed"

fun eval :: "'m hook_env \<Rightarrow> vars \<Rightarrow> cexp \<Rightarrow> cval res" where
  "eval E \<sigma> (Var x) =
     (case macro E x of
        Some v \<Rightarrow> Inr v
      | None \<Rightarrow>
          (case \<sigma> x of
             Some (Scalar \<tau> (Some v)) \<Rightarrow> Inr v
           | Some (Scalar \<tau> None) \<Rightarrow> Inl UninitRead
           | _ \<Rightarrow> Inl IllFormed))"
| "eval E \<sigma> (Const i) = Inr (VInt Int32 i)"
| "eval E \<sigma> (Text s) = Inl IllFormed"
| "eval E \<sigma> (Not a) = bindR (eval E \<sigma> a) (\<lambda>v. Inr (of_truth (\<not> truth v)))"
| "eval E \<sigma> (Bin op a b) = bindR (eval E \<sigma> a) (\<lambda>v. bindR (eval E \<sigma> b) (binop_value op v))"
| "eval E \<sigma> (Call f as) =
     (if f = ''fileno'' \<or> f = ''dirfd''
      then case as of [a] \<Rightarrow> bindR (eval E \<sigma> a) (stream_fd E) | _ \<Rightarrow> Inl IllFormed
      else Inl IllFormed)"

text \<open>An argument or an initial value of type \<open>ct\<close>, and the pointers the monitor's functions read.\<close>

fun int_of :: "ctype \<Rightarrow> cval \<Rightarrow> int res" where
  "int_of ct (VInt ct' i) = Inr (convert ct i)"
| "int_of ct (VPtr p) = Inl IllFormed"

fun pointer_of :: "cval \<Rightarrow> pointer res" where
  "pointer_of (VPtr p) = Inr p"
| "pointer_of (VInt ct i) = Inl IllFormed"

fun address_of :: "cval \<Rightarrow> sockaddr_in res" where
  "address_of (VPtr (Address ai)) = Inr ai"
| "address_of (VPtr Null) = Inl NullDeref"
| "address_of _ = Inl IllFormed"

definition eval_int :: "'m hook_env \<Rightarrow> vars \<Rightarrow> ctype \<Rightarrow> cexp \<Rightarrow> int res" where
  "eval_int E \<sigma> ct a = bindR (eval E \<sigma> a) (int_of ct)"

section \<open>Statements\<close>

definition set_array :: "string \<Rightarrow> string \<Rightarrow> vars \<Rightarrow> vars res" where
  "set_array x s \<sigma> =
     (case \<sigma> x of
        Some (Char_array n old) \<Rightarrow> bindR (sprintf_arr n s) (\<lambda>s. Inr (\<sigma>(x \<mapsto> Char_array n (Some s))))
      | _ \<Rightarrow> Inl IllFormed)"

definition call_http :: "'m hook_env \<Rightarrow> cexp list \<Rightarrow> vars \<times> 'm \<Rightarrow> (vars \<times> 'm) res" where
  "call_http E as = (\<lambda>(\<sigma>, m).
     if length as \<noteq> 6 \<or> drop 4 as \<noteq> [Call ''TIME_BEFORE'' [], Call ''TIME_AFTER'' []] then Inl IllFormed
     else bindR (eval_int E \<sigma> Int32 (as ! 0)) (\<lambda>d.
       bindR (eval_int E \<sigma> Int32 (as ! 1)) (\<lambda>f.
       bindR (bindR (eval E \<sigma> (as ! 2)) pointer_of) (\<lambda>p.
       bindR (eval_int E \<sigma> UInt64 (as ! 3)) (\<lambda>c.
       bindR (he_http E d f p (nat c) m) (\<lambda>m'. Inr (\<sigma>, m')))))))"

text \<open>\<open>real_ip\<close> leaves the array as it is for an address of another family.\<close>

fun call_real_ip :: "'m hook_env \<Rightarrow> cexp list \<Rightarrow> vars \<Rightarrow> vars res" where
  "call_real_ip E [a, Var x] \<sigma> =
     bindR (bindR (eval E \<sigma> a) address_of) (\<lambda>ai.
       case real_ip ai of None \<Rightarrow> Inr \<sigma> | Some ip \<Rightarrow> set_array x ip \<sigma>)"
| "call_real_ip E _ \<sigma> = Inl IllFormed"

fun call_sprintf :: "'m hook_env \<Rightarrow> cexp list \<Rightarrow> vars \<Rightarrow> vars res" where
  "call_sprintf E [Var x, Text fmt, a] \<sigma> =
     (if fmt = ''%d'' then bindR (eval_int E \<sigma> Int32 a) (\<lambda>i. set_array x (show_int i) \<sigma>)
      else Inl IllFormed)"
| "call_sprintf E _ \<sigma> = Inl IllFormed"

text \<open>The end of a block: its own variables are gone. A branch of an \<open>if\<close> is a block too.\<close>

definition leave :: "vars \<Rightarrow> vars \<times> 'm \<Rightarrow> vars \<times> 'm" where
  "leave \<sigma> = (\<lambda>(\<sigma>', m). (\<lambda>x. if \<sigma> x = None then None else \<sigma>' x, m))"

fun exec :: "'m hook_env \<Rightarrow> stmt \<Rightarrow> vars \<times> 'm \<Rightarrow> (vars \<times> 'm) res"
and exec_list :: "'m hook_env \<Rightarrow> stmt list \<Rightarrow> vars \<times> 'm \<Rightarrow> (vars \<times> 'm) res" where
  "exec E (Declare ty x ini) (\<sigma>, m) =
     (if ty \<noteq> ''int'' \<or> \<sigma> x \<noteq> None \<or> macro E x \<noteq> None then Inl IllFormed
      else case ini of
        None \<Rightarrow> Inr (\<sigma>(x \<mapsto> Scalar (Arith Int32) None), m)
      | Some a \<Rightarrow> bindR (eval_int E \<sigma> Int32 a) (\<lambda>i.
          Inr (\<sigma>(x \<mapsto> Scalar (Arith Int32) (Some (VInt Int32 i))), m)))"
| "exec E (Declare_array ty x n ini) (\<sigma>, m) =
     (if ty \<noteq> ''char'' \<or> \<sigma> x \<noteq> None \<or> macro E x \<noteq> None \<or> (case ini of None \<Rightarrow> False | Some s \<Rightarrow> n \<le> length s)
      then Inl IllFormed
      else Inr (\<sigma>(x \<mapsto> Char_array n ini), m))"
| "exec E (Assign x a) (\<sigma>, m) =
     (case \<sigma> x of
        Some (Scalar (Arith ct) old) \<Rightarrow> bindR (eval_int E \<sigma> ct a) (\<lambda>i.
          Inr (\<sigma>(x \<mapsto> Scalar (Arith ct) (Some (VInt ct i))), m))
      | _ \<Rightarrow> Inl IllFormed)"
| "exec E (Do a) (\<sigma>, m) =
     (case a of
        Call f as \<Rightarrow>
          if f = ''check_for_http'' then call_http E as (\<sigma>, m)
          else if f = ''init'' \<and> as = [] then bindR (he_init E m) (\<lambda>m'. Inr (\<sigma>, m'))
          else if f = ''real_ip'' then bindR (call_real_ip E as \<sigma>) (\<lambda>\<sigma>'. Inr (\<sigma>', m))
          else if f = ''sprintf'' then bindR (call_sprintf E as \<sigma>) (\<lambda>\<sigma>'. Inr (\<sigma>', m))
          else Inl IllFormed
      | _ \<Rightarrow> Inl IllFormed)"
| "exec E (If c s1 s2) (\<sigma>, m) =
     bindR (eval E \<sigma> c) (\<lambda>v.
       if truth v then bindR (exec E s1 (\<sigma>, m)) (\<lambda>r. Inr (leave \<sigma> r))
       else case s2 of None \<Rightarrow> Inr (\<sigma>, m) | Some s \<Rightarrow> bindR (exec E s (\<sigma>, m)) (\<lambda>r. Inr (leave \<sigma> r)))"
| "exec E (Block ss) (\<sigma>, m) =
     bindR (exec_list E ss (\<sigma>, m)) (\<lambda>r. Inr (leave \<sigma> r))"
| "exec_list E [] (\<sigma>, m) = Inr (\<sigma>, m)"
| "exec_list E (s # ss) (\<sigma>, m) = bindR (exec E s (\<sigma>, m)) (exec_list E ss)"

end
