(* ===== verification/Hook_Typing.thy ===== *)
theory Hook_Typing
imports Hook_Run
begin

text \<open>
  The typing rules of C for the hooks, and that they are enough: a hook that passes the check never
  reaches a construct the compiler would have rejected, and leaves variables of their types.
\<close>

section \<open>Typing\<close>

type_synonym typing = "string \<Rightarrow> vtype option"

definition macro_type :: "string \<Rightarrow> vtype option" where
  "macro_type x =
     map_of [(''NULL'', Ptr Other_ptr), (''EOF'', Arith Int32), (''FD_NONE'', Arith Int32),
       (''errno'', Arith Int32), (''FILE_READ'', Arith Int32), (''FILE_WRITE'', Arith Int32)] x"

definition is_unsigned :: "ctype \<Rightarrow> bool" where
  "is_unsigned ct \<longleftrightarrow> ct = UInt32 \<or> ct = UInt64"

definition is_null :: "cexp \<Rightarrow> bool" where
  "is_null a \<longleftrightarrow> a = Var ''NULL''"

fun type_of :: "typing \<Rightarrow> cexp \<Rightarrow> vtype option" where
  "type_of \<Gamma> (Var x) =
     (case macro_type x of
        Some \<tau> \<Rightarrow> Some \<tau>
      | None \<Rightarrow> (case \<Gamma> x of Some (Chars n) \<Rightarrow> None | r \<Rightarrow> r))"
| "type_of \<Gamma> (Const i) = (if convert Int32 i = i then Some (Arith Int32) else None)"
| "type_of \<Gamma> (Text s) = None"
| "type_of \<Gamma> (Not a) = (case type_of \<Gamma> a of None \<Rightarrow> None | Some \<tau> \<Rightarrow> Some (Arith Int32))"
| "type_of \<Gamma> (Bin op a b) =
     (case (type_of \<Gamma> a, type_of \<Gamma> b) of
        (Some (Arith s), Some (Arith t)) \<Rightarrow>
          if op = Times then if is_unsigned (common s t) then Some (Arith (common s t)) else None
          else Some (Arith Int32)
      | (Some (Ptr k), Some (Ptr l)) \<Rightarrow>
          if (op = Equal \<or> op = Unequal) \<and> is_null b then Some (Arith Int32) else None
      | _ \<Rightarrow> None)"
| "type_of \<Gamma> (Call f as) =
     (case as of
        [a] \<Rightarrow> if f = ''fileno'' \<and> type_of \<Gamma> a = Some (Ptr File_ptr) \<or>
                  f = ''dirfd'' \<and> type_of \<Gamma> a = Some (Ptr Dir_ptr) then Some (Arith Int32) else None
      | _ \<Rightarrow> None)"

definition int_typed :: "typing \<Rightarrow> cexp \<Rightarrow> bool" where
  "int_typed \<Gamma> a \<longleftrightarrow> (case type_of \<Gamma> a of Some (Arith ct) \<Rightarrow> True | _ \<Rightarrow> False)"

definition array_typed :: "typing \<Rightarrow> cexp \<Rightarrow> bool" where
  "array_typed \<Gamma> a \<longleftrightarrow> (case a of Var x \<Rightarrow> (case \<Gamma> x of Some (Chars n) \<Rightarrow> True | _ \<Rightarrow> False) | _ \<Rightarrow> False)"

definition call_typed :: "typing \<Rightarrow> string \<Rightarrow> cexp list \<Rightarrow> bool" where
  "call_typed \<Gamma> f as \<longleftrightarrow>
     (if f = ''check_for_http''
      then case as of
        [dm, fd, buf, count, before, after] \<Rightarrow>
          int_typed \<Gamma> dm \<and> int_typed \<Gamma> fd \<and> type_of \<Gamma> buf = Some (Ptr Other_ptr) \<and> int_typed \<Gamma> count \<and>
          before = Call ''TIME_BEFORE'' [] \<and> after = Call ''TIME_AFTER'' []
      | _ \<Rightarrow> False
      else if f = ''init'' then as = []
      else if f = ''real_ip''
      then case as of [a, x] \<Rightarrow> type_of \<Gamma> a = Some (Ptr Sockaddr_ptr) \<and> array_typed \<Gamma> x | _ \<Rightarrow> False
      else if f = ''sprintf''
      then case as of [x, fmt, a] \<Rightarrow> array_typed \<Gamma> x \<and> fmt = Text ''%d'' \<and> int_typed \<Gamma> a | _ \<Rightarrow> False
      else False)"

fun check :: "typing \<Rightarrow> stmt \<Rightarrow> typing option"
and check_list :: "typing \<Rightarrow> stmt list \<Rightarrow> typing option" where
  "check \<Gamma> (Declare ty x ini) =
     (if ty = ''int'' \<and> \<Gamma> x = None \<and> macro_type x = None \<and> (case ini of None \<Rightarrow> True | Some a \<Rightarrow> int_typed \<Gamma> a)
      then Some (\<Gamma>(x \<mapsto> Arith Int32)) else None)"
| "check \<Gamma> (Declare_array ty x n ini) =
     (if ty = ''char'' \<and> \<Gamma> x = None \<and> macro_type x = None \<and> (case ini of None \<Rightarrow> True | Some s \<Rightarrow> length s < n)
      then Some (\<Gamma>(x \<mapsto> Chars n)) else None)"
| "check \<Gamma> (Assign x a) =
     (case \<Gamma> x of Some (Arith ct) \<Rightarrow> if int_typed \<Gamma> a then Some \<Gamma> else None | _ \<Rightarrow> None)"
| "check \<Gamma> (Do a) = (case a of Call f as \<Rightarrow> if call_typed \<Gamma> f as then Some \<Gamma> else None | _ \<Rightarrow> None)"
| "check \<Gamma> (If c s1 s2) =
     (if type_of \<Gamma> c = None \<or> check \<Gamma> s1 = None then None
      else case s2 of None \<Rightarrow> Some \<Gamma> | Some s \<Rightarrow> if check \<Gamma> s = None then None else Some \<Gamma>)"
| "check \<Gamma> (Block ss) = (if check_list \<Gamma> ss = None then None else Some \<Gamma>)"
| "check_list \<Gamma> [] = Some \<Gamma>"
| "check_list \<Gamma> (s # ss) = (case check \<Gamma> s of None \<Rightarrow> None | Some \<Gamma>' \<Rightarrow> check_list \<Gamma>' ss)"

section \<open>Soundness\<close>

fun ptr_ok :: "pointer_kind \<Rightarrow> pointer \<Rightarrow> bool" where
  "ptr_ok k Null \<longleftrightarrow> True"
| "ptr_ok k (String s) \<longleftrightarrow> k = Char_ptr"
| "ptr_ok k (Stream h) \<longleftrightarrow> k = File_ptr \<or> k = Dir_ptr"
| "ptr_ok k (Address a) \<longleftrightarrow> k = Sockaddr_ptr"
| "ptr_ok k (Bytes s) \<longleftrightarrow> k = Other_ptr"
| "ptr_ok k Elsewhere \<longleftrightarrow> k = Other_ptr"

fun val_ok :: "vtype \<Rightarrow> cval \<Rightarrow> bool" where
  "val_ok (Arith ct) (VInt ct' i) \<longleftrightarrow> ct' = ct \<and> convert ct i = i"
| "val_ok (Ptr k) (VPtr p) \<longleftrightarrow> ptr_ok k p"
| "val_ok _ _ \<longleftrightarrow> False"

fun slot_ok :: "vtype \<Rightarrow> slot \<Rightarrow> bool" where
  "slot_ok (Chars n) (Char_array n' s) \<longleftrightarrow> n' = n \<and> pred_option (\<lambda>s. length s < n) s"
| "slot_ok (Chars n) _ \<longleftrightarrow> False"
| "slot_ok \<tau> (Scalar \<tau>' v) \<longleftrightarrow> \<tau>' = \<tau> \<and> pred_option (val_ok \<tau>) v"
| "slot_ok \<tau> _ \<longleftrightarrow> False"

definition conforms :: "typing \<Rightarrow> vars \<Rightarrow> bool" where
  "conforms \<Gamma> \<sigma> \<longleftrightarrow> (\<forall>x. rel_option slot_ok (\<Gamma> x) (\<sigma> x))"

definition env_ok :: "'m hook_env \<Rightarrow> bool" where
  "env_ok E \<longleftrightarrow> convert Int32 (he_errno E) = he_errno E \<and>
     (\<forall>h fd. he_streams E h = Some fd \<longrightarrow> convert Int32 fd = fd) \<and>
     (\<forall>d f p n m. he_http E d f p n m \<noteq> Inl IllFormed) \<and> (\<forall>m. he_init E m \<noteq> Inl IllFormed)"

text \<open>A result the compiler has not rejected, and of which \<open>P\<close> holds if there is one.\<close>

definition sound :: "('a \<Rightarrow> bool) \<Rightarrow> 'a res \<Rightarrow> bool" where
  "sound P r \<longleftrightarrow> (case r of Inl u \<Rightarrow> u \<noteq> IllFormed | Inr x \<Rightarrow> P x)"

lemma sound_simps [simp]: "sound P (Inr x) \<longleftrightarrow> P x" "sound P (Inl u) \<longleftrightarrow> u \<noteq> IllFormed"
  by (simp_all add: sound_def)

lemma sound_bind: "sound Q r \<Longrightarrow> (\<And>x. Q x \<Longrightarrow> sound P (f x)) \<Longrightarrow> sound P (bindR r f)"
  by (cases r) auto

lemma sound_call: "r \<noteq> Inl IllFormed \<Longrightarrow> sound (\<lambda>_. True) r"
  by (cases r) auto

lemma conforms_var:
  assumes "conforms \<Gamma> \<sigma>" "\<Gamma> x = Some \<tau>"
  obtains sl where "\<sigma> x = Some sl" "slot_ok \<tau> sl"
  using assms unfolding conforms_def by (metis option_rel_Some1)

lemma conforms_upd: "conforms \<Gamma> \<sigma> \<Longrightarrow> slot_ok \<tau> sl \<Longrightarrow> conforms (\<Gamma>(x \<mapsto> \<tau>)) (\<sigma>(x \<mapsto> sl))"
  by (simp add: conforms_def)

lemma conforms_set: "conforms \<Gamma> \<sigma> \<Longrightarrow> \<Gamma> x = Some \<tau> \<Longrightarrow> slot_ok \<tau> sl \<Longrightarrow> conforms \<Gamma> (\<sigma>(x \<mapsto> sl))"
  by (simp add: conforms_def)

lemma conforms_fresh: "conforms \<Gamma> \<sigma> \<Longrightarrow> \<Gamma> x = None \<longleftrightarrow> \<sigma> x = None"
  unfolding conforms_def by (metis option.rel_distinct option.exhaust)

lemma macro_cases: "macro_type x = None \<longleftrightarrow> macro E x = None"
  by (simp add: macro_def macro_type_def)

lemma macro_ok: "macro_type x = Some \<tau> \<Longrightarrow> env_ok E \<Longrightarrow> \<exists>v. macro E x = Some v \<and> val_ok \<tau> v"
  by (auto simp: macro_def macro_type_def env_ok_def FD_NONE_def int32_def split: if_splits)

lemma truth_ok [simp]: "val_ok (Arith Int32) (of_truth b)"
  by (simp add: of_truth_def int32_def)

lemma binop_sound:
  assumes "val_ok (Arith s) v" "val_ok (Arith t) w" "op = Times \<Longrightarrow> is_unsigned (common s t)"
  shows "sound (val_ok (Arith (if op = Times then common s t else Int32))) (binop_value op v w)"
  using assms by (cases v; cases w; cases op) (auto simp: Let_def is_unsigned_def)

lemma eval_sound:
  assumes "type_of \<Gamma> a = Some \<tau>" "conforms \<Gamma> \<sigma>" "env_ok E"
  shows "sound (val_ok \<tau>) (eval E \<sigma> a)"
  using assms
proof (induction a arbitrary: \<tau>)
  case (Var x)
  show ?case
  proof (cases "macro_type x")
    case None
    then have "macro E x = None" using macro_cases by metis
    moreover have "\<Gamma> x = Some \<tau>" "\<And>n. \<tau> \<noteq> Chars n" using Var(1) None by (auto split: option.splits vtype.splits)
    moreover from this(1) obtain sl where "\<sigma> x = Some sl" "slot_ok \<tau> sl" using conforms_var Var(2) by metis
    ultimately show ?thesis by (cases \<tau>; cases sl) (auto split: option.splits)
  next
    case (Some \<tau>')
    with Var macro_ok [OF Some Var(3)] show ?thesis by auto
  qed
next
  case (Not a)
  then obtain \<tau>' where t: "type_of \<Gamma> a = Some \<tau>'" "\<tau> = Arith Int32" by (auto split: option.splits)
  show ?case by (auto simp: t(2) intro!: sound_bind [OF Not.IH [OF t(1) Not.prems(2,3)]])
next
  case (Bin op a b)
  from Bin.prems(1) consider
      (ints) s t where "type_of \<Gamma> a = Some (Arith s)" "type_of \<Gamma> b = Some (Arith t)"
        "op = Times \<Longrightarrow> is_unsigned (common s t)" "\<tau> = Arith (if op = Times then common s t else Int32)"
    | (ptrs) k where "type_of \<Gamma> a = Some (Ptr k)" "op = Equal \<or> op = Unequal" "is_null b" "\<tau> = Arith Int32"
    by (auto split: option.splits vtype.splits if_splits)
  then show ?case
  proof cases
    case ints
    with Bin have ab: "sound (val_ok (Arith s)) (eval E \<sigma> a)" "sound (val_ok (Arith t)) (eval E \<sigma> b)" by simp_all
    show ?thesis unfolding ints(4) eval.simps
      by (rule sound_bind [OF ab(1)], rule sound_bind [OF ab(2)], rule binop_sound [OF _ _ ints(3)])
  next
    case ptrs
    have "eval E \<sigma> b = Inr (VPtr Null)" using ptrs(3) by (simp add: is_null_def macro_def)
    moreover have e: "sound (val_ok (Ptr k)) (eval E \<sigma> a)" using Bin ptrs(1) by simp
    moreover have "sound (val_ok (Arith Int32)) (binop_value op v (VPtr Null))" if "val_ok (Ptr k) v" for v
      using that ptrs(2) by (cases v) auto
    ultimately show ?thesis unfolding ptrs(4) by (auto intro!: sound_bind [OF e])
  qed
next
  case (Call f as)
  then obtain a k where a: "as = [a]" "type_of \<Gamma> a = Some (Ptr k)" "k = File_ptr \<or> k = Dir_ptr"
      "f = ''fileno'' \<or> f = ''dirfd''" "\<tau> = Arith Int32"
    by (auto split: list.splits if_splits)
  then have e: "sound (val_ok (Ptr k)) (eval E \<sigma> a)" using Call by simp
  have "sound (val_ok (Arith Int32)) (stream_fd E v)" if "val_ok (Ptr k) v" for v
    using that Call.prems(3) a(3) by (cases "(E, v)" rule: stream_fd.cases) (auto simp: env_ok_def split: option.splits)
  with a show ?case by (auto intro!: sound_bind [OF e])
qed (auto split: option.splits if_splits)

lemma eval_int_sound:
  assumes "int_typed \<Gamma> a" "conforms \<Gamma> \<sigma>" "env_ok E"
  shows "sound (\<lambda>i. convert ct i = i) (eval_int E \<sigma> ct a)"
proof -
  obtain ct' where "type_of \<Gamma> a = Some (Arith ct')"
    using assms(1) by (auto simp: int_typed_def split: option.splits vtype.splits)
  moreover have "sound (\<lambda>i. convert ct i = i) (int_of ct v)" if "val_ok (Arith ct') v" for v
    using that by (cases v) simp_all
  ultimately show ?thesis
    unfolding eval_int_def using sound_bind [OF eval_sound [OF _ assms(2,3)]] by blast
qed

lemma set_array_sound:
  assumes "conforms \<Gamma> \<sigma>" "\<Gamma> x = Some (Chars n)"
  shows "sound (conforms \<Gamma>) (set_array x s \<sigma>)"
proof -
  obtain t where "\<sigma> x = Some (Char_array n t)"
    by (rule conforms_var [OF assms]) (metis slot.exhaust slot_ok.simps(1,2))
  then show ?thesis using conforms_set [OF assms(1,2)] by (simp add: set_array_def sprintf_arr_def)
qed

lemma call_sound:
  assumes "call_typed \<Gamma> f as" "conforms \<Gamma> \<sigma>" "env_ok E"
  shows "sound (\<lambda>(\<sigma>', m'). conforms \<Gamma> \<sigma>') (exec E (Do (Call f as)) (\<sigma>, m))"
proof -
  note ints = eval_int_sound [OF _ assms(2,3)]
  consider (http) dm fd buf count where "f = ''check_for_http''" "int_typed \<Gamma> dm" "int_typed \<Gamma> fd"
      "type_of \<Gamma> buf = Some (Ptr Other_ptr)" "int_typed \<Gamma> count"
      "as = [dm, fd, buf, count, Call ''TIME_BEFORE'' [], Call ''TIME_AFTER'' []]"
    | (start) "f = ''init''" "as = []"
    | (ip) a x n where "f = ''real_ip''" "as = [a, Var x]" "type_of \<Gamma> a = Some (Ptr Sockaddr_ptr)" "\<Gamma> x = Some (Chars n)"
    | (print) x a n where "f = ''sprintf''" "as = [Var x, Text ''%d'', a]" "\<Gamma> x = Some (Chars n)" "int_typed \<Gamma> a"
    using assms(1) by (auto simp: call_typed_def array_typed_def split: list.splits if_splits cexp.splits option.splits vtype.splits)
  then show ?thesis
  proof cases
    case http
    have p: "sound (\<lambda>_. True) (bindR (eval E \<sigma> buf) pointer_of)"
      by (rule sound_bind [OF eval_sound [OF http(4) assms(2,3)]]) (auto elim!: val_ok.elims)
    have "sound (\<lambda>(\<sigma>', m'). conforms \<Gamma> \<sigma>') (bindR (he_http E d g q c m) (\<lambda>m'. Inr (\<sigma>, m')))" for d g q c
      by (rule sound_bind [OF sound_call]) (use assms in \<open>auto simp: env_ok_def\<close>)
    then show ?thesis using http assms(2)
      by (auto simp: call_http_def eval_nat_numeral split: cval.splits intro!: sound_bind [OF ints] sound_bind [OF p])
  next
    case start
    have "sound (\<lambda>_. True) (he_init E m)" using assms(3) by (intro sound_call) (simp add: env_ok_def)
    from start assms(2) show ?thesis by (auto intro!: sound_bind [OF \<open>sound (\<lambda>_. True) (he_init E m)\<close>])
  next
    case ip
    have e: "sound (\<lambda>_. True) (bindR (eval E \<sigma> a) address_of)"
      by (rule sound_bind [OF eval_sound [OF ip(3) assms(2,3)]]) (auto elim!: val_ok.elims ptr_ok.elims)
    have r: "sound (conforms \<Gamma>) (call_real_ip E as \<sigma>)" unfolding ip(2) call_real_ip.simps
      by (rule sound_bind [OF e]) (use assms(2) set_array_sound [OF assms(2) ip(4)] in \<open>auto split: option.splits\<close>)
    show ?thesis using ip(1) by (auto intro!: sound_bind [OF r])
  next
    case print
    have r: "sound (conforms \<Gamma>) (call_sprintf E as \<sigma>)"
      using set_array_sound [OF assms(2) print(3)]
      by (auto simp: print(2) intro!: sound_bind [OF ints [OF print(4)]])
    show ?thesis using print(1) by (auto intro!: sound_bind [OF r])
  qed
qed

text \<open>A statement adds variables, and no block keeps any.\<close>

lemma check_extends:
  "check \<Gamma> s = Some \<Gamma>' \<Longrightarrow> \<Gamma> \<subseteq>\<^sub>m \<Gamma>'"
  by (cases s) (auto simp: map_le_def split: option.splits if_splits vtype.splits cexp.splits)

lemma check_list_extends: "check_list \<Gamma> ss = Some \<Gamma>' \<Longrightarrow> \<Gamma> \<subseteq>\<^sub>m \<Gamma>'"
  by (induction ss arbitrary: \<Gamma>) (auto split: option.splits intro: map_le_trans dest!: check_extends)

lemma leave_sound:
  assumes "conforms \<Gamma> \<sigma>" "\<Gamma> \<subseteq>\<^sub>m \<Gamma>'" "sound (\<lambda>(\<sigma>', m'). conforms \<Gamma>' \<sigma>') r"
  shows "sound (\<lambda>(\<sigma>', m'). conforms \<Gamma> \<sigma>') (bindR r (\<lambda>r. Inr (leave \<sigma> r)))"
proof (rule sound_bind [OF assms(3)])
  fix r :: "vars \<times> 'a"
  assume "case r of (\<sigma>', m') \<Rightarrow> conforms \<Gamma>' \<sigma>'"
  then have r: "conforms \<Gamma>' (fst r)" by (simp add: case_prod_beta)
  have "rel_option slot_ok (\<Gamma> x) (if \<sigma> x = None then None else fst r x)" for x
  proof (cases "\<Gamma> x")
    case None
    then show ?thesis using conforms_fresh [OF assms(1), of x] by simp
  next
    case (Some \<tau>)
    then have "\<Gamma>' x = Some \<tau>" using assms(2) by (metis domI map_le_def)
    then show ?thesis using r conforms_fresh [OF assms(1), of x] Some unfolding conforms_def by (metis option.distinct(1))
  qed
  then show "sound (\<lambda>(\<sigma>', m'). conforms \<Gamma> \<sigma>') (Inr (leave \<sigma> r))"
    by (simp add: conforms_def leave_def case_prod_beta)
qed

theorem exec_sound:
  "check \<Gamma> s = Some \<Gamma>' \<Longrightarrow> conforms \<Gamma> \<sigma> \<Longrightarrow> env_ok E \<Longrightarrow>
     sound (\<lambda>(\<sigma>', m'). conforms \<Gamma>' \<sigma>') (exec E s (\<sigma>, m))"
  "check_list \<Gamma> ss = Some \<Gamma>' \<Longrightarrow> conforms \<Gamma> \<sigma> \<Longrightarrow> env_ok E \<Longrightarrow>
     sound (\<lambda>(\<sigma>', m'). conforms \<Gamma>' \<sigma>') (exec_list E ss (\<sigma>, m))"
proof (induction E s "(\<sigma>, m)" and E ss "(\<sigma>, m)" arbitrary: \<Gamma> \<Gamma>' \<sigma> m and \<Gamma> \<Gamma>' \<sigma> m rule: exec_exec_list.induct)
  case (1 E ty x ini \<sigma> m)
  then have fresh: "ty = ''int''" "\<sigma> x = None" "macro E x = None" and g: "\<Gamma>' = \<Gamma>(x \<mapsto> Arith Int32)"
    using conforms_fresh macro_cases [of x E] by (auto split: if_splits)
  show ?case
  proof (cases ini)
    case None
    with 1 fresh g show ?thesis by (auto intro!: conforms_upd)
  next
    case (Some a)
    with 1 have i: "sound (\<lambda>i. convert Int32 i = i) (eval_int E \<sigma> Int32 a)"
      by (intro eval_int_sound) (auto split: if_splits)
    show ?thesis using fresh g Some 1(2) by (auto intro!: sound_bind [OF i] conforms_upd)
  qed
next
  case (2 E ty x n ini \<sigma> m)
  then show ?case using conforms_fresh [of \<Gamma> \<sigma> x] macro_cases [of x E]
    by (auto intro!: conforms_upd split: if_splits option.splits)
next
  case (3 E x a \<sigma> m)
  then obtain ct where x: "\<Gamma> x = Some (Arith ct)" "\<Gamma>' = \<Gamma>" "int_typed \<Gamma> a"
    by (auto split: option.splits vtype.splits if_splits)
  obtain v where "\<sigma> x = Some (Scalar (Arith ct) v)"
    by (rule conforms_var [OF 3(2) x(1)]) (metis slot.exhaust slot_ok.simps(3,5))
  with 3(2) x show ?case by (auto intro!: sound_bind [OF eval_int_sound [OF x(3) 3(2,3)]] conforms_set)
next
  case (4 E a \<sigma> m)
  then obtain f as where "a = Call f as" "call_typed \<Gamma> f as" "\<Gamma>' = \<Gamma>"
    by (auto split: cexp.splits if_splits)
  with call_sound [OF this(2) 4(2,3)] show ?case by blast
next
  case (5 E c s1 s2 \<sigma> m)
  then obtain \<Gamma>1 \<tau> where c: "type_of \<Gamma> c = Some \<tau>" "check \<Gamma> s1 = Some \<Gamma>1" "\<Gamma>' = \<Gamma>"
      "pred_option (\<lambda>s. check \<Gamma> s \<noteq> None) s2"
    by (auto split: if_splits option.splits)
  show ?case
  proof (cases "eval E \<sigma> c")
    case (Inl u)
    then show ?thesis using eval_sound [OF c(1) "5.prems"(2,3)] by simp
  next
    case (Inr v)
    have "sound (\<lambda>(\<sigma>', m'). conforms \<Gamma> \<sigma>') (bindR (exec E s1 (\<sigma>, m)) (\<lambda>r. Inr (leave \<sigma> r)))" if "truth v"
      by (rule leave_sound [OF "5.prems"(2) check_extends [OF c(2)]]) (rule "5.hyps"(1) [OF Inr that c(2) "5.prems"(2,3)])
    moreover have "sound (\<lambda>(\<sigma>', m'). conforms \<Gamma> \<sigma>') (bindR (exec E s (\<sigma>, m)) (\<lambda>r. Inr (leave \<sigma> r)))"
      if "\<not> truth v" "s2 = Some s" for s
    proof -
      have "check \<Gamma> s \<noteq> None" using c(4) that(2) by simp
      then obtain \<Gamma>2 where s: "check \<Gamma> s = Some \<Gamma>2" by blast
      show ?thesis
        by (rule leave_sound [OF "5.prems"(2) check_extends [OF s]]) (rule "5.hyps"(2) [OF Inr that s "5.prems"(2,3)])
    qed
    ultimately show ?thesis using "5.prems"(2) by (cases s2) (simp_all add: c(3) Inr)
  qed
next
  case (6 E ss \<sigma> m)
  have "check_list \<Gamma> ss \<noteq> None" and e: "\<Gamma>' = \<Gamma>" using "6.prems"(1) by (simp_all split: if_splits)
  then obtain \<Gamma>1 where g: "check_list \<Gamma> ss = Some \<Gamma>1" by blast
  show ?case unfolding exec.simps e
    by (rule leave_sound [OF "6.prems"(2) check_list_extends [OF g]]) (rule "6.hyps" [OF g "6.prems"(2,3)])
next
  case (7 E \<sigma> m)
  then show ?case by simp
next
  case (8 E s ss \<sigma> m)
  from "8.prems"(1) obtain \<Gamma>1 where g: "check \<Gamma> s = Some \<Gamma>1" "check_list \<Gamma>1 ss = Some \<Gamma>'"
    by (auto split: option.splits)
  have "sound (\<lambda>(\<sigma>', m'). conforms \<Gamma>1 \<sigma>') (exec E s (\<sigma>, m))" by (rule "8.hyps"(1) [OF g(1) "8.prems"(2,3)])
  then show ?case
    using "8.hyps"(2) g(2) "8.prems"(3) by (cases "exec E s (\<sigma>, m)") auto
qed

end
