(* ===== verification/Wrapped_Calls.thy ===== *)
theory Wrapped_Calls
imports Recorder Interposer_Table
begin

text \<open>
  The meaning of a generated wrapper's call of \<open>record\<close>. The hook of a row is C text of its own; what
  the model takes from it is the scope it leaves, that is, the values of the names in it when \<open>record\<close>
  is called. The rows of the monitor's own socket calls are shown to be the ones \<open>Recorder\<close> has.
\<close>

section \<open>Names and enumerators\<close>

definition all_domains :: "domain_type list" where
  "all_domains = [LINKS, XATTRS, DIRS, FILE_SYSTEMS, FILE_DESCRIPTORS, SYNCS, SOCKETS, SEEKS, FILE_SPACE,
     PROCESSES, FILE_METADATA, FILE_WRITE, FILE_READ, FILE_OPEN_CLOSE, MISC, DIR_METADATA, START_STOP,
     HTTP, THREADS]"

definition all_ops :: "op_type list" where
  "all_ops = [OPEN, CLOSE, WRITE, READ, SYNC, SEEK, RENAME, LINK, UNLINK, FCNTL, DUP, STAT, ACCESS, CHMOD,
     CHOWN, FLOCK, READLINK, UTIME, GETXATTR, SETXATTR, LISTXATTR, REMOVEXATTR, MOUNT, UMOUNT, FORK, MKNOD,
     MKDIR, RMDIR, CHDIR, CHROOT, SOCKET, FLUSH, ALLOCATE, TRUNCATE, OPENDIR, CLOSEDIR, READDIR, SEEKDIR,
     TELLDIR, REWINDDIR, SCANDIR, CONNECT, ACCEPT, LISTEN, BIND, EXEC, KILL, START, STOP, HTTP_REQ_SEND,
     HTTP_REQ_RECV, HTTP_RESP_SEND, HTTP_RESP_RECV, HTTP_RESP_FINI_SEND, HTTP_RESP_FINI_RECV, MUTEX_LOCK,
     MUTEX_UNLOCK, MUTEX_INIT, MUTEX_DESTROY, THREAD_CREATE, COND_WAIT, COND_SIGNAL, COND_BROADCAST]"

text \<open>What a C compiler takes an enumerator's name for.\<close>

definition domain_named :: "string \<Rightarrow> domain_type option" where
  "domain_named n = find (\<lambda>d. domains_names ! domain_index d = n) all_domains"

definition op_named :: "string \<Rightarrow> op_type option" where
  "op_named n = find (\<lambda>op. ops_names ! op_index op = n) all_ops"

lemma map_domains: "map (\<lambda>d. domains_names ! domain_index d) all_domains = domains_names"
  by (simp add: all_domains_def domains_names_eq)

lemma map_ops: "map (\<lambda>op. ops_names ! op_index op) all_ops = ops_names"
  by (simp add: all_ops_def ops_names_eq)

lemma domain_named_defined: "n \<in> set domains_names \<Longrightarrow> domain_named n \<noteq> None"
  using map_domains by (auto simp: domain_named_def find_None_iff) (metis imageE list.set_map)

lemma op_named_defined: "n \<in> set ops_names \<Longrightarrow> op_named n \<noteq> None"
  using map_ops by (auto simp: op_named_def find_None_iff) (metis imageE list.set_map)

section \<open>The call of record\<close>

record scope =
  sc_int :: "string \<Rightarrow> int"
  sc_str :: "string \<Rightarrow> string option"

definition row_event :: "'w platform \<Rightarrow> row \<Rightarrow> scope \<Rightarrow> timeval \<Rightarrow> timeval \<Rightarrow> event option" where
  "row_event P r sc t0 t1 =
     (case (domain_named (echo (rw_domain r)), op_named (echo (rw_op r))) of
        (Some dm, Some op) \<Rightarrow>
          let str = (\<lambda>x. if x = ''NULL'' then None else sc_str sc x)
          in Some \<lparr>ev_dom_type = dm, ev_op_type = op,
               ev_fd = (if recorded_fd r = ''fd'' then sc_int sc ''fd'' else FD_NONE),
               ev_s1 = str (echo (rw_s1 r)), ev_s2 = str (echo (rw_s2 r)),
               ev_start_time = t0, ev_end_time = t1, ev_error_code = sc_int sc ''error_code'',
               ev_bytes_transferred =
                 (if recorded_count r = ''count'' then word_of_int (sc_int sc ''count'') else ZERO_BYTES P)\<rparr>
      | _ \<Rightarrow> None)"

text \<open>A row by its position among those of its part of the file.\<close>

definition fopen_row :: row where "fopen_row = rows_of file_calls ! 2"
definition open_row :: row where "open_row = rows_of file_calls ! 0"
definition fclose_row :: row where "fclose_row = rows_of file_calls ! 6"
definition close_row :: row where "close_row = rows_of file_calls ! 7"
definition read_row :: row where "read_row = rows_of read_calls ! 0"
definition write_row :: row where "write_row = rows_of write_calls ! 0"
definition connect_row :: row where "connect_row = rows_of socket_calls ! 0"
definition socket_row :: row where "socket_row = rows_of socket_calls ! 1"

lemma file_rows:
  "map (\<lambda>r. (rw_name r, echo (rw_s1 r), echo (rw_s2 r))) (rows_of file_calls) =
    [(''open'', ''pathname'', ''NULL''), (''open64'', ''pathname'', ''NULL''), (''fopen'', ''path'', ''mode''),
     (''fopen64'', ''path'', ''mode''), (''creat'', ''pathname'', ''NULL''), (''creat64'', ''pathname'', ''NULL''),
     (''fclose'', ''NULL'', ''NULL''), (''close'', ''NULL'', ''NULL'')]"
  by code_simp

lemma io_rows:
  "map (\<lambda>r. (rw_name r, echo (rw_s1 r), echo (rw_s2 r))) [read_row, write_row] =
    [(''read'', ''NULL'', ''NULL''), (''write'', ''NULL'', ''NULL'')]"
  by code_simp

lemma socket_rows:
  "map (\<lambda>r. (rw_name r, echo (rw_s1 r), echo (rw_s2 r))) [connect_row, socket_row] =
    [(''connect'', ''path'', ''NULL''), (''socket'', ''NULL'', ''NULL'')]"
  by code_simp

lemma nth_summary:
  assumes "map row_summary (rows_of ls) = ws" "i < length ws"
  shows "row_summary (rows_of ls ! i) = ws ! i"
  using assms by (metis length_map nth_map)

lemma nth_strings:
  assumes "map (\<lambda>r. (rw_name r, echo (rw_s1 r), echo (rw_s2 r))) rs = xs" "i < length xs"
  shows "echo (rw_s1 (rs ! i)) = fst (snd (xs ! i))" "echo (rw_s2 (rs ! i)) = snd (snd (xs ! i))"
proof -
  have "i < length rs" using assms by auto
  with assms(1) have "xs ! i = (rw_name (rs ! i), echo (rw_s1 (rs ! i)), echo (rw_s2 (rs ! i)))" by auto
  then show "echo (rw_s1 (rs ! i)) = fst (snd (xs ! i))" "echo (rw_s2 (rs ! i)) = snd (snd (xs ! i))"
    by simp_all
qed

lemmas file_summary = nth_summary [OF check_file [THEN check_rows_table(1)]]
lemmas file_strings = nth_strings [OF file_rows]

lemma row_facts:
  "row_summary open_row = (''open'', ''FILE_OPEN_CLOSE'', ''OPEN'', ''FD_NONE'', ''ZERO_BYTES'')"
  "row_summary fopen_row = (''fopen'', ''FILE_OPEN_CLOSE'', ''OPEN'', ''fd'', ''ZERO_BYTES'')"
  "row_summary fclose_row = (''fclose'', ''FILE_OPEN_CLOSE'', ''CLOSE'', ''FD_NONE'', ''ZERO_BYTES'')"
  "row_summary close_row = (''close'', ''FILE_OPEN_CLOSE'', ''CLOSE'', ''fd'', ''ZERO_BYTES'')"
  "row_summary read_row = (''read'', ''FILE_READ'', ''READ'', ''fd'', ''count'')"
  "row_summary write_row = (''write'', ''FILE_WRITE'', ''WRITE'', ''fd'', ''count'')"
  "row_summary connect_row = (''connect'', ''SOCKETS'', ''CONNECT'', ''fd'', ''ZERO_BYTES'')"
  "row_summary socket_row = (''socket'', ''SOCKETS'', ''SOCKET'', ''fd'', ''ZERO_BYTES'')"
  using file_summary [of 0] file_summary [of 2] file_summary [of 6] file_summary [of 7]
    nth_summary [OF check_read [THEN check_rows_table(1)], of 0]
    nth_summary [OF check_write [THEN check_rows_table(1)], of 0]
    nth_summary [OF check_socket [THEN check_rows_table(1)], of 0]
    nth_summary [OF check_socket [THEN check_rows_table(1)], of 1]
  by (simp_all add: open_row_def fopen_row_def fclose_row_def close_row_def read_row_def write_row_def
      connect_row_def socket_row_def file_wrappers_def read_wrappers_def write_wrappers_def socket_wrappers_def)

lemma row_strings:
  "echo (rw_s1 open_row) = ''pathname''" "echo (rw_s2 open_row) = ''NULL''"
  "echo (rw_s1 fopen_row) = ''path''" "echo (rw_s2 fopen_row) = ''mode''"
  "echo (rw_s1 fclose_row) = ''NULL''" "echo (rw_s2 fclose_row) = ''NULL''"
  "echo (rw_s1 close_row) = ''NULL''" "echo (rw_s2 close_row) = ''NULL''"
  "echo (rw_s1 read_row) = ''NULL''" "echo (rw_s2 read_row) = ''NULL''"
  "echo (rw_s1 write_row) = ''NULL''" "echo (rw_s2 write_row) = ''NULL''"
  "echo (rw_s1 connect_row) = ''path''" "echo (rw_s2 connect_row) = ''NULL''"
  "echo (rw_s1 socket_row) = ''NULL''" "echo (rw_s2 socket_row) = ''NULL''"
  using file_strings [of 0] file_strings [of 2] file_strings [of 6] file_strings [of 7] io_rows socket_rows
  by (simp_all add: open_row_def fopen_row_def fclose_row_def close_row_def)

lemma row_event_summary:
  assumes "row_summary r = (n, d, op, f, c)" "domain_named d = Some dm" "op_named op = Some o'"
  shows "row_event P r sc t0 t1 = Some \<lparr>ev_dom_type = dm, ev_op_type = o',
     ev_fd = (if f = ''fd'' then sc_int sc ''fd'' else FD_NONE),
     ev_s1 = (if echo (rw_s1 r) = ''NULL'' then None else sc_str sc (echo (rw_s1 r))),
     ev_s2 = (if echo (rw_s2 r) = ''NULL'' then None else sc_str sc (echo (rw_s2 r))),
     ev_start_time = t0, ev_end_time = t1, ev_error_code = sc_int sc ''error_code'',
     ev_bytes_transferred = (if c = ''count'' then word_of_int (sc_int sc ''count'') else ZERO_BYTES P)\<rparr>"
  using assms by (auto simp: row_event_def row_summary_def Let_def)

lemma named_eval:
  "domain_named ''FILE_OPEN_CLOSE'' = Some FILE_OPEN_CLOSE" "domain_named ''FILE_READ'' = Some FILE_READ"
  "domain_named ''FILE_WRITE'' = Some FILE_WRITE" "domain_named ''SOCKETS'' = Some SOCKETS"
  "op_named ''OPEN'' = Some OPEN" "op_named ''CLOSE'' = Some CLOSE" "op_named ''READ'' = Some READ"
  "op_named ''WRITE'' = Some WRITE" "op_named ''CONNECT'' = Some CONNECT" "op_named ''SOCKET'' = Some SOCKET"
  by (simp_all add: domain_named_def op_named_def all_domains_def all_ops_def domains_names_eq ops_names_eq)

lemmas row_events = row_facts [THEN row_event_summary]

text \<open>The events of the monitor's own calls are those of the generated wrappers.\<close>

lemma own_calls:
  fixes P :: "'w platform"
  assumes "sc_int sc ''fd'' = fd" "sc_int sc ''count'' = count" "sc_int sc ''error_code'' = err"
  shows "result = fd \<Longrightarrow> err = (if result = - 1 then errno else error_code_init P) \<Longrightarrow>
      row_event P socket_row sc t0 t1 = Some (socket_event P result errno t0 t1)"
    and "err = (if result < 0 then errno else error_code_init P) \<Longrightarrow>
      row_event P write_row sc t0 t1 = Some (write_event P fd count result errno t0 t1)"
    and "err = (if result = - 1 then errno else error_code_init P) \<Longrightarrow>
      row_event P close_row sc t0 t1 = Some (close_event P fd result errno t0 t1)"
    and "err = (if result = - 1 then errno else error_code_init P) \<Longrightarrow>
      sc_str sc ''path'' = Some (case real_ip addr of None \<Rightarrow> [] | Some path \<Rightarrow> path) \<Longrightarrow>
      row_event P connect_row sc t0 t1 = Some (connect_event P fd addr result errno t0 t1)"
  using assms by (simp_all add: row_events named_eval row_strings socket_event_def write_event_def close_event_def
      connect_event_def)

end
