(* ===== verification/Http_Detect.thy ===== *)
theory Http_Detect
imports Monitor_Gate
begin

text \<open>
  \<open>io_monitor/check_for_http.cpp\<close>: the hook of \<open>read\<close>, \<open>recv\<close>, \<open>write\<close> and \<open>send\<close> that looks for the
  start of an HTTP message in the data of the call. No target of the Makefile builds the file, and its
  two container types do not compile; the function does not use them.

  \<open>data\<close> is the memory from \<open>buf\<close> to the end of its object, so a read past it is \<open>OutOfBounds\<close>. A line
  buffer is the string written to it so far, or nothing yet, in which case it holds no string.
\<close>

section \<open>The scan\<close>

text \<open>The loop over the data with the lines collected so far; \<open>None\<close> is the early return.\<close>

function http_scan ::
  "string \<Rightarrow> nat \<Rightarrow> nat \<Rightarrow> nat \<Rightarrow> string \<Rightarrow> string \<Rightarrow> (string \<times> string) option res" where
  "http_scan data count i line buffer1 buffer2 =
     (if i = count then Inr (Some (buffer1, buffer2))
      else if i \<ge> length data then Inl OutOfBounds
      else if data ! i = NUL then Inr None
      else if data ! i = CHR 0x0D
      then if i \<ge> count then Inr None
           else if Suc i \<ge> length data then Inl OutOfBounds
           else if data ! Suc i = CHR 0x0A
           then if Suc line > 1 then Inr (Some (buffer1, buffer2))
                else let b2 = buffer2 @ [CHR 0x0A]
                     in if length b2 \<ge> STR_LEN then Inr None
                        else http_scan data count (i + 2) (Suc line) buffer1 b2
           else Inr None
      else if line \<noteq> 0
      then let b2 = buffer2 @ [data ! i]
           in if length b2 \<ge> STR_LEN then Inr None else http_scan data count (Suc i) line buffer1 b2
      else let b1 = buffer1 @ [data ! i]
           in if length b1 \<ge> PATH_MAX then Inr None else http_scan data count (Suc i) line b1 buffer2)"
  by pat_completeness auto
termination
  by (relation "measure (\<lambda>(data, _, i, _). length data - i)") auto

declare http_scan.simps [simp del]

section \<open>The first line\<close>

definition http_verb :: "string \<Rightarrow> bool" where
  "http_verb b \<longleftrightarrow> prefix ''GET '' b \<or> prefix ''PUT '' b \<or> prefix ''HEAD '' b \<or> prefix ''POST '' b \<or> prefix ''DELETE '' b"

text \<open>\<open>sscanf (buffer1, "%s %d %s", ...)\<close>: the number behind the first word, if there is one. It is read
  like \<open>strtol\<close> does and stored in an \<open>int\<close>.\<close>

definition sscanf_code :: "string \<Rightarrow> int option" where
  "sscanf_code b =
     (let s = dropWhile is_space (dropWhile (\<lambda>c. \<not> is_space c) (dropWhile is_space b));
          t = (case s of [] \<Rightarrow> [] | c # u \<Rightarrow> if c = CHR ''-'' \<or> c = CHR ''+'' then u else s)
      in if takeWhile is_digit t = [] then None else Some (int32 (atol s)))"

text \<open>What is recorded for a message that begins with the line \<open>b\<close>; \<open>resp_code\<close> is not set when
  \<open>sscanf\<close> finds no number.\<close>

definition http_operation :: "domain_type \<Rightarrow> string \<Rightarrow> op_type option res" where
  "http_operation dm b =
     (if strstr b ''HTTP'' = None then Inr None
      else if http_verb b then Inr (Some (if dm = FILE_WRITE then HTTP_REQ_SEND else HTTP_REQ_RECV))
      else if prefix ''HTTP/1'' b
      then (case sscanf_code b of
              None \<Rightarrow> Inl UninitRead
            | Some resp_code \<Rightarrow>
                Inr (if resp_code \<ge> 100 \<and> resp_code < 1000
                     then Some (if dm = FILE_WRITE then HTTP_RESP_SEND else HTTP_RESP_RECV)
                     else None))
      else Inr None)"

definition http_event ::
  "domain_type \<Rightarrow> int \<Rightarrow> string \<Rightarrow> nat \<Rightarrow> timeval \<Rightarrow> timeval \<Rightarrow> event option res" where
  "http_event dm fd data count s e =
     bindR (http_scan data count 0 0 [] []) (\<lambda>lines.
       case lines of
         None \<Rightarrow> Inr None
       | Some (buffer1, buffer2) \<Rightarrow>
           if buffer1 = [] then Inl UninitRead
           else bindR (http_operation dm buffer1) (\<lambda>op. Inr (map_option (\<lambda>op.
             \<lparr>ev_dom_type = HTTP, ev_op_type = op, ev_fd = fd, ev_s1 = Some buffer1, ev_s2 = None,
              ev_start_time = s, ev_end_time = e, ev_error_code = 0, ev_bytes_transferred = 0\<rparr>) op)))"

text \<open>The function, with the \<open>record\<close> it calls.\<close>

definition check_for_http ::
  "(event \<Rightarrow> 's \<Rightarrow> 's res) \<Rightarrow> domain_type \<Rightarrow> int \<Rightarrow> string \<Rightarrow> nat \<Rightarrow> timeval \<Rightarrow> timeval \<Rightarrow> 's \<Rightarrow> 's res" where
  "check_for_http rec dm fd data count s e st =
     bindR (http_event dm fd data count s e) (\<lambda>ev. case ev of None \<Rightarrow> Inr st | Some ev \<Rightarrow> rec ev st)"

section \<open>Scanning lines\<close>

text \<open>A character the scan copies.\<close>

definition line_char :: "char \<Rightarrow> bool" where
  "line_char c \<longleftrightarrow> c \<noteq> NUL \<and> c \<noteq> CHR 0x0D"

lemma drop_ConsD: "drop i xs = y # ys \<Longrightarrow> i < length xs \<and> xs ! i = y \<and> drop (Suc i) xs = ys"
  by (metis Cons_nth_drop_Suc drop_eq_Nil2 leI list.distinct(1) list.inject)

lemma scan_first_line:
  assumes "list_all line_char l" "length b1 + length l < PATH_MAX" "i + length l \<le> count"
    and "drop i data = l @ rest"
  shows "http_scan data count i 0 b1 b2 = http_scan data count (i + length l) 0 (b1 @ l) b2"
  using assms
proof (induction l arbitrary: i b1)
  case (Cons c l)
  note i = drop_ConsD [OF Cons.prems(4) [unfolded append_Cons]]
  have "http_scan data count i 0 b1 b2 = http_scan data count (Suc i) 0 (b1 @ [c]) b2"
    using Cons.prems i by (subst http_scan.simps) (simp add: line_char_def Let_def)
  also have "\<dots> = http_scan data count (Suc i + length l) 0 ((b1 @ [c]) @ l) b2"
    using Cons.prems i by (intro Cons.IH) auto
  finally show ?case by simp
qed simp

lemma scan_second_line:
  assumes "list_all line_char l" "length b2 + length l < STR_LEN" "i + length l \<le> count"
    and "drop i data = l @ rest"
  shows "http_scan data count i 1 b1 b2 = http_scan data count (i + length l) 1 b1 (b2 @ l)"
  using assms
proof (induction l arbitrary: i b2)
  case (Cons c l)
  note i = drop_ConsD [OF Cons.prems(4) [unfolded append_Cons]]
  have "http_scan data count i 1 b1 b2 = http_scan data count (Suc i) 1 b1 (b2 @ [c])"
    using Cons.prems i by (subst http_scan.simps) (simp add: line_char_def Let_def)
  also have "\<dots> = http_scan data count (Suc i + length l) 1 b1 ((b2 @ [c]) @ l)"
    using Cons.prems i by (intro Cons.IH) auto
  finally show ?case by simp
qed simp

text \<open>A second line that does not fit its buffer ends the scan, however long it is.\<close>

lemma scan_long_line:
  assumes "list_all line_char l" "STR_LEN \<le> length b2 + length l" "length b2 < STR_LEN" "i + length l \<le> count"
    and "drop i data = l @ rest"
  shows "http_scan data count i 1 b1 b2 = Inr None"
  using assms
proof (induction l arbitrary: i b2)
  case (Cons c l)
  note i = drop_ConsD [OF Cons.prems(5) [unfolded append_Cons]]
  show ?case
  proof (cases "Suc (length b2) < STR_LEN")
    case True
    have "http_scan data count i 1 b1 b2 = http_scan data count (Suc i) 1 b1 (b2 @ [c])"
      using Cons.prems i True by (subst http_scan.simps) (simp add: line_char_def Let_def)
    also have "\<dots> = Inr None"
      using Cons.prems i True by (intro Cons.IH) auto
    finally show ?thesis .
  next
    case False
    then show ?thesis using Cons.prems i by (subst http_scan.simps) (simp add: line_char_def Let_def)
  qed
qed simp

definition crlf :: string where "crlf = [CHR 0x0D, CHR 0x0A]"

lemma scan_first_crlf:
  assumes "drop i data = crlf @ rest" "i < count"
  shows "http_scan data count i 0 b1 [] = http_scan data count (i + 2) 1 b1 [CHR 0x0A]"
proof -
  note 1 = drop_ConsD [of i data "CHR 0x0D" "CHR 0x0A # rest"]
  note 2 = drop_ConsD [of "Suc i" data "CHR 0x0A" rest]
  show ?thesis
    using assms 1 2 by (subst http_scan.simps) (simp add: crlf_def Let_def STR_LEN_def)
qed

lemma scan_second_crlf:
  assumes "drop i data = crlf @ rest" "i < count"
  shows "http_scan data count i 1 b1 b2 = Inr (Some (b1, b2))"
proof -
  note 1 = drop_ConsD [of i data "CHR 0x0D" "CHR 0x0A # rest"]
  note 2 = drop_ConsD [of "Suc i" data "CHR 0x0A" rest]
  show ?thesis
    using assms 1 2 by (subst http_scan.simps) (simp add: crlf_def)
qed

text \<open>A message of which two lines are in the data.\<close>

lemma scan_message:
  assumes "list_all line_char l1" "list_all line_char l2" "length l1 < PATH_MAX"
    and "data = l1 @ crlf @ l2 @ crlf @ rest" "length l1 + length l2 + 4 \<le> count"
  shows "http_scan data count 0 0 [] [] =
    Inr (if length l2 + 1 < STR_LEN then Some (l1, CHR 0x0A # l2) else None)"
proof -
  have "http_scan data count 0 0 [] [] = http_scan data count (length l1) 0 l1 []"
    using scan_first_line [of l1 "[]" 0 count data] assms by simp
  also have "\<dots> = http_scan data count (length l1 + 2) 1 l1 [CHR 0x0A]"
    using assms by (intro scan_first_crlf) auto
  also have "\<dots> = Inr (if length l2 + 1 < STR_LEN then Some (l1, CHR 0x0A # l2) else None)"
  proof (cases "length l2 + 1 < STR_LEN")
    case True
    have "http_scan data count (length l1 + 2) 1 l1 [CHR 0x0A] =
        http_scan data count (length l1 + 2 + length l2) 1 l1 ([CHR 0x0A] @ l2)"
      using assms True by (intro scan_second_line) (auto simp: crlf_def)
    also have "\<dots> = Inr (Some (l1, [CHR 0x0A] @ l2))"
      using assms by (intro scan_second_crlf) (auto simp: crlf_def)
    finally show ?thesis using True by simp
  next
    case False
    have "http_scan data count (length l1 + 2) 1 l1 [CHR 0x0A] = Inr None"
      using assms False by (intro scan_long_line [of l2]) (auto simp: crlf_def STR_LEN_def)
    with False show ?thesis by simp
  qed
  finally show ?thesis .
qed

text \<open>Data with a NUL before any carriage return is no message.\<close>

lemma scan_NUL:
  assumes "list_all line_char l" "data = l @ NUL # rest" "length l < count" "length l < PATH_MAX"
  shows "http_scan data count 0 0 [] [] = Inr None"
proof -
  have "http_scan data count 0 0 [] [] = http_scan data count (length l) 0 l []"
    using scan_first_line [of l "[]" 0 count data] assms by simp
  also have "\<dots> = Inr None" using assms by (subst http_scan.simps) simp
  finally show ?thesis .
qed

text \<open>A carriage return as the last byte makes the scan look at the byte behind the data.\<close>

lemma scan_past_end:
  assumes "list_all line_char l" "data = l @ [CHR 0x0D]" "length l < PATH_MAX"
  shows "http_scan data (length data) 0 0 [] [] = Inl OutOfBounds"
proof -
  have "http_scan data (length data) 0 0 [] [] = http_scan data (length data) (length l) 0 l []"
    using scan_first_line [of l "[]" 0 "length data" data "[CHR 0x0D]"] assms by simp
  also have "\<dots> = Inl OutOfBounds" using assms by (subst http_scan.simps) simp
  finally show ?thesis .
qed

section \<open>Bounds\<close>

text \<open>The line buffers are never overrun and keep room for their NUL.\<close>

lemma scan_bounds:
  assumes "http_scan data count i line b1 b2 = Inr (Some (c1, c2))" "length b1 < PATH_MAX" "length b2 < STR_LEN"
  shows "length c1 < PATH_MAX \<and> length c2 < STR_LEN"
  using assms
proof (induction data count i line b1 b2 rule: http_scan.induct)
  case (1 data count i line b1 b2)
  have crlf: "length c1 < PATH_MAX \<and> length c2 < STR_LEN"
    if "data ! i = CHR 0x0D" "\<not> count \<le> i" "\<not> length data \<le> Suc i"
      "data ! Suc i = CHR 0x0A" "line = 0" "\<not> STR_LEN \<le> Suc (length b2)"
      "http_scan data count (Suc (Suc i)) (Suc 0) b1 (b2 @ [CHR 0x0A]) = Inr (Some (c1, c2))"
    using "1.IH"(1) that "1.prems"(2) by auto
  show ?case
    using "1.prems" by (subst (asm) http_scan.simps)
      (auto simp: Let_def numeral_2_eq_2 split: if_splits dest: "1.IH" crlf)
qed

section \<open>The first line of a message\<close>

text \<open>A request or status line as HTTP writes it.\<close>

datatype http_line = Request string string | Status nat string

fun print_http :: "http_line \<Rightarrow> string" where
  "print_http (Request verb target) = verb @ '' '' @ target @ '' HTTP/1.1''"
| "print_http (Status code reason) = ''HTTP/1.1 '' @ show_nat code @ '' '' @ reason"

fun http_line_ok :: "http_line \<Rightarrow> bool" where
  "http_line_ok (Request verb target) \<longleftrightarrow>
     CHR '' '' \<notin> set verb \<and> \<not> prefix ''HTTP/1'' verb \<and> list_all line_char verb \<and> list_all line_char target"
| "http_line_ok (Status code reason) \<longleftrightarrow> code < 2 ^ 31 \<and> list_all line_char reason"

fun http_line_op :: "bool \<Rightarrow> http_line \<Rightarrow> op_type option" where
  "http_line_op sends (Request verb target) =
     (if verb \<in> {''GET'', ''PUT'', ''HEAD'', ''POST'', ''DELETE''}
      then Some (if sends then HTTP_REQ_SEND else HTTP_REQ_RECV) else None)"
| "http_line_op sends (Status code reason) =
     (if 100 \<le> code \<and> code < 1000 then Some (if sends then HTTP_RESP_SEND else HTTP_RESP_RECV) else None)"

lemma prefix_word_blank:
  assumes "c \<notin> set w" "c \<notin> set v"
  shows "prefix (w @ [c]) (v @ c # t) \<longleftrightarrow> v = w"
  using assms
proof (induction w arbitrary: v)
  case Nil
  then show ?case by (cases v) auto
next
  case (Cons x w)
  then show ?case by (cases v) auto
qed

lemma http_verb_word:
  assumes "CHR '' '' \<notin> set verb"
  shows "http_verb (verb @ CHR '' '' # t) \<longleftrightarrow> verb \<in> {''GET'', ''PUT'', ''HEAD'', ''POST'', ''DELETE''}"
  using prefix_word_blank [OF _ assms, of "''GET''" t] prefix_word_blank [OF _ assms, of "''PUT''" t]
    prefix_word_blank [OF _ assms, of "''HEAD''" t] prefix_word_blank [OF _ assms, of "''POST''" t]
    prefix_word_blank [OF _ assms, of "''DELETE''" t]
  by (auto simp: http_verb_def)

lemma digit_line_char: "is_digit c \<Longrightarrow> line_char c"
  by (auto simp: is_digit_def line_char_def)

lemma line_char_print: "http_line_ok h \<Longrightarrow> list_all line_char (print_http h)"
  using show_nat_digits digit_line_char by (cases h) (auto simp: list_all_iff line_char_def)

lemma takeWhile_digits: "takeWhile is_digit (show_nat n @ CHR '' '' # t) = show_nat n"
  using show_nat_digits [of n] by (simp add: takeWhile_append2 is_digit_def)

lemma atol_show_nat_blank:
  assumes "n < 2 ^ 63"
  shows "atol (show_nat n @ CHR '' '' # t) = int n"
proof -
  obtain c u where s: "show_nat n = c # u" by (cases "show_nat n") auto
  then have c: "\<not> is_space c" "c \<noteq> CHR ''-''" "c \<noteq> CHR ''+''"
    using show_nat_digits [of n] is_digit_not_sign [of c] by auto
  have "atol (show_nat n @ CHR '' '' # t) = max (- (2 ^ 63)) (min (2 ^ 63 - 1) (int n))"
    using c takeWhile_digits [of n t] digits_value_show_nat [of n] by (simp add: s atol_def)
  with assms show ?thesis by simp
qed

lemma spaces:
  "\<not> is_space (CHR ''H'')" "\<not> is_space (CHR ''T'')" "\<not> is_space (CHR ''P'')" "\<not> is_space (CHR ''/'')"
  "\<not> is_space (CHR ''1'')" "\<not> is_space (CHR ''.'')" "is_space (CHR '' '')"
  by (simp_all add: is_space_def)

lemma no_status_code:
  assumes "\<not> is_space c" "\<not> is_digit c" "c \<noteq> CHR ''-''" "c \<noteq> CHR ''+''"
  shows "http_operation dm (''HTTP/1.1 '' @ c # t) = Inl UninitRead"
proof -
  have "sscanf_code (''HTTP/1.1 '' @ c # t) = None"
    using assms spaces by (simp add: sscanf_code_def)
  then show ?thesis by (simp add: http_operation_def http_verb_def)
qed

lemma sscanf_code_status: "code < 2 ^ 31 \<Longrightarrow> sscanf_code (print_http (Status code reason)) = Some (int code)"
proof -
  assume code: "code < 2 ^ 31"
  define s where "s = show_nat code @ CHR '' '' # reason"
  obtain c u where n: "show_nat code = c # u" by (cases "show_nat code") auto
  then have c: "\<not> is_space c" "c \<noteq> CHR ''-''" "c \<noteq> CHR ''+''"
    using show_nat_digits [of code] is_digit_not_sign [of c] by auto
  have "dropWhile is_space (dropWhile (\<lambda>c. \<not> is_space c) (dropWhile is_space (''HTTP/1.1 '' @ s))) = s"
    using c spaces by (simp add: s_def n)
  moreover have "takeWhile is_digit s \<noteq> []"
    using takeWhile_digits [of code reason] by (simp add: s_def)
  moreover have "int32 (atol s) = int code"
    using atol_show_nat_blank [of code reason] code by (simp add: s_def int32_id)
  ultimately show ?thesis
    using c by (simp add: sscanf_code_def Let_def s_def n)
qed

lemma http_operation_print:
  assumes "http_line_ok h"
  shows "http_operation dm (print_http h) = Inr (http_line_op (dm = FILE_WRITE) h)"
proof (cases h)
  case (Request verb target)
  have "print_http h = (verb @ '' '' @ target @ '' '') @ ''HTTP'' @ ''/1.1''" by (simp add: Request)
  then have "sublist ''HTTP'' (print_http h)" by (metis sublist_appendI)
  moreover have "\<not> prefix ''HTTP/1'' (verb @ CHR '' '' # t)" for t
  proof
    assume "prefix ''HTTP/1'' (verb @ CHR '' '' # t)"
    then obtain us where "''HTTP/1'' = verb @ us" "prefix us (CHR '' '' # t)"
      using assms unfolding prefix_append by (auto simp: Request)
    moreover from this have "us = [] \<or> CHR '' '' \<in> set us" by (cases us) auto
    moreover have "CHR '' '' \<notin> set ''HTTP/1''" by simp
    ultimately have "verb = ''HTTP/1''" by (metis Un_iff append_Nil2 set_append)
    with assms show False by (simp add: Request)
  qed
  ultimately show ?thesis
    using assms http_verb_word [of verb "target @ '' HTTP/1.1''"]
    by (auto simp: http_operation_def strstr_None_iff Request)
next
  case (Status code reason)
  have "print_http h = [] @ ''HTTP'' @ ''/1.1 '' @ show_nat code @ '' '' @ reason" by (simp add: Status)
  then have "sublist ''HTTP'' (print_http h)" by (metis sublist_appendI)
  moreover have "\<not> http_verb (print_http h)" by (simp add: http_verb_def Status)
  moreover have "prefix ''HTTP/1'' (print_http h)" by (simp add: Status)
  ultimately show ?thesis
    using assms sscanf_code_status [of code reason]
    by (simp add: http_operation_def strstr_None_iff Status)
qed

end
