(* ===== verification/Wrapper_Run.thy ===== *)
theory Wrapper_Run
imports Hook_Table Hook_Typing Wrapped_Calls Http_Detect Exec_Helpers
begin

text \<open>
  A generated wrapper as a whole: the times, the call of the original function, the hook, and the call
  of \<open>record\<close> with what the hook has left. The original function is a parameter, as is the memory its
  pointers lead to; \<open>init\<close>, which the hook of \<open>fork\<close> calls, is one as well. The original functions of
  \<open>execl\<close>, \<open>execlp\<close> and \<open>execle\<close> are helpers in \<open>io_monitor.c\<close>, whose calls are intercepted again.
\<close>

section \<open>The call\<close>

text \<open>What the original function leaves behind: its result, \<open>errno\<close>, and the streams that are open.\<close>

record outcome =
  oc_result :: "cval option"
  oc_errno :: int
  oc_streams :: "nat \<Rightarrow> int option"

text \<open>A call: its arguments, \<open>errno\<close> and the open streams before it, the variable arguments up to the \<open>NULL\<close>
  for a variant of \<open>exec\<close>, and the function of the C library on all that.\<close>

record 'w invocation =
  cl_args :: "cval list"
  cl_before :: outcome
  cl_more :: "pointer list"
  cl_orig :: "'w \<Rightarrow> outcome \<times> 'w"

definition bind_params :: "(string \<times> vtype) list \<Rightarrow> cval list \<Rightarrow> vars" where
  "bind_params ps vs = map_of (map2 (\<lambda>(x, \<tau>) v. (x, Scalar \<tau> (Some v))) ps vs)"

text \<open>The variables of the wrapper: the parameters, \<open>error_code\<close> from \<open>DECL_VARS\<close>, and the result if it is
  known.\<close>

definition wrapper_vars :: "'w platform \<Rightarrow> code \<Rightarrow> cval list \<Rightarrow> cval option \<Rightarrow> vars" where
  "wrapper_vars P c vs res =
     (let \<sigma> = (bind_params (cd_params c) vs)
            (''error_code'' \<mapsto> Scalar (Arith Int32) (Some (VInt Int32 (error_code_init P))))
      in case (cd_ret c, res) of
           (Some \<tau>, Some v) \<Rightarrow> \<sigma>(''result'' \<mapsto> Scalar \<tau> (Some v))
         | _ \<Rightarrow> \<sigma>)"

section \<open>The hook and the record\<close>

text \<open>\<open>check_for_http\<close> reads the bytes its pointer leads to.\<close>

definition http_hook ::
  "'w recorder \<Rightarrow> timeval \<Rightarrow> timeval \<Rightarrow> int \<Rightarrow> int \<Rightarrow> pointer \<Rightarrow> nat \<Rightarrow> mon \<times> 'w \<Rightarrow> (mon \<times> 'w) res" where
  "http_hook rec t0 t1 d fd p count mw =
     (case p of
        Null \<Rightarrow> if count = 0 then check_for_http rec (all_domains ! nat d) fd [] 0 t0 t1 mw else Inl NullDeref
      | Bytes data \<Rightarrow> check_for_http rec (all_domains ! nat d) fd data count t0 t1 mw
      | _ \<Rightarrow> check_for_http rec (all_domains ! nat d) fd [] count t0 t1 mw)"

definition wrapper_env ::
  "'w recorder \<Rightarrow> (mon \<times> 'w \<Rightarrow> (mon \<times> 'w) res) \<Rightarrow> outcome \<Rightarrow> timeval \<Rightarrow> timeval \<Rightarrow> (mon \<times> 'w) hook_env" where
  "wrapper_env rec ini oc t0 t1 =
     \<lparr>he_errno = oc_errno oc, he_streams = oc_streams oc, he_http = http_hook rec t0 t1, he_init = ini\<rparr>"

text \<open>The strings of the record: a parameter or an array of the hook.\<close>

definition string_arg :: "vars \<Rightarrow> string \<Rightarrow> string option res" where
  "string_arg \<sigma> x =
     (if x = ''NULL'' then Inr None
      else case \<sigma> x of
        Some (Scalar \<tau> (Some (VPtr (String s)))) \<Rightarrow> Inr (Some s)
      | Some (Scalar \<tau> (Some (VPtr Null))) \<Rightarrow> Inr None
      | Some (Scalar \<tau> None) \<Rightarrow> Inl UninitRead
      | Some (Char_array n (Some s)) \<Rightarrow> Inr (Some s)
      | Some (Char_array n None) \<Rightarrow> Inl UninitRead
      | _ \<Rightarrow> Inl IllFormed)"

text \<open>The arguments of \<open>record\<close>, as the scope \<open>row_event\<close> reads.\<close>

definition record_scope :: "'m hook_env \<Rightarrow> code \<Rightarrow> vars \<Rightarrow> scope res" where
  "record_scope E c \<sigma> =
     bindR (eval_int E \<sigma> Int32 (Var (cd_fd c))) (\<lambda>fd.
     bindR (string_arg \<sigma> (cd_s1 c)) (\<lambda>s1.
     bindR (string_arg \<sigma> (cd_s2 c)) (\<lambda>s2.
     bindR (eval_int E \<sigma> Int32 (Var ''error_code'')) (\<lambda>err.
     bindR (if cd_count c = ''count'' then eval_int E \<sigma> Int64 (Var ''count'') else Inr 0) (\<lambda>count.
       Inr \<lparr>sc_int = (\<lambda>x. if x = ''fd'' then fd else if x = ''count'' then count else err),
            sc_str = (\<lambda>x. if x = cd_s1 c then s1 else s2)\<rparr>)))))"

definition record_call :: "'w platform \<Rightarrow> 'm hook_env \<Rightarrow> row \<Rightarrow> code \<Rightarrow> vars \<Rightarrow> timeval \<Rightarrow> timeval \<Rightarrow> event res" where
  "record_call P E r c \<sigma> t0 t1 =
     bindR (record_scope E c \<sigma>) (\<lambda>sc.
       case row_event P r sc t0 t1 of None \<Rightarrow> Inl IllFormed | Some ev \<Rightarrow> Inr ev)"

definition hook_and_event ::
  "'w platform \<Rightarrow> (mon \<times> 'w) hook_env \<Rightarrow> row \<Rightarrow> code \<Rightarrow> vars \<Rightarrow> timeval \<Rightarrow> timeval \<Rightarrow> mon \<times> 'w \<Rightarrow>
     (event \<times> mon \<times> 'w) res" where
  "hook_and_event P E r c \<sigma> t0 t1 mw =
     bindR (exec_list E (cd_hook c) (\<sigma>, mw)) (\<lambda>(\<sigma>', mw').
       bindR (record_call P E r c \<sigma>' t0 t1) (\<lambda>ev. Inr (ev, mw')))"

section \<open>The wrapper\<close>

text \<open>A variant of \<open>exec\<close> does not come back if it succeeds, so its wrapper records it first. \<open>orig\<close> is the
  original function.\<close>

definition wrapper_body ::
  "'w platform \<Rightarrow> 'w recorder \<Rightarrow> (mon \<times> 'w \<Rightarrow> (mon \<times> 'w) res) \<Rightarrow> row \<Rightarrow> 'w invocation \<Rightarrow>
     (mon \<times> 'w \<Rightarrow> (outcome \<times> mon \<times> 'w) res) \<Rightarrow> mon \<times> 'w \<Rightarrow> (outcome \<times> mon \<times> 'w) res" where
  "wrapper_body P rec ini r cl orig mw =
     (case code_of r of
        None \<Rightarrow> Inl IllFormed
      | Some c \<Rightarrow>
          let t0 = os_clock P (snd mw)
          in if cd_exec c
             then let t1 = os_clock P (snd mw)
                  in bindR (hook_and_event P (wrapper_env rec ini (cl_before cl) t0 t1) r c
                              (wrapper_vars P c (cl_args cl) None) t0 t1 mw) (\<lambda>(ev, mw1).
                     bindR (rec ev mw1) orig)
             else bindR (orig mw) (\<lambda>(oc, mw1).
                  let t1 = os_clock P (snd mw1)
                  in bindR (hook_and_event P (wrapper_env rec ini oc t0 t1) r c
                              (wrapper_vars P c (cl_args cl) (oc_result oc)) t0 t1 mw1) (\<lambda>(ev, mw2).
                     bindR (rec ev mw2) (\<lambda>mw3. Inr (oc, mw3)))))"

text \<open>The function of the C library knows nothing of the monitor.\<close>

definition library_call :: "'w invocation \<Rightarrow> mon \<times> 'w \<Rightarrow> (outcome \<times> mon \<times> 'w) res" where
  "library_call cl = (\<lambda>(m, w). case cl_orig cl w of (oc, w1) \<Rightarrow> Inr (oc, m, w1))"

text \<open>The helpers behind the variants of \<open>exec\<close> with variable arguments, and the wrappers their calls of
  \<open>execv\<close>, \<open>execvp\<close> and \<open>execvpe\<close> reach.\<close>

definition exec_helper :: "string \<Rightarrow> (pointer \<Rightarrow> pointer option \<Rightarrow> pointer list \<Rightarrow> pointer exec_call res) option" where
  "exec_helper name = map_of [(''execl'', orig_vexecl), (''execlp'', orig_vexeclp), (''execle'', orig_vexecle)] name"

fun exec_target :: "pointer exec_call \<Rightarrow> string \<times> cval list" where
  "exec_target (Execv path argv) = (''execv'', [VPtr path, VPtr Elsewhere])"
| "exec_target (Execvp path argv) = (''execvp'', [VPtr path, VPtr Elsewhere])"
| "exec_target (Execvpe path argv envp) =
     (''execvpe'', [VPtr path, VPtr Elsewhere, VPtr (if envp = None then Null else Elsewhere)])"

definition row_named :: "string \<Rightarrow> row option" where
  "row_named name = find (\<lambda>r. rw_name r = name) (rows_of monitored_functions)"

definition original_function ::
  "'w platform \<Rightarrow> 'w recorder \<Rightarrow> (mon \<times> 'w \<Rightarrow> (mon \<times> 'w) res) \<Rightarrow> row \<Rightarrow> 'w invocation \<Rightarrow>
     mon \<times> 'w \<Rightarrow> (outcome \<times> mon \<times> 'w) res" where
  "original_function P rec ini r cl mw =
     (case if is_exec_call r then exec_helper (rw_name r) else None of
        None \<Rightarrow> library_call cl mw
      | Some helper \<Rightarrow>
          (case cl_args cl of
             [VPtr path, VPtr arg] \<Rightarrow>
               bindR (helper path (if arg = Null then None else Some arg) (cl_more cl)) (\<lambda>call.
                 case exec_target call of (name, args) \<Rightarrow>
                   (case row_named name of
                      None \<Rightarrow> Inl IllFormed
                    | Some r' \<Rightarrow> wrapper_body P rec ini r' (cl\<lparr>cl_args := args, cl_more := []\<rparr>) (library_call cl) mw))
           | _ \<Rightarrow> Inl IllFormed))"

definition run_wrapper ::
  "'w platform \<Rightarrow> 'w recorder \<Rightarrow> (mon \<times> 'w \<Rightarrow> (mon \<times> 'w) res) \<Rightarrow> row \<Rightarrow> 'w invocation \<Rightarrow> mon \<times> 'w \<Rightarrow>
     (cval option \<times> mon \<times> 'w) res" where
  "run_wrapper P rec ini r cl mw =
     bindR (wrapper_body P rec ini r cl (original_function P rec ini r cl) mw) (\<lambda>(oc, mw1). Inr (oc_result oc, mw1))"

text \<open>For all but these three the original function is the one of the C library.\<close>

lemma run_wrapper_library:
  assumes "code_of r = Some c" "exec_helper (rw_name r) = None \<or> \<not> is_exec_call r"
  shows "run_wrapper P rec ini r cl (m, w) =
     (let t0 = os_clock P w
      in if cd_exec c
         then let t1 = os_clock P w
              in bindR (hook_and_event P (wrapper_env rec ini (cl_before cl) t0 t1) r c
                          (wrapper_vars P c (cl_args cl) None) t0 t1 (m, w)) (\<lambda>(ev, mw).
                 bindR (rec ev mw) (\<lambda>(m1, w1).
                   case cl_orig cl w1 of (oc, w2) \<Rightarrow> Inr (oc_result oc, m1, w2)))
         else case cl_orig cl w of (oc, w1) \<Rightarrow>
              let t1 = os_clock P w1
              in bindR (hook_and_event P (wrapper_env rec ini oc t0 t1) r c
                          (wrapper_vars P c (cl_args cl) (oc_result oc)) t0 t1 (m, w1)) (\<lambda>(ev, mw).
                 bindR (rec ev mw) (\<lambda>mw. Inr (oc_result oc, mw))))"
proof -
  have "original_function P rec ini r cl = library_call cl"
    using assms(2) by (auto simp: original_function_def fun_eq_iff)
  then show ?thesis
    by (simp add: run_wrapper_def wrapper_body_def assms(1) library_call_def Let_def bindR_assoc split_def)
qed

end
