(* ===== verification/Hook_Analysis.thy ===== *)
theory Hook_Analysis
imports Wrapper_Run
begin

text \<open>
  What can be read off a hook without running it: the variables it leaves alone, and the condition under
  which it takes \<open>errno\<close> for the error code.
\<close>

section \<open>Variables a hook leaves alone\<close>

fun exp_vars :: "cexp \<Rightarrow> string list" where
  "exp_vars (Var x) = [x]"
| "exp_vars (Const i) = []"
| "exp_vars (Text s) = []"
| "exp_vars (Not a) = exp_vars a"
| "exp_vars (Bin op a b) = exp_vars a @ exp_vars b"
| "exp_vars (Call f as) = concat (map exp_vars as)"

lemma eval_cong:
  "(\<And>x. x \<in> set (exp_vars a) \<Longrightarrow> macro E x = None \<Longrightarrow> \<sigma> x = \<sigma>' x) \<Longrightarrow> eval E \<sigma> a = eval E \<sigma>' a"
proof (induction a)
  case (Var x)
  then show ?case by (cases "macro E x") simp_all
qed (auto split: list.splits intro!: bindR_cong)

fun assigned :: "stmt \<Rightarrow> string list" where
  "assigned (Assign x a) = [x]"
| "assigned (If c s1 s2) = assigned s1 @ (case s2 of None \<Rightarrow> [] | Some s \<Rightarrow> assigned s)"
| "assigned (Block ss) = concat (map assigned ss)"
| "assigned _ = []"

lemma set_array_scalar:
  assumes "set_array x s \<sigma> = Inr \<sigma>'" "\<sigma> y = Some (Scalar \<tau> v)"
  shows "\<sigma>' y = \<sigma> y"
  using assms by (auto simp: set_array_def split: option.splits slot.splits)

lemma call_http_vars: "call_http E as (\<sigma>, m) = Inr (\<sigma>', m') \<Longrightarrow> \<sigma>' = \<sigma>"
  by (auto simp: call_http_def split: cval.splits if_splits)

lemma call_real_ip_scalar: "call_real_ip E as \<sigma> = Inr \<sigma>' \<Longrightarrow> \<sigma> y = Some (Scalar \<tau> v) \<Longrightarrow> \<sigma>' y = \<sigma> y"
  using set_array_scalar [of _ _ \<sigma> \<sigma>' y \<tau> v]
  by (induction E as \<sigma> rule: call_real_ip.induct) (auto split: option.splits)

lemma call_sprintf_scalar: "call_sprintf E as \<sigma> = Inr \<sigma>' \<Longrightarrow> \<sigma> y = Some (Scalar \<tau> v) \<Longrightarrow> \<sigma>' y = \<sigma> y"
  using set_array_scalar [of _ _ \<sigma> \<sigma>' y \<tau> v]
  by (induction E as \<sigma> rule: call_sprintf.induct) (auto split: if_splits)

lemma do_scalar:
  assumes "exec E (Do a) (\<sigma>, m) = Inr (\<sigma>', m')" "\<sigma> y = Some (Scalar \<tau> v)"
  shows "\<sigma>' y = \<sigma> y"
  using assms call_http_vars [of E _ \<sigma> m \<sigma>' m'] call_real_ip_scalar [of E _ \<sigma> \<sigma>' y \<tau> v]
    call_sprintf_scalar [of E _ \<sigma> \<sigma>' y \<tau> v]
  by (auto split: cexp.splits if_splits)

lemma exec_scalar:
  "exec E s (\<sigma>, m) = Inr (\<sigma>', m') \<Longrightarrow> \<sigma> y = Some (Scalar \<tau> v) \<Longrightarrow> y \<notin> set (assigned s) \<Longrightarrow> \<sigma>' y = \<sigma> y"
  "exec_list E ss (\<sigma>, m) = Inr (\<sigma>', m') \<Longrightarrow> \<sigma> y = Some (Scalar \<tau> v) \<Longrightarrow>
     y \<notin> set (concat (map assigned ss)) \<Longrightarrow> \<sigma>' y = \<sigma> y"
proof (induction E s "(\<sigma>, m)" and E ss "(\<sigma>, m)" arbitrary: \<sigma> m \<sigma>' m' and \<sigma> m \<sigma>' m' rule: exec_exec_list.induct)
  case (1 E ty x ini \<sigma> m)
  then show ?case by (auto split: if_splits option.splits)
next
  case (2 E ty x n ini \<sigma> m)
  then show ?case by (auto split: if_splits option.splits)
next
  case (3 E x a \<sigma> m)
  then show ?case by (auto split: option.splits slot.splits vtype.splits)
next
  case (4 E a \<sigma> m)
  then show ?case by (intro do_scalar)
next
  case (5 E c s1 s2 \<sigma> m)
  obtain v where v: "eval E \<sigma> c = Inr v" using "5.prems"(1) by auto
  consider (yes) \<sigma>1 m1 where "truth v" "exec E s1 (\<sigma>, m) = Inr (\<sigma>1, m1)" "(\<sigma>', m') = leave \<sigma> (\<sigma>1, m1)"
    | (no) s \<sigma>1 m1 where "\<not> truth v" "s2 = Some s" "exec E s (\<sigma>, m) = Inr (\<sigma>1, m1)" "(\<sigma>', m') = leave \<sigma> (\<sigma>1, m1)"
    | (skip) "\<sigma>' = \<sigma>"
    using "5.prems"(1) v by (cases "truth v"; cases s2) auto
  then show ?case
  proof cases
    case yes
    then show ?thesis using "5.hyps"(1) [OF v yes(1,2) "5.prems"(2)] "5.prems"(2,3) by (simp add: leave_def)
  next
    case no
    then show ?thesis using "5.hyps"(2) [OF v no(1-3) "5.prems"(2)] "5.prems"(2,3) by (simp add: leave_def)
  qed simp
next
  case (6 E ss \<sigma> m)
  from "6.prems"(1) obtain \<sigma>1 m1 where "exec_list E ss (\<sigma>, m) = Inr (\<sigma>1, m1)" "(\<sigma>', m') = leave \<sigma> (\<sigma>1, m1)"
    by auto
  then show ?case using "6.hyps" [OF _ "6.prems"(2)] "6.prems"(2,3) by (simp add: leave_def)
next
  case (7 E \<sigma> m)
  then show ?case by simp
next
  case (8 E s ss \<sigma> m)
  from "8.prems"(1) obtain \<sigma>1 m1 where e: "exec E s (\<sigma>, m) = Inr (\<sigma>1, m1)" "exec_list E ss (\<sigma>1, m1) = Inr (\<sigma>', m')"
    by auto
  have k: "\<sigma>1 y = \<sigma> y" using "8.hyps"(1) [OF e(1) "8.prems"(2)] "8.prems"(3) by simp
  have "\<sigma>' y = \<sigma>1 y" using "8.hyps"(2) [OF e(1,2)] "8.prems"(2,3) k by simp
  with k show ?case by simp
qed

section \<open>The error code\<close>

definition sets_error :: "stmt \<Rightarrow> bool" where
  "sets_error s \<longleftrightarrow> List.member (assigned s) ''error_code''"

text \<open>The branch of an \<open>if\<close> that reports an error: it takes \<open>errno\<close> and then does not change it.\<close>

definition error_branch :: "stmt \<Rightarrow> bool" where
  "error_branch s \<longleftrightarrow>
     (case s of
        Assign x a \<Rightarrow> s = set_error
      | Block (s' # ss) \<Rightarrow> s' = set_error \<and> list_all (\<lambda>s. \<not> sets_error s) ss
      | _ \<Rightarrow> False)"

text \<open>The condition for an error, or \<open>None\<close> if the hook reports none: at most one statement sets the error
  code, under a condition on variables no statement assigns.\<close>

fun error_test :: "string list \<Rightarrow> stmt list \<Rightarrow> cexp option option" where
  "error_test xs [] = Some None"
| "error_test xs (s # ss) =
     (if \<not> sets_error s then error_test (assigned s @ xs) ss
      else case s of
        If c s1 s2 \<Rightarrow>
          if error_branch s1 \<and> (case s2 of None \<Rightarrow> True | Some s \<Rightarrow> \<not> sets_error s) \<and>
             list_all (\<lambda>s. \<not> sets_error s) ss \<and> list_all (\<lambda>x. \<not> List.member xs x) (exp_vars c)
          then Some (Some c) else None
      | _ \<Rightarrow> None)"

definition error_slot :: "int \<Rightarrow> slot" where
  "error_slot e = Scalar (Arith Int32) (Some (VInt Int32 e))"

lemma exec_error_branch:
  assumes "error_branch s" "exec E s (\<sigma>, m) = Inr (\<sigma>', m')" "\<sigma> ''error_code'' = Some (error_slot e)"
    "int32 (he_errno E) = he_errno E"
  shows "\<sigma>' ''error_code'' = Some (error_slot (he_errno E))"
proof -
  have 1: "\<sigma>1 ''error_code'' = Some (error_slot (he_errno E))"
    if "exec E set_error (\<sigma>, m) = Inr (\<sigma>1, m1)" for \<sigma>1 m1
    using that assms(3,4) by (auto simp: error_slot_def eval_int_def macro_def)
  consider (assign) "s = set_error"
    | (block) ss where "s = Block (set_error # ss)" "''error_code'' \<notin> set (concat (map assigned ss))"
    using assms(1) by (auto simp: error_branch_def sets_error_def list_all_iff split: stmt.splits list.splits)
  then show ?thesis
  proof cases
    case assign
    with 1 assms(2) show ?thesis by blast
  next
    case block
    then obtain \<sigma>1 m1 \<sigma>2 m2 where "exec E set_error (\<sigma>, m) = Inr (\<sigma>1, m1)"
        "exec_list E ss (\<sigma>1, m1) = Inr (\<sigma>2, m2)" "(\<sigma>', m') = leave \<sigma> (\<sigma>2, m2)"
      using assms(2) by (auto simp del: exec.simps(3))
    with 1 exec_scalar(2) [of E ss \<sigma>1 m1 \<sigma>2 m2] block(2) assms(3) show ?thesis
      by (auto simp: leave_def error_slot_def)
  qed
qed

lemma error_test_vars:
  "error_test xs ss = Some (Some c) \<Longrightarrow> x \<in> set (exp_vars c) \<Longrightarrow> x \<notin> set xs"
  by (induction xs ss rule: error_test.induct) (auto simp: list_all_iff split: if_splits stmt.splits)

definition error_after :: "'m hook_env \<Rightarrow> vars \<Rightarrow> int \<Rightarrow> cexp option \<Rightarrow> int" where
  "error_after E \<sigma> e t =
     (case t of None \<Rightarrow> e
      | Some c \<Rightarrow> (case eval E \<sigma> c of Inl u \<Rightarrow> e | Inr v \<Rightarrow> if truth v then he_errno E else e))"

theorem exec_error_code:
  assumes "error_test xs ss = Some t" "exec_list E ss (\<sigma>, m) = Inr (\<sigma>', m')"
    "\<sigma> ''error_code'' = Some (error_slot e)" "int32 (he_errno E) = he_errno E"
    "\<forall>c x. t = Some c \<longrightarrow> x \<in> set (exp_vars c) \<longrightarrow> macro E x = None \<longrightarrow> (\<exists>\<tau> v. \<sigma> x = Some (Scalar \<tau> v))"
  shows "\<sigma>' ''error_code'' = Some (error_slot (error_after E \<sigma> e t))"
  using assms
proof (induction xs ss arbitrary: \<sigma> m rule: error_test.induct)
  case (1 xs)
  then show ?case by (simp add: error_after_def)
next
  case (2 xs s ss)
  from "2.prems"(2) obtain \<sigma>1 m1 where e: "exec E s (\<sigma>, m) = Inr (\<sigma>1, m1)" "exec_list E ss (\<sigma>1, m1) = Inr (\<sigma>', m')"
    by auto
  note ec = "2.prems"(3) [unfolded error_slot_def]
  show ?case
  proof (cases "sets_error s")
    case False
    have k: "\<sigma>1 ''error_code'' = Some (error_slot e)"
      using exec_scalar(1) [OF e(1) ec] False "2.prems"(3) by (simp add: sets_error_def)
    have t: "error_test (assigned s @ xs) ss = Some t" using "2.prems"(1) False by simp
    have same: "\<sigma>1 x = \<sigma> x" if c: "t = Some c" "x \<in> set (exp_vars c)" "macro E x = None" for c x
    proof -
      have "x \<notin> set (assigned s)" using error_test_vars [of "assigned s @ xs" ss c x] t c by auto
      moreover obtain \<tau> v where "\<sigma> x = Some (Scalar \<tau> v)" using "2.prems"(5) c by blast
      ultimately show ?thesis using exec_scalar(1) [OF e(1)] by blast
    qed
    have "\<forall>c x. t = Some c \<longrightarrow> x \<in> set (exp_vars c) \<longrightarrow> macro E x = None \<longrightarrow> (\<exists>\<tau> v. \<sigma>1 x = Some (Scalar \<tau> v))"
      using same "2.prems"(5) by metis
    from "2.IH" [OF False t e(2) k "2.prems"(4) this]
    have "\<sigma>' ''error_code'' = Some (error_slot (error_after E \<sigma>1 e t))" .
    moreover have "error_after E \<sigma>1 e t = error_after E \<sigma> e t"
      using eval_cong [of _ E \<sigma>1 \<sigma>] same by (auto simp: error_after_def split: option.splits)
    ultimately show ?thesis by simp
  next
    case True
    then obtain c s1 s2 where s: "s = If c s1 s2" "error_branch s1" "pred_option (\<lambda>s. \<not> sets_error s) s2"
        "list_all (\<lambda>s. \<not> sets_error s) ss" "t = Some c"
      using "2.prems"(1) by (auto split: stmt.splits if_splits option.splits)
    obtain v where v: "eval E \<sigma> c = Inr v" using e(1) s(1) by auto
    have "\<sigma>1 ''error_code'' = Some (error_slot (if truth v then he_errno E else e))"
    proof (cases "truth v")
      case True
      then obtain \<sigma>2 m2 where "exec E s1 (\<sigma>, m) = Inr (\<sigma>2, m2)" "(\<sigma>1, m1) = leave \<sigma> (\<sigma>2, m2)"
        using e(1) s(1) v by auto
      with exec_error_branch [OF s(2) this(1) "2.prems"(3,4)] True "2.prems"(3) show ?thesis by (simp add: leave_def)
    next
      case False
      show ?thesis
      proof (cases s2)
        case None
        with e(1) s(1) v False "2.prems"(3) show ?thesis by simp
      next
        case (Some s')
        then obtain \<sigma>2 m2 where "exec E s' (\<sigma>, m) = Inr (\<sigma>2, m2)" "(\<sigma>1, m1) = leave \<sigma> (\<sigma>2, m2)"
          using e(1) s(1) v False by auto
        with exec_scalar(1) [OF this(1) ec] s(3) Some False "2.prems"(3) show ?thesis
          by (simp add: leave_def sets_error_def)
      qed
    qed
    moreover have "''error_code'' \<notin> set (concat (map assigned ss))"
      using s(4) by (auto simp: list_all_iff sets_error_def)
    ultimately have "\<sigma>' ''error_code'' = Some (error_slot (if truth v then he_errno E else e))"
      using exec_scalar(2) [OF e(2)] by (metis error_slot_def)
    then show ?thesis by (simp add: error_after_def s(5) v)
  qed
qed

section \<open>A variable the hook declares\<close>

lemma exec_list_append: "exec_list E (xs @ ys) \<sigma>m = bindR (exec_list E xs \<sigma>m) (exec_list E ys)"
proof (induction xs arbitrary: \<sigma>m)
  case (Cons s xs)
  obtain \<sigma> m where \<sigma>m: "\<sigma>m = (\<sigma>, m)" by fastforce
  show ?case by (cases "exec E s (\<sigma>, m)") (simp_all add: \<sigma>m Cons.IH)
next
  case Nil
  then show ?case by (cases \<sigma>m) simp
qed

text \<open>The initial value of \<open>y\<close>, if no statement but its declaration sets it or what it is computed from.\<close>

definition declares :: "string \<Rightarrow> stmt \<Rightarrow> cexp option" where
  "declares y s = (case s of Declare ty x ini \<Rightarrow> if x = y then ini else None | _ \<Rightarrow> None)"

fun declared_as :: "string \<Rightarrow> string list \<Rightarrow> stmt list \<Rightarrow> cexp option" where
  "declared_as y xs [] = None"
| "declared_as y xs (s # ss) =
     (case declares y s of
        Some a \<Rightarrow>
          if list_all (\<lambda>x. \<not> List.member xs x \<and> x \<noteq> y) (exp_vars a) \<and>
             list_all (\<lambda>s. \<not> List.member (assigned s) y) ss
          then Some a else None
      | None \<Rightarrow> declared_as y (assigned s @ xs) ss)"

lemma declared_as_vars: "declared_as y xs ss = Some a \<Longrightarrow> x \<in> set (exp_vars a) \<Longrightarrow> x \<notin> set xs"
  by (induction y xs ss rule: declared_as.induct) (auto simp: list_all_iff split: option.splits if_splits)

lemma exec_declared:
  assumes "declared_as y xs ss = Some a" "exec_list E ss (\<sigma>, m) = Inr (\<sigma>', m')"
    "\<forall>x\<in>set (exp_vars a). macro E x = None \<longrightarrow> (\<exists>\<tau> v. \<sigma> x = Some (Scalar \<tau> v))"
  shows "\<exists>i. eval_int E \<sigma> Int32 a = Inr i \<and> \<sigma>' y = Some (Scalar (Arith Int32) (Some (VInt Int32 i)))"
  using assms
proof (induction y xs ss arbitrary: \<sigma> m rule: declared_as.induct)
  case (2 y xs s ss)
  from "2.prems"(2) obtain \<sigma>1 m1 where e: "exec E s (\<sigma>, m) = Inr (\<sigma>1, m1)" "exec_list E ss (\<sigma>1, m1) = Inr (\<sigma>', m')"
    by auto
  show ?case
  proof (cases "declares y s")
    case (Some a')
    then obtain ty where s: "s = Declare ty y (Some a)" "list_all (\<lambda>s. \<not> List.member (assigned s) y) ss"
      using "2.prems"(1) by (auto simp: declares_def split: stmt.splits if_splits)
    obtain i where i: "eval_int E \<sigma> Int32 a = Inr i" "\<sigma>1 y = Some (Scalar (Arith Int32) (Some (VInt Int32 i)))"
      using e(1) s(1) by (auto split: if_splits)
    have "\<sigma>' y = \<sigma>1 y" using exec_scalar(2) [OF e(2) i(2)] s(2) by (auto simp: list_all_iff)
    with i show ?thesis by simp
  next
    case None
    then have d: "declared_as y (assigned s @ xs) ss = Some a" using "2.prems"(1) by simp
    have same: "\<sigma>1 x = \<sigma> x" if x: "x \<in> set (exp_vars a)" "macro E x = None" for x
    proof -
      obtain \<tau> v where "\<sigma> x = Some (Scalar \<tau> v)" using "2.prems"(3) x by blast
      moreover have "x \<notin> set (assigned s)" using declared_as_vars [OF d x(1)] by simp
      ultimately show ?thesis using exec_scalar(1) [OF e(1)] by blast
    qed
    have "\<forall>x\<in>set (exp_vars a). macro E x = None \<longrightarrow> (\<exists>\<tau> v. \<sigma>1 x = Some (Scalar \<tau> v))"
      using same "2.prems"(3) by metis
    from "2.IH" [OF None d e(2) this]
    obtain i where "eval_int E \<sigma>1 Int32 a = Inr i" "\<sigma>' y = Some (Scalar (Arith Int32) (Some (VInt Int32 i)))"
      by blast
    moreover have "eval_int E \<sigma>1 Int32 a = eval_int E \<sigma> Int32 a"
      using eval_cong [of a E \<sigma>1 \<sigma>] same by (simp add: eval_int_def)
    ultimately show ?thesis by simp
  qed
qed simp

section \<open>Hooks that cannot go wrong\<close>

text \<open>Without a call, an array or a variable that is not set at once.\<close>

fun harmless_exp :: "cexp \<Rightarrow> bool" where
  "harmless_exp (Call f as) \<longleftrightarrow> False"
| "harmless_exp (Not a) \<longleftrightarrow> harmless_exp a"
| "harmless_exp (Bin op a b) \<longleftrightarrow> harmless_exp a \<and> harmless_exp b"
| "harmless_exp _ \<longleftrightarrow> True"

fun harmless :: "stmt \<Rightarrow> bool" where
  "harmless (Declare ty x ini) \<longleftrightarrow> (case ini of None \<Rightarrow> False | Some a \<Rightarrow> harmless_exp a)"
| "harmless (Declare_array ty x n ini) \<longleftrightarrow> False"
| "harmless (Assign x a) \<longleftrightarrow> harmless_exp a"
| "harmless (Do a) \<longleftrightarrow> False"
| "harmless (If c s1 s2) \<longleftrightarrow> harmless_exp c \<and> harmless s1 \<and> (case s2 of None \<Rightarrow> True | Some s \<Rightarrow> harmless s)"
| "harmless (Block ss) \<longleftrightarrow> list_all harmless ss"

definition all_set :: "vars \<Rightarrow> bool" where
  "all_set \<sigma> \<longleftrightarrow>
     (\<forall>x \<tau> v. \<sigma> x = Some (Scalar \<tau> v) \<longrightarrow> v \<noteq> None) \<and> (\<forall>x n. \<sigma> x \<noteq> Some (Char_array n None))"

lemma all_set_upd [simp]: "all_set \<sigma> \<Longrightarrow> all_set (\<sigma>(x \<mapsto> Scalar \<tau> (Some v)))"
  by (simp add: all_set_def)

lemma all_set_leave: "all_set \<sigma>' \<Longrightarrow> all_set (\<lambda>x. if \<sigma> x = None then None else \<sigma>' x)"
  by (simp add: all_set_def)

text \<open>Such an expression has a value, if it is well formed, and such a hook comes to its end.\<close>

lemma harmless_eval: "harmless_exp a \<Longrightarrow> all_set \<sigma> \<Longrightarrow> eval E \<sigma> a = Inl u \<Longrightarrow> u = IllFormed"
proof (induction a arbitrary: u)
  case (Var x)
  then show ?case by (auto simp: all_set_def split: option.splits slot.splits)
next
  case (Bin op a b)
  have "binop_value op v w = Inl u \<Longrightarrow> u = IllFormed" for v w
    by (cases "(op, v, w)" rule: binop_value.cases) (auto simp: Let_def split: binop.splits if_splits)
  with Bin show ?case by (auto simp: bindR_eq_Inl)
qed (auto simp: bindR_eq_Inl)

lemma harmless_eval_int: "harmless_exp a \<Longrightarrow> all_set \<sigma> \<Longrightarrow> eval_int E \<sigma> ct a = Inl u \<Longrightarrow> u = IllFormed"
proof -
  have "int_of ct v = Inl u \<Longrightarrow> u = IllFormed" for v by (cases v) auto
  then show "harmless_exp a \<Longrightarrow> all_set \<sigma> \<Longrightarrow> eval_int E \<sigma> ct a = Inl u \<Longrightarrow> u = IllFormed"
    using harmless_eval [of a \<sigma> E u] by (auto simp: eval_int_def bindR_eq_Inl)
qed

definition stays :: "'m \<Rightarrow> (vars \<times> 'm) res \<Rightarrow> bool" where
  "stays m r \<longleftrightarrow> (case r of Inl u \<Rightarrow> u = IllFormed | Inr (\<sigma>', m') \<Rightarrow> all_set \<sigma>' \<and> m' = m)"

lemma stays_simps [simp]: "stays m (Inl u) \<longleftrightarrow> u = IllFormed" "stays m (Inr (\<sigma>', m')) \<longleftrightarrow> all_set \<sigma>' \<and> m' = m"
  by (simp_all add: stays_def)

lemma stays_leave: "stays m r \<Longrightarrow> stays m (bindR r (\<lambda>r. Inr (leave \<sigma> r)))"
  by (cases r) (auto simp: leave_def all_set_leave)

lemma harmless_exec:
  "harmless s \<Longrightarrow> all_set \<sigma> \<Longrightarrow> stays m (exec E s (\<sigma>, m))"
  "list_all harmless ss \<Longrightarrow> all_set \<sigma> \<Longrightarrow> stays m (exec_list E ss (\<sigma>, m))"
proof (induction E s "(\<sigma>, m)" and E ss "(\<sigma>, m)" arbitrary: \<sigma> m and \<sigma> m rule: exec_exec_list.induct)
  case (1 E ty x ini \<sigma> m)
  then obtain a where "ini = Some a" "harmless_exp a" by (auto split: option.splits)
  with harmless_eval_int [of a \<sigma> E Int32] 1(2) show ?case by (cases "eval_int E \<sigma> Int32 a") auto
next
  case (2 E ty x n ini \<sigma> m)
  then show ?case by simp
next
  case (3 E x a \<sigma> m)
  have "stays m (bindR (eval_int E \<sigma> ct a) (\<lambda>i. Inr (\<sigma>(x \<mapsto> Scalar (Arith ct) (Some (VInt ct i))), m)))" for ct
    using harmless_eval_int [of a \<sigma> E ct] 3 by (cases "eval_int E \<sigma> ct a") auto
  then show ?case by (auto split: option.splits slot.splits vtype.splits)
next
  case (4 E a \<sigma> m)
  then show ?case by simp
next
  case (5 E c s1 s2 \<sigma> m)
  show ?case
  proof (cases "eval E \<sigma> c")
    case (Inl u)
    then show ?thesis using harmless_eval [of c \<sigma> E u] "5.prems" by simp
  next
    case (Inr v)
    show ?thesis
      using stays_leave [OF "5.hyps"(1) [OF Inr]] stays_leave [OF "5.hyps"(2) [OF Inr]] "5.prems"
      by (cases s2) (auto simp: Inr)
  qed
next
  case (6 E ss \<sigma> m)
  then show ?case using stays_leave by simp
next
  case (7 E \<sigma> m)
  then show ?case by simp
next
  case (8 E s ss \<sigma> m)
  have "stays m (exec E s (\<sigma>, m))" using 8 by simp
  then show ?case using "8.hyps"(2) "8.prems" by (cases "exec E s (\<sigma>, m)") auto
qed

end
