(* ===== verification/Interposer_Calls.thy ===== *)
theory Interposer_Calls
imports Interposer
begin

text \<open>
  What the generator makes of any prototype: the wrapper calls the original function with its own
  parameters, in order, and with the variable ones as \<open>mode\<close> or \<open>args\<close>.
\<close>

section \<open>Lines without redundant blanks\<close>

lemma split_line_append:
  "split_line c (a @ b) =
    butlast (split_line c a) @ (last (split_line c a) @ hd (split_line c b)) # tl (split_line c b)"
proof (induction a)
  case (Cons x a)
  then show ?case by (cases "split_line c a") auto
qed simp

lemma join_split_line [simp]: "join c (split_line c s) = s"
proof (induction s)
  case (Cons x s)
  obtain t ts where "split_line c s = t # ts" by (cases "split_line c s") auto
  with Cons show ?case by (cases ts) auto
qed simp

definition tidy :: "string \<Rightarrow> bool" where
  "tidy s \<longleftrightarrow> [] \<notin> set (split_line CHR '' '' s) \<and> CHR 0x09 \<notin> set s \<and> CHR 0x0A \<notin> set s"

definition word :: "string \<Rightarrow> bool" where
  "word w \<longleftrightarrow> w \<noteq> [] \<and> (\<forall>c\<in>set w. c \<notin> {CHR '' '', CHR 0x09, CHR 0x0A, CHR ''('', CHR '')'', CHR '','',
     CHR ''['', CHR '']'', CHR ''|'', CHR ''.''})"

lemma blank_tidy: "tidy s \<Longrightarrow> map blank s = s"
  unfolding tidy_def by (intro map_idI) (auto simp: blank_def)

lemma tidy_pieces: "tidy s \<Longrightarrow> filter (\<lambda>w. w \<noteq> []) (split_line CHR '' '' s) = split_line CHR '' '' s"
  unfolding tidy_def filter_id_conv by metis

lemma echo_tidy [simp]: "tidy s \<Longrightarrow> echo s = s"
  using blank_tidy [of s] tidy_pieces [of s] by (simp add: echo_def)

lemma tidy_nonempty: "tidy s \<Longrightarrow> s \<noteq> []"
  by (auto simp: tidy_def)

lemma tidy_word:
  assumes "w \<noteq> []" "CHR '' '' \<notin> set w" "CHR 0x09 \<notin> set w" "CHR 0x0A \<notin> set w"
  shows "tidy w"
  using assms by (simp add: tidy_def split_line_last)

lemma split_line_sep: "split_line c (a @ c # b) = split_line c a @ split_line c b"
  by (induction a) auto

lemma tidy_blank: "tidy a \<Longrightarrow> tidy b \<Longrightarrow> tidy (a @ CHR '' '' # b)"
  by (auto simp: tidy_def split_line_sep)

lemma tidy_append:
  assumes "tidy a" "tidy b"
  shows "tidy (a @ b)"
proof -
  have "set (tl (split_line CHR '' '' b)) \<subseteq> set (split_line CHR '' '' b)" by (rule set_tl_subset)
  moreover have "last (split_line CHR '' '' a) \<noteq> []" 
    using assms(1) unfolding tidy_def by (metis last_in_set split_line_nonempty)
  ultimately show ?thesis
    using assms by (auto simp: tidy_def split_line_append dest: in_set_butlastD)
qed

lemma echo_blank:
  assumes "tidy a" "echo b \<noteq> []"
  shows "echo (a @ CHR '' '' # b) = a @ CHR '' '' # echo b"
proof -
  define ws where "ws = filter (\<lambda>w. w \<noteq> []) (split_line CHR '' '' (map blank b))"
  have ws: "ws \<noteq> []" using assms(2) by (auto simp: echo_def ws_def)
  have a: "map blank a = a" by (rule blank_tidy [OF assms(1)])
  note s = tidy_pieces [OF assms(1)]
  have "join c (us @ vs) = join c us @ c # join c vs" if "us \<noteq> []" "vs \<noteq> []" for c us vs
    using that
  proof (induction c us rule: join.induct)
    case (2 c t)
    then show ?case by (cases vs) auto
  qed auto
  from this [OF split_line_nonempty ws, of "CHR '' ''" "CHR '' ''" a] show ?thesis
    using a s by (simp add: echo_def blank_def split_line_sep ws_def)
qed

lemma echo_leading_blank: "echo (CHR '' '' # b) = echo b"
  by (simp add: echo_def blank_def)

lemma echo_no_blank_start: "c \<noteq> CHR '' '' \<Longrightarrow> c \<noteq> CHR 0x09 \<Longrightarrow> c \<noteq> CHR 0x0A \<Longrightarrow> \<exists>t. echo (c # s) = c # t"
proof -
  assume c: "c \<noteq> CHR '' ''" "c \<noteq> CHR 0x09" "c \<noteq> CHR 0x0A"
  define sp where "sp = split_line CHR '' '' (map blank s)"
  have "split_line CHR '' '' (map blank (c # s)) = (c # hd sp) # tl sp"
    using c by (simp add: blank_def sp_def)
  then have "echo (c # s) = join CHR '' '' ((c # hd sp) # filter (\<lambda>w. w \<noteq> []) (tl sp))"
    by (simp add: echo_def)
  then show ?thesis by (cases "filter (\<lambda>w. w \<noteq> []) (tl sp)") auto
qed

section \<open>The last word and the fields\<close>

lemma last_word_snoc: "CHR '' '' \<notin> set n \<Longrightarrow> last_word (s @ CHR '' '' # n) = n"
  by (auto simp: last_word_def cut_field_def select_field_def split_line_token)

lemma last_word_single: "CHR '' '' \<notin> set n \<Longrightarrow> last_word n = n"
  by (simp add: last_word_def cut_field_def select_field_def split_line_last)

lemma but_last_word_snoc: "CHR '' '' \<notin> set n \<Longrightarrow> but_last_word (s @ CHR '' '' # n) = s"
  by (simp add: but_last_word_def cut_from_def split_line_token)

lemma cut_from_second: "c \<notin> set a \<Longrightarrow> cut_from c 2 (a @ c # b) = b"
  by (simp add: cut_from_def split_line_token)

lemma cut_first_field: "c \<notin> set a \<Longrightarrow> cut_field c 1 (a @ c # b) = a"
  by (simp add: cut_field_def select_field_def split_line_token)

lemma grep_F_iff: "grep_F p s \<longleftrightarrow> sublist p s"
  by (auto simp: grep_F_def strstr_None_iff)

lemma not_grep_dots: "CHR ''.'' \<notin> set s \<Longrightarrow> \<not> grep_F ''...'' s"
  by (auto simp: grep_F_iff sublist_def)

section \<open>Prototypes\<close>

text \<open>A parameter is the words of its type, its name, and possibly the brackets of an array.\<close>

type_synonym param = "string list \<times> string \<times> bool"

definition print_param :: "param \<Rightarrow> string" where
  "print_param = (\<lambda>(ws, n, arr). join CHR '' '' (ws @ [n @ (if arr then ''[]'' else [])]))"

text \<open>The pieces between the commas: all but the first begin with a blank.\<close>

definition print_pieces :: "param list \<Rightarrow> bool \<Rightarrow> string list" where
  "print_pieces ps variadic = map print_param ps @ (if variadic then [''...''] else [])"

definition print_prototype :: "string list \<Rightarrow> string \<Rightarrow> param list \<Rightarrow> bool \<Rightarrow> string" where
  "print_prototype ret name ps variadic =
     join CHR '' '' (ret @ [name]) @ ''('' @
     (case print_pieces ps variadic of [] \<Rightarrow> [] | p # qs \<Rightarrow> join CHR '','' (p # map ((#) CHR '' '') qs)) @ '')''"

definition param_ok :: "param \<Rightarrow> bool" where
  "param_ok = (\<lambda>(ws, n, arr). ws \<noteq> [] \<and> list_all word (n # ws))"

definition prototype_ok :: "string list \<Rightarrow> string \<Rightarrow> param list \<Rightarrow> bool" where
  "prototype_ok ret name ps \<longleftrightarrow> ret \<noteq> [] \<and> list_all word (name # ret) \<and> list_all param_ok ps"

lemma word_tidy: "word w \<Longrightarrow> tidy w"
  by (intro tidy_word) (auto simp: word_def)

lemma join_words_tidy: "list_all tidy ws \<Longrightarrow> ws \<noteq> [] \<Longrightarrow> tidy (join CHR '' '' ws)"
  by (induction "CHR '' ''" ws rule: join.induct) (auto intro: tidy_blank)

lemma join_snoc: "ws \<noteq> [] \<Longrightarrow> join c (ws @ [n]) = join c ws @ c # n"
  by (induction c ws rule: join.induct) auto

text \<open>A character that is in no word.\<close>

definition outside :: "char \<Rightarrow> bool" where
  "outside c \<longleftrightarrow> c \<in> {CHR ''('', CHR '')'', CHR '','', CHR ''|'', CHR ''.''}"

lemma outside_word: "outside c \<Longrightarrow> word w \<Longrightarrow> c \<notin> set w"
  by (auto simp: outside_def word_def)

lemma outside_join: "outside c \<Longrightarrow> list_all (\<lambda>w. c \<notin> set w) ws \<Longrightarrow> c \<notin> set (join CHR '' '' ws)"
  by (induction "CHR '' ''" ws rule: join.induct) (auto simp: outside_def)

lemma param_cases:
  assumes "param_ok p"
  obtains ws n arr where "p = (ws, n, arr)" "ws \<noteq> []" "word n" "list_all word ws"
    "print_param p = join CHR '' '' ws @ CHR '' '' # n @ (if arr then ''[]'' else [])"
  using assms by (cases p) (auto simp: print_param_def param_ok_def join_snoc)

lemma outside_param:
  assumes "outside c" "param_ok p"
  shows "c \<notin> set (print_param p)"
  using assms(2)
proof (cases rule: param_cases)
  case (1 ws n arr)
  have "list_all (\<lambda>w. c \<notin> set w) ws"
    using 1(4) outside_word [OF assms(1)] by (auto simp: list_all_iff)
  then have "c \<notin> set (join CHR '' '' ws)" by (rule outside_join [OF assms(1)])
  moreover have "c \<noteq> CHR '' ''" "c \<noteq> CHR ''[''" "c \<noteq> CHR '']''" using assms(1) by (auto simp: outside_def)
  ultimately show ?thesis
    using 1(5) outside_word [OF assms(1) 1(3)] by simp
qed

lemma bracket_tidy: "word n \<Longrightarrow> tidy (n @ (if arr then ''[]'' else []))"
  by (intro tidy_word) (auto simp: word_def)

lemma words_tidy: "list_all word ws \<Longrightarrow> ws \<noteq> [] \<Longrightarrow> tidy (join CHR '' '' ws)"
  by (rule join_words_tidy) (metis list.pred_mono_strong word_tidy)

lemma print_param_tidy:
  assumes "param_ok p"
  shows "tidy (print_param p)"
  using assms
proof (cases rule: param_cases)
  case (1 ws n arr)
  show ?thesis unfolding 1(5) using 1 by (intro tidy_blank words_tidy bracket_tidy)
qed

section \<open>The arguments of the call\<close>

lemma word_chars:
  assumes "word n"
  shows "CHR '' '' \<notin> set n" "CHR ''.'' \<notin> set n" "CHR ''['' \<notin> set n" "CHR '']'' \<notin> set n"
  using assms by (auto simp: word_def)

lemma remove_brackets: "word n \<Longrightarrow> filter (\<lambda>c. c \<noteq> CHR ''['' \<and> c \<noteq> CHR '']'') n = n"
  using word_chars(3,4) [of n] unfolding filter_id_conv by auto

definition piece_gives :: "row \<Rightarrow> string \<Rightarrow> string \<Rightarrow> bool" where
  "piece_gives r x n \<longleftrightarrow> CHR '','' \<notin> set x \<and> call_argument r x = n @ '','' \<and> call_argument r (x @ '')'') = n @ ''),''"

lemma piece_gives_param:
  assumes "param_ok p" "x = print_param p \<or> x = CHR '' '' # print_param p"
  shows "piece_gives r x (fst (snd p))"
  using assms(1)
proof (cases rule: param_cases)
  case (1 ws n arr)
  define nb where "nb = n @ (if arr then ''[]'' else [])"
  have nb: "CHR '' '' \<notin> set nb" using word_chars(1) [OF 1(3)] by (simp add: nb_def)
  have pr: "print_param p = join CHR '' '' ws @ CHR '' '' # nb" using 1(5) by (simp add: nb_def)
  have dots: "\<not> grep_F ''...'' (print_param p)" "\<not> grep_F ''...'' (print_param p @ '')'')"
    using outside_param [OF _ assms(1), of "CHR ''.''"] by (auto intro!: not_grep_dots simp: outside_def)
  have t: "tidy (print_param p)" by (rule print_param_tidy [OF assms(1)])
  have t2: "tidy (print_param p @ '')'')" by (rule tidy_append [OF t tidy_word]) simp_all
  have e: "echo x = print_param p" "echo (x @ '')'') = print_param p @ '')''"
    using assms(2) t t2 by (auto simp: echo_leading_blank)
  have l: "last_word (print_param p) = nb" "last_word (print_param p @ '')'') = nb @ '')''"
    using last_word_snoc [OF nb, of "join CHR '' '' ws"] last_word_snoc [of "nb @ '')''" "join CHR '' '' ws"] nb
    by (simp_all add: pr)
  have f: "filter (\<lambda>c. c \<noteq> CHR ''['' \<and> c \<noteq> CHR '']'') nb = n"
    using remove_brackets [OF 1(3)] by (simp add: nb_def)
  have comma: "CHR '','' \<notin> set x"
    using outside_param [OF _ assms(1), of "CHR '',''"] assms(2) by (auto simp: outside_def)
  have "fst (snd p) = n" by (simp add: 1(1))
  then show ?thesis
    using comma dots f by (simp add: piece_gives_def call_argument_def e l)
qed

lemma piece_gives_dots:
  assumes "x = ''...'' \<or> x = '' ...''"
  shows "call_argument r (x @ '')'') = (if is_open_call r then ''mode'' else ''args'') @ ''),''"
proof -
  have "tidy ''...)''" by (rule tidy_word) simp_all
  then have "echo (x @ '')'') = ''...)''" using assms echo_leading_blank [of "''...)''"] by auto
  moreover have "grep_F ''...'' ''...)''" by (simp add: grep_F_def)
  ultimately show ?thesis by (simp add: call_argument_def)
qed

lemma call_pieces:
  assumes "list_all2 (piece_gives r) xs ns" "CHR '','' \<notin> set y" "call_argument r (y @ '')'') = n @ ''),''"
  shows "concat (map (call_argument r) (split_line CHR '','' (join CHR '','' (xs @ [y]) @ '')''))) =
    join CHR '','' (ns @ [n]) @ ''),''"
  using assms(1)
proof (induction xs ns rule: list_all2_induct)
  case Nil
  then show ?case using assms(2,3) by (simp add: split_line_last)
next
  case (Cons x xs m ns)
  have j: "join c (u # us @ [v]) = u @ c # join c (us @ [v])" for c u us and v :: string
    by (cases us) auto
  show ?case
    using Cons by (simp add: j piece_gives_def split_line_token)
qed

lemma sed_last: "CHR '')'' \<notin> set a \<Longrightarrow> sed_paren_comma (a @ ''),'') = a @ '')''"
  by (induction a) auto

lemma join_paren: "list_all (\<lambda>n. CHR '')'' \<notin> set n) ns \<Longrightarrow> CHR '')'' \<notin> set (join CHR '','' ns)"
  by (induction "CHR '',''" ns rule: join.induct) auto

definition argument_names :: "bool \<Rightarrow> param list \<Rightarrow> bool \<Rightarrow> string list" where
  "argument_names opens ps variadic =
     map (\<lambda>p. fst (snd p)) ps @ (if variadic then [if opens then ''mode'' else ''args''] else [])"

definition print_list :: "string list \<Rightarrow> string" where
  "print_list pieces = (case pieces of [] \<Rightarrow> [] | p # qs \<Rightarrow> join CHR '','' (p # map ((#) CHR '' '') qs)) @ '')''"

lemma print_list_arguments:
  assumes "list_all param_ok ps"
  shows "sed_paren_comma (concat (map (call_argument r)
      (split_line CHR '','' (print_list (print_pieces ps variadic))))) =
    join CHR '','' (argument_names (is_open_call r) ps variadic) @ '')''"
proof (cases "print_pieces ps variadic")
  case Nil
  then have n: "ps = []" "\<not> variadic" by (auto simp: print_pieces_def split: if_splits)
  have "call_argument r '')'' = ''),''"
    by (simp add: call_argument_def echo_def blank_def grep_F_def last_word_single)
  with n Nil show ?thesis by (simp add: print_list_def argument_names_def)
next
  case (Cons q qs)
  define f where "f i x = (if i = (0::nat) then x else CHR '' '' # x)" for i and x :: string
  define zs where "zs = q # map ((#) CHR '' '') qs"
  have zs_nth: "zs ! i = f i (print_pieces ps variadic ! i)" "length zs = length (print_pieces ps variadic)"
    if "i < length (print_pieces ps variadic)" for i
    using that Cons by (auto simp: zs_def f_def nth_Cons split: nat.splits)
  define ns where "ns = argument_names (is_open_call r) ps variadic"
  have len: "length zs = length (print_pieces ps variadic)" using Cons by (simp add: zs_def)
  have len2: "length ns = length zs"
    by (simp add: len ns_def argument_names_def print_pieces_def)
  have par: "piece_gives r (zs ! i) (ns ! i)" if "i < length ps" for i
  proof -
    have "ns ! i = fst (snd (ps ! i))" using that by (simp add: ns_def argument_names_def nth_append)
    moreover have "zs ! i = f i (print_param (ps ! i))"
      using zs_nth(1) [of i] that by (simp add: print_pieces_def nth_append)
    moreover have "param_ok (ps ! i)" using assms that by (simp add: list_all_length)
    ultimately show ?thesis using piece_gives_param [of "ps ! i" "zs ! i" r] by (auto simp: f_def)
  qed
  define k where "k = length zs - 1"
  have k: "length zs = Suc k" using Cons by (simp add: k_def zs_def)
  have last: "CHR '','' \<notin> set (zs ! k) \<and> call_argument r (zs ! k @ '')'') = ns ! k @ ''),''"
  proof (cases variadic)
    case True
    then have "k = length ps" using k len by (simp add: print_pieces_def)
    then have "zs ! k = ''...'' \<or> zs ! k = '' ...''" "ns ! k = (if is_open_call r then ''mode'' else ''args'')"
      using zs_nth(1) [of k] True by (auto simp: print_pieces_def nth_append f_def ns_def argument_names_def)
    with piece_gives_dots [of "zs ! k" r] show ?thesis by auto
  next
    case False
    then have "k < length ps" using k len by (simp add: print_pieces_def)
    from par [OF this] show ?thesis by (simp add: piece_gives_def)
  qed
  have "i < length ps" if "i < k" for i
    using that k len by (auto simp: print_pieces_def split: if_splits)
  then have "list_all2 (piece_gives r) (take k zs) (take k ns)"
    using par k len2 by (auto simp: list_all2_conv_all_nth)
  from call_pieces [OF this conjunct1 [OF last] conjunct2 [OF last]] have "concat (map (call_argument r) (split_line CHR '','' (join CHR '','' zs @ '')''))) =
      join CHR '','' ns @ ''),''"
    using k len2 by (simp add: take_Suc_conv_app_nth [symmetric])
  moreover have "outside CHR '')''" by (simp add: outside_def)
  then have "list_all (\<lambda>n. CHR '')'' \<notin> set n) ns"
    using assms outside_word
    by (fastforce simp: ns_def argument_names_def list_all_iff param_ok_def)
  ultimately show ?thesis
    using Cons by (simp add: print_list_def zs_def ns_def sed_last join_paren)
qed

section \<open>The call of the original function\<close>

lemma echo_trailing_blank:
  assumes "tidy a"
  shows "echo (a @ '' '') = a"
proof -
  have "map blank a = a" by (rule blank_tidy [OF assms])
  then show ?thesis
    using tidy_pieces [OF assms] by (simp add: echo_def blank_def split_line_sep)
qed

lemma print_list_Cons2: "print_list (p # q # qs) = p @ CHR '','' # CHR '' '' # print_list (q # qs)"
  by (cases qs) (simp_all add: print_list_def)

lemma print_list_tidy: "list_all tidy pieces \<Longrightarrow> tidy (print_list pieces)"
proof (induction pieces)
  case Nil
  show ?case by (simp add: print_list_def) (simp add: tidy_def)
next
  case (Cons p qs)
  show ?case
  proof (cases qs)
    case Nil
    with Cons.prems show ?thesis
      by (simp add: print_list_def) (rule tidy_append [OF _ tidy_word], simp_all)
  next
    case (Cons q qs')
    then have "print_list (p # qs) = (p @ '','') @ CHR '' '' # print_list qs" by (simp add: print_list_Cons2)
    moreover have "tidy (p @ '','')" using Cons.prems by (intro tidy_append [OF _ tidy_word]) simp_all
    moreover have "tidy (print_list qs)" using Cons.IH Cons.prems by simp
    ultimately show ?thesis by (metis tidy_blank)
  qed
qed

lemma print_prototype_eq:
  "print_prototype ret name ps variadic =
    (join CHR '' '' ret @ CHR '' '' # name) @ ''('' @ print_list (print_pieces ps variadic)" if "ret \<noteq> []"
  using that by (simp add: print_prototype_def print_list_def join_snoc)

lemma pieces_tidy: "list_all param_ok ps \<Longrightarrow> list_all tidy (print_pieces ps variadic)"
  by (auto simp: print_pieces_def list_all_iff intro: print_param_tidy tidy_word)

lemma prototype_tidy:
  assumes "prototype_ok ret name ps"
  shows "tidy (print_prototype ret name ps variadic)"
proof -
  have "tidy (join CHR '' '' ret @ CHR '' '' # name)"
    using assms by (intro tidy_blank words_tidy word_tidy) (auto simp: prototype_ok_def)
  moreover have "tidy ''(''" by (rule tidy_word) simp_all
  moreover have "tidy (print_list (print_pieces ps variadic))"
    using assms by (intro print_list_tidy pieces_tidy) (simp add: prototype_ok_def)
  moreover have "ret \<noteq> []" using assms by (simp add: prototype_ok_def)
  ultimately show ?thesis unfolding print_prototype_eq [OF \<open>ret \<noteq> []\<close>] by (metis tidy_append)
qed

lemma outside_words: "outside c \<Longrightarrow> list_all word ws \<Longrightarrow> c \<notin> set (join CHR '' '' ws)"
  by (rule outside_join) (auto simp: list_all_iff dest: outside_word)

lemma outside_print_list:
  assumes "list_all (\<lambda>p. c \<notin> set p) pieces" "c \<noteq> CHR '' ''" "c \<noteq> CHR '','' " "c \<noteq> CHR '')''"
  shows "c \<notin> set (print_list pieces)"
proof -
  have "c \<notin> set (join CHR '','' xs)" if "list_all (\<lambda>p. c \<notin> set p) xs" for xs
    using that assms(3) by (induction "CHR '',''" xs rule: join.induct) auto
  then show ?thesis
    using assms by (cases pieces) (auto simp: print_list_def list_all_iff)
qed

lemma params_outside:
  "outside c \<Longrightarrow> list_all param_ok ps \<Longrightarrow> list_all (\<lambda>p. c \<notin> set p) (map print_param ps)"
  by (auto simp: list_all_iff dest: outside_param)

lemma prototype_no_bar:
  assumes "prototype_ok ret name ps"
  shows "CHR ''|'' \<notin> set (print_prototype ret name ps variadic)"
proof -
  have b: "outside CHR ''|''" by (simp add: outside_def)
  have "CHR ''|'' \<notin> set (print_list (print_pieces ps variadic))"
    using params_outside [OF b, of ps] assms
    by (intro outside_print_list) (auto simp: print_pieces_def prototype_ok_def)
  then show ?thesis
    using assms outside_word [OF b] outside_words [OF b] by (simp add: print_prototype_eq prototype_ok_def)
qed

lemma parse_row_prototype:
  assumes "prototype_ok ret name ps" and "line = print_prototype ret name ps variadic @ '' |'' @ rest"
  shows "echo (rw_prototype (parse_row line)) = print_prototype ret name ps variadic"
    and "rw_ret (parse_row line) = join CHR '' '' ret" and "rw_name (parse_row line) = name"
proof -
  define p where "p = print_prototype ret name ps variadic"
  have t: "tidy p" unfolding p_def by (rule prototype_tidy [OF assms(1)])
  obtain t where e: "echo (CHR ''|'' # rest) = CHR ''|'' # t"
    using echo_no_blank_start [of "CHR ''|''" rest] by auto
  have l: "echo line = (p @ '' '') @ CHR ''|'' # t"
    using echo_blank [OF t, of "CHR ''|'' # rest"] e by (simp add: assms(2) p_def)
  have nb: "CHR ''|'' \<notin> set (p @ '' '')" using prototype_no_bar [OF assms(1)] by (simp add: p_def)
  have proto: "select_field 1 (split_line CHR ''|'' (echo line)) = p @ '' ''"
    unfolding l split_line_token [OF nb] by (simp add: select_field_def)
  have pe: "echo (p @ '' '') = p" by (rule echo_trailing_blank [OF t])
  define h where "h = join CHR '' '' ret @ CHR '' '' # name"
  have o: "outside CHR ''(''" by (simp add: outside_def)
  have "CHR ''('' \<notin> set h"
    using assms(1) outside_word [OF o] outside_words [OF o] by (simp add: h_def prototype_ok_def)
  then have rn: "cut_field CHR ''('' 1 p = h"
    using cut_first_field [of "CHR ''(''" h] assms(1)
    by (simp add: p_def h_def print_prototype_eq prototype_ok_def)
  have "tidy h"
    using assms(1) unfolding h_def by (intro tidy_blank words_tidy word_tidy) (auto simp: prototype_ok_def)
  moreover have "CHR '' '' \<notin> set name" using assms(1) word_chars by (simp add: prototype_ok_def)
  ultimately have "but_last_word (echo h) = join CHR '' '' ret" "last_word (echo h) = name"
    by (simp_all add: h_def but_last_word_snoc last_word_snoc)
  then show "echo (rw_prototype (parse_row line)) = print_prototype ret name ps variadic"
    "rw_ret (parse_row line) = join CHR '' '' ret" "rw_name (parse_row line) = name"
    by (simp_all add: parse_row_def Let_def proto [simplified] pe rn [simplified] p_def [symmetric])
qed

lemma prototype_dots:
  assumes "prototype_ok ret name ps"
  shows "grep_F ''...'' (print_prototype ret name ps variadic) \<longleftrightarrow> variadic"
proof -
  define h where "h = join CHR '' '' ret @ CHR '' '' # name @ ''(''"
  have o: "outside CHR ''.''" by (simp add: outside_def)
  have h: "CHR ''.'' \<notin> set h"
    using assms outside_word [OF o] outside_words [OF o] by (simp add: h_def prototype_ok_def)
  have p: "print_prototype ret name ps variadic = h @ print_list (print_pieces ps variadic)"
    using assms by (simp add: print_prototype_eq prototype_ok_def h_def)
  show ?thesis
  proof (cases variadic)
    case True
    have "sublist ''...'' (print_list (qs @ [''...'']))" for qs
    proof (induction qs)
      case Nil
      have "sublist ''...'' (''...'' @ '')'')" by (rule sublist_append_rightI)
      then show ?case by (simp add: print_list_def)
    next
      case (Cons q qs)
      have "\<exists>v vs. qs @ [''...''] = v # vs" by (cases qs) auto
      then obtain v vs where v: "qs @ [''...''] = v # vs" by auto
      have "sublist (print_list (v # vs)) ((q @ '', '') @ print_list (v # vs))" by (rule sublist_append_leftI)
      with Cons v show ?case by (simp add: print_list_Cons2)
    qed
    then have "sublist ''...'' (print_list (print_pieces ps variadic))" by (simp add: print_pieces_def True)
    then show ?thesis unfolding grep_F_iff p using True by (metis sublist_append_leftI sublist_order.order.trans)
  next
    case False
    have "CHR ''.'' \<notin> set (print_list (print_pieces ps variadic))"
      using params_outside [OF o, of ps] assms False
      by (intro outside_print_list) (auto simp: print_pieces_def prototype_ok_def)
    with h have "CHR ''.'' \<notin> set (h @ print_list (print_pieces ps variadic))" by simp
    then have "\<not> grep_F ''...'' (print_prototype ret name ps variadic)" unfolding p by (rule not_grep_dots)
    with False show ?thesis by simp
  qed
qed

text \<open>The call in the wrapper of any prototype.\<close>

definition wrapper_call :: "string list \<Rightarrow> string \<Rightarrow> param list \<Rightarrow> bool \<Rightarrow> bool \<Rightarrow> string" where
  "wrapper_call ret name ps variadic opens =
     (if ret = [''void''] then ''   orig_''
      else ''   '' @ join CHR '' '' ret @ '' result = orig_'' @ (if variadic \<and> \<not> opens then ''v'' else [])) @
     name @ ''('' @ join CHR '','' (argument_names opens ps variadic) @ '');''"

lemma original_call_prototype:
  assumes "prototype_ok ret name ps" and "line = print_prototype ret name ps variadic @ '' |'' @ rest"
  shows "original_call (parse_row line) =
    wrapper_call ret name ps variadic (grep_F ''open'' (print_prototype ret name ps variadic))"
proof -
  define r where "r = parse_row line"
  define h where "h = join CHR '' '' ret @ CHR '' '' # name"
  note p = parse_row_prototype [OF assms, folded r_def]
  have opens: "is_open_call r = grep_F ''open'' (print_prototype ret name ps variadic)"
    and var: "is_variadic r = variadic"
    using p(1) prototype_dots [OF assms(1)] by (simp_all add: is_open_call_def is_variadic_def)
  have o: "outside CHR ''(''" by (simp add: outside_def)
  have "CHR ''('' \<notin> set h"
    using assms(1) outside_word [OF o] outside_words [OF o] by (simp add: h_def prototype_ok_def)
  then have "cut_from CHR ''('' 2 (echo (rw_prototype r)) = print_list (print_pieces ps variadic)"
    using cut_from_second [of "CHR ''(''" h] assms(1)
    by (simp add: p(1) print_prototype_eq prototype_ok_def h_def)
  then have args: "call_arguments r = join CHR '','' (argument_names (is_open_call r) ps variadic) @ '')''"
    using print_list_arguments [of ps r variadic] assms(1) by (simp add: call_arguments_def prototype_ok_def)
  have "(join CHR '' '' ret = ''void'') = (ret = [''void''])"
  proof
    assume v: "join CHR '' '' ret = ''void''"
    have "split_line CHR '' '' (join CHR '' '' ret) = ret"
      using assms(1) word_chars(1) by (intro split_line_join) (auto simp: prototype_ok_def list_all_iff)
    with v show "ret = [''void'']" by simp
  qed simp
  then show ?thesis
    by (cases variadic) (simp_all add: original_call_def wrapper_call_def r_def [symmetric] p(2,3) var args opens)
qed

end
