(* ===== verification/Wrapper_Facts.thy ===== *)
theory Wrapper_Facts
imports Hook_Analysis Interposer_Calls
begin

text \<open>
  Facts about the wrappers of the functions in \<open>monitored_functions.data\<close>, from the table of their
  programs: they are well typed, and the conditions under which they report an error.
\<close>

section \<open>The program of a row\<close>

lemma row_code:
  assumes "r \<in> set (rows_of monitored_functions)"
  obtains c where "code_of r = Some c" "(rw_name r, c) \<in> set code_table"
proof -
  have "(rw_name r, code_of r) \<in> set (map (\<lambda>(n, c). (n, Some c)) code_table)"
    unfolding code_table [symmetric] using assms by simp
  then show ?thesis using that by auto
qed

lemma code_of_fields:
  assumes "code_of r = Some c"
  shows "cd_exec c = is_exec_call r" "cd_fd c = recorded_fd r" "cd_count c = recorded_count r"
    "cd_s1 c = echo (rw_s1 r)" "cd_s2 c = echo (rw_s2 r)"
  using assms by (auto simp: code_of_def split: option.splits if_splits)

section \<open>Types\<close>

text \<open>The variables in scope when the hook begins.\<close>

definition wrapper_typing :: "code \<Rightarrow> typing" where
  "wrapper_typing c =
     (let \<Gamma> = (map_of (cd_params c))(''error_code'' \<mapsto> Arith Int32)
      in if cd_exec c then \<Gamma> else case cd_ret c of None \<Rightarrow> \<Gamma> | Some \<tau> \<Rightarrow> \<Gamma>(''result'' \<mapsto> \<tau>))"

definition string_typed :: "typing \<Rightarrow> string \<Rightarrow> bool" where
  "string_typed \<Gamma> x \<longleftrightarrow>
     x = ''NULL'' \<or> (case \<Gamma> x of Some (Ptr k) \<Rightarrow> k = Char_ptr | Some (Chars n) \<Rightarrow> True | _ \<Rightarrow> False)"

definition code_typed :: "code \<Rightarrow> bool" where
  "code_typed c \<longleftrightarrow>
     (case check_list (wrapper_typing c) (cd_hook c) of
        None \<Rightarrow> False
      | Some \<Gamma> \<Rightarrow> int_typed \<Gamma> (Var (cd_fd c)) \<and> (cd_count c = ''count'' \<longrightarrow> int_typed \<Gamma> (Var ''count'')) \<and>
          int_typed \<Gamma> (Var ''error_code'') \<and> string_typed \<Gamma> (cd_s1 c) \<and> string_typed \<Gamma> (cd_s2 c))"

lemma codes_typed: "list_all (\<lambda>(n, c). code_typed c) code_table"
  by code_simp

definition args_ok :: "code \<Rightarrow> cval list \<Rightarrow> bool" where
  "args_ok c vs \<longleftrightarrow> list_all2 (\<lambda>(x, \<tau>) v. val_ok \<tau> v) (cd_params c) vs"

definition outcome_ok :: "code \<Rightarrow> outcome \<Rightarrow> bool" where
  "outcome_ok c oc \<longleftrightarrow> rel_option val_ok (cd_ret c) (oc_result oc) \<and> int32 (oc_errno oc) = oc_errno oc \<and>
     (\<forall>h fd. oc_streams oc h = Some fd \<longrightarrow> int32 fd = fd)"

text \<open>A call as the compiler and the C library allow it.\<close>

definition call_ok :: "code \<Rightarrow> 'w invocation \<Rightarrow> bool" where
  "call_ok c cl \<longleftrightarrow> args_ok c (cl_args cl) \<and> (\<forall>w. outcome_ok c (fst (cl_orig cl w))) \<and>
     int32 (oc_errno (cl_before cl)) = oc_errno (cl_before cl) \<and>
     (\<forall>h fd. oc_streams (cl_before cl) h = Some fd \<longrightarrow> int32 fd = fd)"

lemma bind_params_conforms:
  assumes "list_all2 (\<lambda>(x, \<tau>) v. val_ok \<tau> v) ps vs"
  shows "rel_option slot_ok (map_of ps x) (bind_params ps vs x)"
  using assms
proof (induction ps vs rule: list_all2_induct)
  case (Cons p ps v vs)
  obtain y \<tau> where p: "p = (y, \<tau>)" by fastforce
  with Cons have "slot_ok \<tau> (Scalar \<tau> (Some v))" by (cases \<tau>) simp_all
  with Cons p show ?case by (simp add: bind_params_def)
qed (simp add: bind_params_def)

lemma wrapper_vars_conform:
  assumes "args_ok c vs" "int32 (error_code_init P) = error_code_init P"
    and "if cd_exec c then res = None else rel_option val_ok (cd_ret c) res"
  shows "conforms (wrapper_typing c) (wrapper_vars P c vs res)"
proof -
  have 1: "conforms ((map_of (cd_params c))(''error_code'' \<mapsto> Arith Int32))
      ((bind_params (cd_params c) vs)(''error_code'' \<mapsto> Scalar (Arith Int32) (Some (VInt Int32 (error_code_init P)))))"
    using bind_params_conforms assms(1,2) by (simp add: conforms_def args_ok_def)
  show ?thesis
  proof (cases "cd_exec c")
    case True
    with 1 assms(3) show ?thesis by (cases "cd_ret c") (simp_all add: wrapper_typing_def wrapper_vars_def Let_def)
  next
    case False
    show ?thesis
    proof (cases "cd_ret c")
      case None
      with 1 False show ?thesis by (simp add: wrapper_typing_def wrapper_vars_def)
    next
      case (Some \<tau>)
      then obtain v where v: "res = Some v" "val_ok \<tau> v" using assms(3) False by (auto simp: option_rel_Some1)
      then have "slot_ok \<tau> (Scalar \<tau> (Some v))" by (cases \<tau>) simp_all
      from conforms_upd [OF 1 this, of "''result''"] Some False v(1) show ?thesis
        by (simp add: wrapper_typing_def wrapper_vars_def Let_def)
    qed
  qed
qed

lemma string_arg_sound:
  assumes "string_typed \<Gamma> x" "conforms \<Gamma> \<sigma>"
  shows "sound (\<lambda>_. True) (string_arg \<sigma> x)"
proof (cases "x = ''NULL''")
  case False
  consider "\<Gamma> x = Some (Ptr Char_ptr)" | n where "\<Gamma> x = Some (Chars n)"
    using assms(1) False by (auto simp: string_typed_def split: option.splits vtype.splits)
  then show ?thesis
  proof cases
    case 1
    obtain sl where "\<sigma> x = Some sl" "slot_ok (Ptr Char_ptr) sl" by (rule conforms_var [OF assms(2) 1])
    with False show ?thesis
      by (cases sl) (auto simp: string_arg_def split: option.splits cval.splits pointer.splits)
  next
    case 2
    obtain sl where "\<sigma> x = Some sl" "slot_ok (Chars n) sl" by (rule conforms_var [OF assms(2) 2])
    with False show ?thesis by (cases sl) (auto simp: string_arg_def split: option.splits)
  qed
qed (simp add: string_arg_def)

lemma record_scope_sound:
  assumes "conforms \<Gamma> \<sigma>" "env_ok E" "int_typed \<Gamma> (Var (cd_fd c))" "int_typed \<Gamma> (Var ''error_code'')"
    "cd_count c = ''count'' \<longrightarrow> int_typed \<Gamma> (Var ''count'')" "string_typed \<Gamma> (cd_s1 c)" "string_typed \<Gamma> (cd_s2 c)"
  shows "sound (\<lambda>_. True) (record_scope E c \<sigma>)"
  unfolding record_scope_def
proof (rule sound_bind [OF eval_int_sound [OF assms(3,1,2)]], rule sound_bind [OF string_arg_sound [OF assms(6,1)]],
    rule sound_bind [OF string_arg_sound [OF assms(7,1)]], rule sound_bind [OF eval_int_sound [OF assms(4,1,2)]])
  fix fd s1 s2 err
  have "sound (\<lambda>_. True) (if cd_count c = ''count'' then eval_int E \<sigma> Int64 (Var ''count'') else Inr 0)"
    using eval_int_sound [OF _ assms(1,2), of "Var ''count''" Int64] assms(5) by (auto simp: sound_def split: sum.splits)
  then show "sound (\<lambda>_. True)
     (bindR (if cd_count c = ''count'' then eval_int E \<sigma> Int64 (Var ''count'') else Inr 0)
       (\<lambda>count. Inr \<lparr>sc_int = \<lambda>x. if x = ''fd'' then fd else if x = ''count'' then count else err,
                       sc_str = \<lambda>x. if x = cd_s1 c then s1 else s2\<rparr>))"
    by (rule sound_bind) simp
qed

section \<open>Hook and record\<close>

lemma http_scan_formed: "http_scan data count i line b1 b2 \<noteq> Inl IllFormed"
proof (induction data count i line b1 b2 rule: http_scan.induct)
  case (1 data count i line b1 b2)
  then show ?case by (subst http_scan.simps) (simp add: Let_def)
qed

lemma check_for_http_formed:
  assumes "\<And>e mw. rec e mw \<noteq> Inl IllFormed"
  shows "check_for_http rec dm fd data count s e mw \<noteq> Inl IllFormed"
  using http_scan_formed [of data count 0 0 "[]" "[]"] assms
  by (auto simp: check_for_http_def http_event_def http_operation_def bindR_eq_Inl split: option.splits if_splits prod.splits)

lemma wrapper_env_ok:
  assumes "int32 (oc_errno oc) = oc_errno oc" "\<forall>h fd. oc_streams oc h = Some fd \<longrightarrow> int32 fd = fd"
    and "\<And>e mw. rec e mw \<noteq> Inl IllFormed" "\<And>mw. ini mw \<noteq> Inl IllFormed"
  shows "env_ok (wrapper_env rec ini oc t0 t1)"
  using assms check_for_http_formed [of rec, OF assms(3)]
  by (auto simp: env_ok_def wrapper_env_def http_hook_def split: pointer.splits)

lemma rows_typed:
  assumes "r \<in> set (rows_of monitored_functions)"
  shows "row_event P r sc t0 t1 \<noteq> None"
proof -
  have "list_all (\<lambda>(n, d, op, f, c). List.member domains_names d \<and> List.member ops_names op) wrapper_table"
    unfolding domains_names_eq ops_names_eq by code_simp
  moreover have "row_summary r \<in> set wrapper_table"
    using assms by (simp flip: rows_table)
  ultimately have "echo (rw_domain r) \<in> set domains_names" "echo (rw_op r) \<in> set ops_names"
    by (auto simp: list_all_iff row_summary_def)
  then show ?thesis
    using domain_named_defined op_named_defined by (force simp: row_event_def Let_def split: option.splits)
qed

lemma hook_and_event_sound:
  assumes "r \<in> set (rows_of monitored_functions)" "code_of r = Some c" "env_ok E" "conforms (wrapper_typing c) \<sigma>"
  shows "sound (\<lambda>_. True) (hook_and_event P E r c \<sigma> t0 t1 mw)"
proof -
  obtain c' where "code_of r = Some c'" "(rw_name r, c') \<in> set code_table" by (rule row_code [OF assms(1)])
  then have "code_typed c" using codes_typed assms(2) by (auto simp: list_all_iff)
  then obtain \<Gamma> where g: "check_list (wrapper_typing c) (cd_hook c) = Some \<Gamma>" "int_typed \<Gamma> (Var (cd_fd c))"
      "cd_count c = ''count'' \<longrightarrow> int_typed \<Gamma> (Var ''count'')" "int_typed \<Gamma> (Var ''error_code'')"
      "string_typed \<Gamma> (cd_s1 c)" "string_typed \<Gamma> (cd_s2 c)"
    by (auto simp: code_typed_def split: option.splits)
  have "sound (\<lambda>_. True) (record_call P E r c \<sigma>' t0 t1)" if "conforms \<Gamma> \<sigma>'" for \<sigma>'
    unfolding record_call_def
    by (rule sound_bind [OF record_scope_sound [OF that assms(3) g(2,4,3,5,6)]])
      (use rows_typed [OF assms(1)] in \<open>auto split: option.splits\<close>)
  then show ?thesis unfolding hook_and_event_def
    by (intro sound_bind [OF exec_sound(2) [OF g(1) assms(4,3)]]) (auto intro!: sound_bind)
qed

text \<open>The variants of \<open>exec\<close>, and the wrappers the helpers behind three of them reach.\<close>

lemma exec_types:
  "list_all (\<lambda>(n, c). cd_exec c \<longrightarrow> cd_ret c = Some (Arith Int32) \<and>
     map snd (cd_params c) =
       (if List.member [''execl'', ''execlp'', ''execle''] n then [Ptr Char_ptr, Ptr Char_ptr]
        else if n = ''execvpe'' then [Ptr Char_ptr, Ptr Other_ptr, Ptr Other_ptr]
        else [Ptr Char_ptr, Ptr Other_ptr])) code_table"
  by code_simp

lemma exec_target_names: "list_all (\<lambda>n. List.member (map fst (filter (\<lambda>(n, c). cd_exec c) code_table)) n) [''execv'', ''execvp'', ''execvpe'']"
  by code_simp

lemma row_named_code:
  assumes "(n, c) \<in> set code_table"
  obtains r where "row_named n = Some r" "r \<in> set (rows_of monitored_functions)" "rw_name r = n"
proof -
  have "(n, Some c) \<in> set (map (\<lambda>r. (rw_name r, code_of r)) (rows_of monitored_functions))"
    unfolding code_table using assms by (auto intro!: image_eqI [where x = "(n, c)"])
  then have "row_named n \<noteq> None" by (auto simp: row_named_def find_None_iff)
  then obtain r where r: "row_named n = Some r" by auto
  then have "r \<in> set (rows_of monitored_functions)" "rw_name r = n"
    by (auto simp: row_named_def find_Some_iff)
  with r show ?thesis by (rule that)
qed

lemma exec_row:
  assumes "r \<in> set (rows_of monitored_functions)" "code_of r = Some c" "cd_exec c"
  shows "cd_ret c = Some (Arith Int32)"
    "exec_helper (rw_name r) \<noteq> None \<Longrightarrow> map snd (cd_params c) = [Ptr Char_ptr, Ptr Char_ptr]"
    "rw_name r = ''execv'' \<or> rw_name r = ''execvp'' \<Longrightarrow> map snd (cd_params c) = [Ptr Char_ptr, Ptr Other_ptr]"
    "rw_name r = ''execvpe'' \<Longrightarrow> map snd (cd_params c) = [Ptr Char_ptr, Ptr Other_ptr, Ptr Other_ptr]"
proof -
  obtain c' where "code_of r = Some c'" "(rw_name r, c') \<in> set code_table" by (rule row_code [OF assms(1)])
  then have "(rw_name r, c) \<in> set code_table" using assms(2) by simp
  from bspec [OF exec_types [unfolded list_all_iff] this] assms(3)
  show "cd_ret c = Some (Arith Int32)"
    "exec_helper (rw_name r) \<noteq> None \<Longrightarrow> map snd (cd_params c) = [Ptr Char_ptr, Ptr Char_ptr]"
    "rw_name r = ''execv'' \<or> rw_name r = ''execvp'' \<Longrightarrow> map snd (cd_params c) = [Ptr Char_ptr, Ptr Other_ptr]"
    "rw_name r = ''execvpe'' \<Longrightarrow> map snd (cd_params c) = [Ptr Char_ptr, Ptr Other_ptr, Ptr Other_ptr]"
    by (auto simp: exec_helper_def split: if_splits)
qed

lemma exec_target_row:
  assumes "exec_target call = (n, vs)"
  obtains r c where "row_named n = Some r" "r \<in> set (rows_of monitored_functions)" "rw_name r = n"
    "code_of r = Some c" "cd_exec c" "exec_helper n = None"
proof -
  have n: "n \<in> set [''execv'', ''execvp'', ''execvpe'']" using assms by (cases call) auto
  with exec_target_names obtain c where c: "(n, c) \<in> set code_table" "cd_exec c" by (auto simp: list_all_iff)
  obtain r where r: "row_named n = Some r" "r \<in> set (rows_of monitored_functions)" "rw_name r = n"
    by (rule row_named_code [OF c(1)])
  obtain c' where c': "code_of r = Some c'" "(n, c') \<in> set code_table" using row_code [OF r(2)] r(3) by metis
  have "distinct (map fst code_table)" by code_simp
  from map_of_is_SomeI [OF this c(1)] map_of_is_SomeI [OF this c'(2)] c(2) have "cd_exec c'" by simp
  moreover have "exec_helper n = None" using n by (auto simp: exec_helper_def)
  ultimately show ?thesis using that r c'(1) by blast
qed

lemma exec_target_args:
  assumes "exec_target call = (n, vs)" "row_named n = Some r" "r \<in> set (rows_of monitored_functions)" "rw_name r = n"
    and "code_of r = Some c" "cd_exec c"
    and "case call of Execv p vs \<Rightarrow> ptr_ok Char_ptr p | Execvp p vs \<Rightarrow> ptr_ok Char_ptr p | Execvpe p vs e \<Rightarrow> ptr_ok Char_ptr p"
  shows "args_ok c vs"
proof -
  note t = exec_row(3,4) [OF assms(3,5,6), unfolded assms(4)]
  have *: "list_all2 (\<lambda>(x, \<tau>) v. val_ok \<tau> v) ps vs = list_all2 val_ok (map snd ps) vs" for ps vs
    by (simp add: list_all2_map1 case_prod_unfold)
  show ?thesis using assms(1,7) t by (cases call) (auto simp: args_ok_def *)
qed

text \<open>A wrapper that comes back has run its hook and recorded one event more than the hook has; its result
  is the one of the original function.\<close>

lemma wrapper_body_sound:
  assumes "r \<in> set (rows_of monitored_functions)" "code_of r = Some c" "args_ok c (cl_args cl)"
    "int32 (oc_errno (cl_before cl)) = oc_errno (cl_before cl)"
    "\<forall>h fd. oc_streams (cl_before cl) h = Some fd \<longrightarrow> int32 fd = fd"
    "int32 (error_code_init P) = error_code_init P"
    "\<And>e mw. rec e mw \<noteq> Inl IllFormed" "\<And>mw. ini mw \<noteq> Inl IllFormed"
    "\<And>mw. sound (\<lambda>(oc, mw'). outcome_ok c oc \<and> Q (snd mw) oc) (orig mw)"
  shows "sound (\<lambda>(oc, mw'). outcome_ok c oc \<and> (\<exists>w. Q w oc \<and> (\<not> cd_exec c \<longrightarrow> w = snd mw))) (wrapper_body P rec ini r cl orig mw)"
proof -
  have s: "sound (\<lambda>_. True) (hook_and_event P (wrapper_env rec ini oc t0 t1) r c (wrapper_vars P c (cl_args cl) res) t0 t1 mw)"
    if "if cd_exec c then res = None \<and> oc = cl_before cl else res = oc_result oc \<and> outcome_ok c oc" for oc res t0 t1 mw
  proof (rule hook_and_event_sound [OF assms(1,2)])
    show "env_ok (wrapper_env rec ini oc t0 t1)"
      using that assms(4,5,7,8) by (intro wrapper_env_ok) (auto simp: outcome_ok_def split: if_splits)
    show "conforms (wrapper_typing c) (wrapper_vars P c (cl_args cl) res)"
      using that by (intro wrapper_vars_conform [OF assms(3,6)]) (auto simp: outcome_ok_def split: if_splits)
  qed
  have rec: "sound (\<lambda>_. True) (rec e mw)" for e mw by (rule sound_call [OF assms(7)])
  have weak: "sound (\<lambda>(oc, mw'). outcome_ok c oc \<and> (\<exists>w. Q w oc)) (orig mw)" for mw
    using assms(9) [of mw] by (cases "orig mw") auto
  show ?thesis
  proof (cases "cd_exec c")
    case True
    then show ?thesis
      by (auto simp: wrapper_body_def assms(2) Let_def intro!: sound_bind [OF s] sound_bind [OF rec] weak)
  next
    case False
    show ?thesis
      unfolding wrapper_body_def assms(2) option.case Let_def
      by (simp add: False) (auto simp: False intro!: sound_bind [OF assms(9)] sound_bind [OF s] sound_bind [OF rec])
  qed
qed

lemma original_function_sound:
  assumes "r \<in> set (rows_of monitored_functions)" "code_of r = Some c" "call_ok c cl"
    "int32 (error_code_init P) = error_code_init P"
    "\<And>e mw. rec e mw \<noteq> Inl IllFormed" "\<And>mw. ini mw \<noteq> Inl IllFormed"
  shows "sound (\<lambda>(oc, mw'). outcome_ok c oc \<and> (\<exists>w. oc = fst (cl_orig cl w) \<and> (\<not> cd_exec c \<longrightarrow> w = snd mw)))
    (original_function P rec ini r cl mw)"
proof -
  note call = assms(3) [unfolded call_ok_def]
  have lib: "sound (\<lambda>(oc, mw'). outcome_ok c oc \<and> oc = fst (cl_orig cl (snd mw))) (library_call cl mw)" for mw
    using call by (cases mw) (auto simp: library_call_def split: prod.splits dest: spec [of _ "snd mw"])
  show ?thesis
  proof (cases "if is_exec_call r then exec_helper (rw_name r) else None")
    case None
    with lib [of mw] show ?thesis by (cases "library_call cl mw") (auto simp: original_function_def)
  next
    case (Some helper)
    then have ex: "is_exec_call r" "exec_helper (rw_name r) = Some helper" by (auto split: if_splits)
    have c: "cd_exec c" using ex(1) code_of_fields(1) [OF assms(2)] by simp
    note row = exec_row(1,2) [OF assms(1,2) c]
    obtain x y where "cd_params c = [(x, Ptr Char_ptr), (y, Ptr Char_ptr)]" using row(2) ex(2) by (cases "cd_params c") auto
    then obtain path arg where args: "cl_args cl = [VPtr path, VPtr arg]" "ptr_ok Char_ptr path"
      using call by (auto simp: args_ok_def list_all2_Cons1 elim!: val_ok.elims)
    have body: "sound (\<lambda>(oc, mw'). outcome_ok c oc \<and> (\<exists>w. oc = fst (cl_orig cl w)))
        (case exec_target k of (n, vs) \<Rightarrow> case row_named n of None \<Rightarrow> Inl IllFormed
          | Some r' \<Rightarrow> wrapper_body P rec ini r' (cl\<lparr>cl_args := vs, cl_more := []\<rparr>) (library_call cl) mw)"
      if k: "helper path q (cl_more cl) = Inr k" for q k
    proof -
      have p: "case k of Execv p vs \<Rightarrow> ptr_ok Char_ptr p | Execvp p vs \<Rightarrow> ptr_ok Char_ptr p | Execvpe p vs e \<Rightarrow> ptr_ok Char_ptr p"
        using k ex(2) args(2) by (auto simp: exec_helper_def orig_vexecl_def orig_vexeclp_def orig_vexecle_def Let_def split: if_splits)
      obtain n vs where t: "exec_target k = (n, vs)" by fastforce
      obtain r' c' where r': "row_named n = Some r'" "r' \<in> set (rows_of monitored_functions)" "rw_name r' = n"
        "code_of r' = Some c'" "cd_exec c'" by (rule exec_target_row [OF t])
      have same: "outcome_ok c' oc = outcome_ok c oc" for oc
        using row(1) exec_row(1) [OF r'(2,4,5)] by (simp add: outcome_ok_def)
      have "sound (\<lambda>(oc, mw'). outcome_ok c' oc \<and> (\<exists>w. oc = fst (cl_orig cl w) \<and> (\<not> cd_exec c' \<longrightarrow> w = snd mw)))
          (wrapper_body P rec ini r' (cl\<lparr>cl_args := vs, cl_more := []\<rparr>) (library_call cl) mw)"
        using call exec_target_args [OF t r' p] lib
        by (intro wrapper_body_sound [OF r'(2,4) _ _ _ assms(4-6)]) (simp_all add: same)
      then show ?thesis
        by (cases "wrapper_body P rec ini r' (cl\<lparr>cl_args := vs, cl_more := []\<rparr>) (library_call cl) mw") (auto simp: t r'(1) same)
    qed
    have formed: "helper path q (cl_more cl) \<noteq> Inl IllFormed" for q
      using ex(2) by (auto simp: exec_helper_def orig_vexecl_def orig_vexeclp_def orig_vexecle_def va_list_to_table_def Let_def
          bindR_eq_Inl split: if_splits)
    show ?thesis
      using body formed [of "if arg = Null then None else Some arg"] c
      by (cases "helper path (if arg = Null then None else Some arg) (cl_more cl)")
        (simp_all add: original_function_def ex args split del: if_split)
  qed
qed

lemma run_wrapper_sound:
  assumes "r \<in> set (rows_of monitored_functions)" "code_of r = Some c" "call_ok c cl"
    "int32 (error_code_init P) = error_code_init P"
    "\<And>e mw. rec e mw \<noteq> Inl IllFormed" "\<And>mw. ini mw \<noteq> Inl IllFormed"
  shows "sound (\<lambda>(v, mw'). \<exists>w. v = oc_result (fst (cl_orig cl w)) \<and> (\<not> cd_exec c \<longrightarrow> w = snd mw))
    (run_wrapper P rec ini r cl mw)"
proof -
  have "sound (\<lambda>(oc, mw'). outcome_ok c oc \<and> (\<exists>w. (\<exists>w1. oc = fst (cl_orig cl w1) \<and> (\<not> cd_exec c \<longrightarrow> w1 = w)) \<and> (\<not> cd_exec c \<longrightarrow> w = snd mw)))
      (wrapper_body P rec ini r cl (original_function P rec ini r cl) mw)"
    using assms(3) original_function_sound [OF assms]
    by (intro wrapper_body_sound [OF assms(1,2) _ _ _ assms(4-6)]) (simp_all add: call_ok_def)
  then show ?thesis unfolding run_wrapper_def by (rule sound_bind) auto
qed

end
