(* ===== verification/Wrapper_Properties.thy ===== *)
theory Wrapper_Properties
imports Monitor_Properties Wrapper_Facts Listener_Loop
begin

text \<open>
  Properties of the generated wrappers and of the detection of HTTP messages, and what the rows of
  \<open>open\<close> and \<open>fclose\<close> mean for the listener.
\<close>

section \<open>All wrappers\<close>

lemma wrapper_names: "map rw_name (rows_of monitored_functions) = map fst wrapper_table"
proof -
  have "map rw_name (rows_of monitored_functions) = map fst (map row_summary (rows_of monitored_functions))"
    by (simp add: row_summary_def comp_def)
  then show ?thesis by (simp only: rows_table)
qed

text \<open>The generator makes well-formed wrappers. Of the lines of \<open>monitored_functions.data\<close> it makes
  one wrapper each, for functions of different names; the call of \<open>record\<close> in every wrapper names an
  enumerator of \<open>domains.h\<close> and one of \<open>ops.h\<close>, and otherwise only parameters, variables of the hook and
  the constants of the monitor; and the wrappers that hand their arguments on as a \<open>va_list\<close> are exactly
  those five whose \<open>v\<close> function exists: it is in the table, or one of the three that \<open>io_monitor.c\<close> defines.\<close>

theorem generated_wrappers_typed:
  "distinct (map (\<lambda>(n, r). rw_name r) (data_rows monitored_functions)) \<and>
   list_all (\<lambda>(n, r). well_scoped r \<and> row_event P r sc t0 t1 \<noteq> None \<and>
      needs_va_list r = List.member va_list_names (rw_name r))
    (data_rows monitored_functions) \<and>
   list_all (\<lambda>n. List.member (map (\<lambda>(n, r). rw_name r) (data_rows monitored_functions)) (CHR ''v'' # n) \<or>
      List.member [''execl'', ''execlp'', ''execle''] n) va_list_names"
proof -
  have "distinct (map fst wrapper_table)" by code_simp
  then have "distinct (map rw_name (map snd (data_rows monitored_functions)))"
    by (simp only: data_rows_rows wrapper_names)
  moreover have "list_all (\<lambda>r. well_scoped r \<and> row_event P r sc t0 t1 \<noteq> None \<and>
      needs_va_list r = List.member va_list_names (rw_name r)) (map snd (data_rows monitored_functions))"
    using rows_well_scoped rows_typed rows_va_list unfolding data_rows_rows list_all_iff by blast
  moreover have "list_all (\<lambda>n. List.member (map fst wrapper_table) (CHR ''v'' # n) \<or>
      List.member [''execl'', ''execlp'', ''execle''] n) va_list_names" by code_simp
  moreover have "map (\<lambda>(n, r). rw_name r) (data_rows monitored_functions) = map fst wrapper_table"
    using wrapper_names by (simp only: flip: data_rows_rows) (simp add: comp_def case_prod_unfold)
  ultimately show ?thesis by (simp add: list.pred_map comp_def case_prod_unfold)
qed

section \<open>The arguments of a wrapper\<close>

text \<open>C25: a wrapper hands on what it got. For every line that begins with a prototype of C in the style
  of the file -- words of a return type, a name, parameters of type words and a name, perhaps an array,
  and perhaps three dots -- the generated call of the original function passes the names of the
  parameters, each once and in their order; for three dots it passes the mode of an \<open>open\<close>, or else a
  \<open>va_list\<close> to the \<open>v\<close> variant; and it keeps the result unless the return type is \<open>void\<close>.\<close>

theorem wrapper_hands_on_arguments:
  assumes "prototype_ok ret name ps" "line = print_prototype ret name ps variadic @ '' |'' @ rest"
  shows "original_call (parse_row line) =
    (if ret = [''void''] then ''   orig_''
     else ''   '' @ join CHR '' '' ret @ '' result = orig_'' @
       (if variadic \<and> \<not> grep_F ''open'' (print_prototype ret name ps variadic) then ''v'' else [])) @
    name @ ''('' @
    join CHR '','' (map (\<lambda>(ws, n, arr). n) ps @
      (if variadic then [if grep_F ''open'' (print_prototype ret name ps variadic) then ''mode'' else ''args''] else [])) @
    '');''"
  using original_call_prototype [OF assms] by (simp add: wrapper_call_def argument_names_def case_prod_unfold)

theorem wrapper_hands_on_arguments_witness:
  "original_call (parse_row ''int open(const char* pathname, int flags, ...) |FILE_OPEN_CLOSE | OPEN | pathname | NULL | '') =
     ''   int result = orig_open(pathname,flags,mode);''"
proof -
  have "prototype_ok [''int''] ''open'' [([''const'', ''char*''], ''pathname'', False), ([''int''], ''flags'', False)]"
    by (simp add: prototype_ok_def param_ok_def word_def)
  from wrapper_hands_on_arguments [OF this refl, of True "''FILE_OPEN_CLOSE | OPEN | pathname | NULL | ''"]
  show ?thesis by (simp add: print_prototype_def print_pieces_def print_param_def grep_F_def)
qed

section \<open>Files without a descriptor\<close>

text \<open>C26: of the eight functions recorded as an OPEN or a CLOSE, five record no descriptor: every
  \<open>open\<close> and \<open>creat\<close>, and \<open>fclose\<close>. Only \<open>fopen\<close> and \<open>close\<close> tell the listener which descriptor they
  mean, so a file opened with \<open>fopen\<close> and closed with \<open>fclose\<close> stays registered. The next file to get
  its number is opened without one, and a read of it is given the device of the file that was closed.\<close>

theorem stale_device_after_fclose:
  assumes "resolver_ok r" "fd \<noteq> FD_NONE" "p \<noteq> []" "length p < PATH_MAX" "length q < PATH_MAX"
    and "row_event P fopen_row (sc 0) (t 0) (t 1) = Some e0" "sc_str (sc 0) ''path'' = Some p" "sc_int (sc 0) ''fd'' = fd"
    and "row_event P fclose_row (sc 1) (t 2) (t 3) = Some e1"
    and "row_event P open_row (sc 2) (t 4) (t 5) = Some e2" "sc_str (sc 2) ''pathname'' = Some q"
    and "row_event P read_row (sc 3) (t 6) (t 7) = Some e3" "sc_int (sc 3) ''fd'' = fd"
  shows "map (\<lambda>w. (fst w, fst (snd (snd (snd w))))) (filter (\<lambda>w. fst (snd (snd w)) \<in> {''OPEN'', ''CLOSE''}) wrapper_table) =
      [(''open'', ''FD_NONE''), (''open64'', ''FD_NONE''), (''fopen'', ''fd''), (''fopen64'', ''fd''),
       (''creat'', ''FD_NONE''), (''creat64'', ''FD_NONE''), (''fclose'', ''FD_NONE''), (''close'', ''fd'')] \<and>
    (\<exists>outs r'. run track_record (map (make_record P w m) [e0, e1, e2, e3]) r = Inr (outs, r') \<and>
       mr_s1 (outs ! 2) = q \<and> mr_device (outs ! 2) = [] \<and>
       mr_device (outs ! 3) = take DEVICE_LEN (path_to_dev p r) \<and>
       fd_map r' fd = Some (path_to_dev p r))"
proof -
  define R where "R e = make_record P w m e" for e
  define M where "M = fd_map r"
  have e0: "ev_dom_type e0 = FILE_OPEN_CLOSE \<and> ev_op_type e0 = OPEN \<and> ev_fd e0 = fd \<and> ev_s1 e0 = Some p"
    using assms(6-8) by (auto simp: row_events named_eval row_strings)
  have e1: "ev_dom_type e1 = FILE_OPEN_CLOSE \<and> ev_op_type e1 = CLOSE \<and> ev_fd e1 = FD_NONE"
    using assms(9) by (auto simp: row_events named_eval row_strings)
  have e2: "ev_dom_type e2 = FILE_OPEN_CLOSE \<and> ev_op_type e2 = OPEN \<and> ev_fd e2 = FD_NONE \<and> ev_s1 e2 = Some q"
    using assms(10,11) by (auto simp: row_events named_eval row_strings)
  have e3: "ev_dom_type e3 = FILE_READ \<and> ev_op_type e3 = READ \<and> ev_fd e3 = fd"
    using assms(12,13) by (auto simp: row_events named_eval row_strings)
  have short: "length (mr_s1 (R e)) < PATH_MAX" for e
    using make_record_terminated [of P w m e] by (simp add: R_def terminated_record_def)
  obtain r0 where 0: "track_record (R e0) r = Inr (spec_device (R e0) (M(fd \<mapsto> path_to_dev p r)), r0)"
    "resolver_ok r0" "fd_map r0 = M(fd \<mapsto> path_to_dev p r)"
    using track_record_ok [OF assms(1) short, of e0] e0 assms(2-4)
    by (auto simp: R_def M_def make_record_def zero_record_def spec_map_def is_open_def is_close_def has_domain_def
        record_field_s_short)
  obtain r1 where 1: "track_record (R e1) r0 = Inr (R e1, r1)" "resolver_ok r1" "fd_map r1 = fd_map r0"
    using track_record_ok [OF 0(2) short, of e1] e1
    by (auto simp: R_def make_record_def spec_map_def spec_device_def)
  obtain r2 where 2: "track_record (R e2) r1 = Inr (R e2, r2)" "resolver_ok r2" "fd_map r2 = fd_map r0"
    using track_record_ok [OF 1(2) short, of e2] e2 1(3)
    by (auto simp: R_def make_record_def spec_map_def spec_device_def)
  have u: "\<not> is_open (R e3)" "\<not> is_close (R e3)" "uses_device (R e3)" "mr_fd (R e3) = fd"
    using e3 by (simp_all add: R_def make_record_def is_open_def is_close_def uses_device_def has_domain_def)
  obtain r3 where 3: "track_record (R e3) r2 = Inr ((R e3)\<lparr>mr_device := take DEVICE_LEN (path_to_dev p r)\<rparr>, r3)"
    "fd_map r3 = fd_map r0"
    using track_record_ok [OF 2(2) short, of e3] u assms(2) 2(3) 0(3)
    by (auto simp: spec_map_def spec_device_def)
  have "mr_s1 (R e2) = q" "mr_device (R e2) = []"
    using e2 assms(5) by (simp_all add: R_def make_record_def zero_record_def record_field_s_short)
  with 0 1 2 3 have "\<exists>outs r'. run track_record (map R [e0, e1, e2, e3]) r = Inr (outs, r') \<and>
       mr_s1 (outs ! 2) = q \<and> mr_device (outs ! 2) = [] \<and>
       mr_device (outs ! 3) = take DEVICE_LEN (path_to_dev p r) \<and> fd_map r' fd = Some (path_to_dev p r)"
    by simp
  moreover have "map (\<lambda>w. (fst w, fst (snd (snd (snd w))))) (filter (\<lambda>w. fst (snd (snd w)) \<in> {''OPEN'', ''CLOSE''}) wrapper_table) =
      [(''open'', ''FD_NONE''), (''open64'', ''FD_NONE''), (''fopen'', ''fd''), (''fopen64'', ''fd''),
       (''creat'', ''FD_NONE''), (''creat64'', ''FD_NONE''), (''fclose'', ''FD_NONE''), (''close'', ''fd'')]"
    by code_simp
  ultimately show ?thesis by (simp add: R_def [abs_def])
qed

definition demo_scope :: "int \<Rightarrow> string \<Rightarrow> scope" where
  "demo_scope fd path = \<lparr>sc_int = (\<lambda>x. if x = ''error_code'' then 0 else fd), sc_str = (\<lambda>x. Some path)\<rparr>"

theorem stale_device_after_fclose_witness:
  "\<exists>e0 e1 e2 e3 outs r'.
     row_event (demo_platform 0 0) read_row (demo_scope 5 []) \<lparr>tv_sec = 0, tv_usec = 0\<rparr> \<lparr>tv_sec = 0, tv_usec = 0\<rparr> = Some e3 \<and>
     run track_record (map (make_record (demo_platform 0 0) () demo_mon) [e0, e1, e2, e3])
       (initial_resolver\<lparr>fs_mount_path_to_dev := [(''/home'', ''sdb1''), (''/tmp'', ''sdc1'')]\<rparr>) = Inr (outs, r') \<and>
     mr_s1 (outs ! 2) = ''/tmp/b'' \<and> mr_device (outs ! 3) = ''sdb1''"
proof -
  define sc where "sc = (\<lambda>k::nat. demo_scope 5 (if k = 0 then ''/home/a'' else ''/tmp/b''))"
  define t where "t = (\<lambda>k::nat. \<lparr>tv_sec = 0, tv_usec = 0\<rparr>)"
  define r where "r = initial_resolver\<lparr>fs_mount_path_to_dev := [(''/home'', ''sdb1''), (''/tmp'', ''sdc1'')]\<rparr>"
  have r: "resolver_ok r"
    by (simp add: r_def resolver_ok_def initial_resolver_def map_ok_def)
  have ev: "\<exists>e. row_event (demo_platform 0 0) row (sc k) t0 t1 = Some e"
    if "row \<in> {fopen_row, fclose_row, open_row, read_row}" for row k t0 t1
    using that by (auto simp: row_events named_eval)
  obtain e0 where 0: "row_event (demo_platform 0 0) fopen_row (sc 0) (t 0) (t 1) = Some e0" using ev by blast
  obtain e1 where 1: "row_event (demo_platform 0 0) fclose_row (sc 1) (t 2) (t 3) = Some e1" using ev by blast
  obtain e2 where 2: "row_event (demo_platform 0 0) open_row (sc 2) (t 4) (t 5) = Some e2" using ev by blast
  obtain e3 where 3: "row_event (demo_platform 0 0) read_row (sc 3) (t 6) (t 7) = Some e3" using ev by blast
  have "path_to_dev ''/home/a'' r = ''sdb1''" by (simp add: r_def path_to_dev_def)
  with stale_device_after_fclose [OF r _ _ _ _ 0 _ _ 1 2 _ 3, of 5 "''/home/a''" "''/tmp/b''" "()" demo_mon]
  have "\<exists>outs r'. run track_record (map (make_record (demo_platform 0 0) () demo_mon) [e0, e1, e2, e3]) r = Inr (outs, r') \<and>
      mr_s1 (outs ! 2) = ''/tmp/b'' \<and> mr_device (outs ! 3) = ''sdb1''"
    by (auto simp: FD_NONE_def buffer_sizes sc_def demo_scope_def)
  moreover have "row_event (demo_platform 0 0) read_row (demo_scope 5 []) \<lparr>tv_sec = 0, tv_usec = 0\<rparr> \<lparr>tv_sec = 0, tv_usec = 0\<rparr> = Some e3"
    using 3 by (simp add: row_events named_eval row_strings sc_def t_def demo_scope_def)
  ultimately show ?thesis unfolding r_def by blast
qed

section \<open>HTTP messages\<close>

text \<open>C39: the detection of HTTP. When the data of a call begin with a request or status line and one more
  line, an event is recorded iff the method is one of five or the status has three digits, with the
  operation of the direction of the call, the whole first line as its path and no code; and only if
  the second line fits its buffer of \<open>STR_LEN\<close> bytes with the line feed in front of it, although
  nothing of that line is recorded.\<close>

theorem http_messages_detected:
  assumes "http_line_ok h" "length (print_http h) < PATH_MAX" "list_all line_char l2"
    and "data = print_http h @ crlf @ l2 @ crlf @ rest" "length (print_http h) + length l2 + 4 \<le> count"
  shows "http_event dm fd data count s e = Inr
    (if length l2 + 1 < STR_LEN
     then map_option (\<lambda>op. \<lparr>ev_dom_type = HTTP, ev_op_type = op, ev_fd = fd, ev_s1 = Some (print_http h), ev_s2 = None,
              ev_start_time = s, ev_end_time = e, ev_error_code = 0, ev_bytes_transferred = 0\<rparr>)
            (http_line_op (dm = FILE_WRITE) h)
     else None)"
proof -
  have "print_http h \<noteq> []" by (cases h) simp_all
  then show ?thesis
    using scan_message [OF line_char_print [OF assms(1)] assms(3,2,4,5)] http_operation_print [OF assms(1), of dm]
    by (simp add: http_event_def)
qed

theorem http_messages_detected_witness:
  "\<exists>ev. http_event FILE_READ 5 (''PUT /a HTTP/1.1'' @ crlf @ ''Host: b'' @ crlf @ crlf) 29
     \<lparr>tv_sec = 0, tv_usec = 0\<rparr> \<lparr>tv_sec = 0, tv_usec = 0\<rparr> = Inr (Some ev) \<and> ev_op_type ev = HTTP_REQ_RECV"
  using http_messages_detected [of "Request ''PUT'' ''/a''" "''Host: b''" _ crlf 29 FILE_READ 5]
  by (simp add: line_char_def buffer_sizes)

text \<open>The monitor's own traffic is no HTTP. The two writes of \<open>send_tcp_socket\<close>, the header with the
  length in digits and the record with its facility in front, leave \<open>check_for_http\<close> at a NUL, so that
  the hook of \<open>write\<close> records nothing for them and the model of the transport can leave it out.\<close>

theorem own_writes_not_http:
  assumes "list_all line_char (mr_facility r)" "length (mr_facility r) < STR_LEN"
  shows "check_for_http rec FILE_WRITE fd (show_int record_length @ NUL # zeros) 10 s e st = Inr st \<and>
    check_for_http rec FILE_WRITE fd (mr_facility r @ NUL # zeros) (nat record_length) s e st = Inr st"
proof -
  have "show_int record_length = ''4720''" by (simp add: record_length_def show_eval)
  moreover have "list_all line_char ''4720''" by (simp add: line_char_def)
  ultimately have "http_scan (show_int record_length @ NUL # zeros) 10 0 0 [] [] = Inr None"
    using scan_NUL [of "''4720''" _ zeros 10] by (simp add: buffer_sizes)
  moreover have "http_scan (mr_facility r @ NUL # zeros) (nat record_length) 0 0 [] [] = Inr None"
    using assms by (intro scan_NUL) (auto simp: record_length_def buffer_sizes)
  ultimately show ?thesis by (simp add: check_for_http_def http_event_def)
qed

theorem own_writes_not_http_witness:
  "check_for_http (\<lambda>e n. Inr (Suc n)) FILE_WRITE 7 (''job'' @ [NUL]) 4720 \<lparr>tv_sec = 0, tv_usec = 0\<rparr> \<lparr>tv_sec = 0, tv_usec = 0\<rparr> 0 = Inr 0"
  using own_writes_not_http [of "zero_record\<lparr>mr_facility := ''job''\<rparr>" "\<lambda>e n. Inr (Suc n)" 7 "[]"]
  by (simp add: line_char_def buffer_sizes record_length_def)

text \<open>C40: what the scan does to data that are no message. A carriage return as the last byte is followed
  by a read behind the data; a call of no bytes, data that begin with two empty lines, and a status line
  without a number lead to a variable that was never set.\<close>

theorem http_undefined_reads:
  assumes "list_all line_char l" "length l < PATH_MAX" "list_all line_char l2" "length l2 + 1 < STR_LEN"
    and "list_all line_char (c # reason)" "length reason + 10 < PATH_MAX"
    and "\<not> is_space c" "\<not> is_digit c" "c \<noteq> CHR ''-''" "c \<noteq> CHR ''+''"
  shows "http_event dm fd (l @ [CHR 0x0D]) (length l + 1) s e = Inl OutOfBounds \<and>
    http_event dm fd data 0 s e = Inl UninitRead \<and>
    http_event dm fd (crlf @ crlf @ rest) (length rest + 4) s e = Inl UninitRead \<and>
    http_event dm fd (''HTTP/1.1 '' @ c # reason @ crlf @ l2 @ crlf @ rest)
       (length reason + length l2 + 14 + length rest) s e = Inl UninitRead"
proof (intro conjI)
  show "http_event dm fd (l @ [CHR 0x0D]) (length l + 1) s e = Inl OutOfBounds"
    using scan_past_end [OF assms(1) refl assms(2)] by (simp add: http_event_def)
  show "http_event dm fd data 0 s e = Inl UninitRead"
    by (subst http_event_def, subst http_scan.simps) simp
  show "http_event dm fd (crlf @ crlf @ rest) (length rest + 4) s e = Inl UninitRead"
    using scan_message [of "[]" "[]" "crlf @ crlf @ rest" rest "length rest + 4"]
    by (simp add: http_event_def buffer_sizes)
  define l1 where "l1 = ''HTTP/1.1 '' @ c # reason"
  have "list_all line_char l1" using assms(5) by (simp add: l1_def line_char_def)
  then have "http_scan (l1 @ crlf @ l2 @ crlf @ rest) (length reason + length l2 + 14 + length rest) 0 0 [] [] =
      Inr (Some (l1, CHR 0x0A # l2))"
    using scan_message [of l1 l2 _ rest "length reason + length l2 + 14 + length rest"] assms(3,4,6)
    by (simp add: l1_def)
  moreover have "http_operation dm l1 = Inl UninitRead"
    using no_status_code [OF assms(7-10)] by (simp add: l1_def)
  ultimately show "http_event dm fd (''HTTP/1.1 '' @ c # reason @ crlf @ l2 @ crlf @ rest)
      (length reason + length l2 + 14 + length rest) s e = Inl UninitRead"
    by (simp add: http_event_def l1_def)
qed

theorem http_undefined_reads_witness:
  "http_event FILE_READ 5 (''GET'' @ [CHR 0x0D]) 4 \<lparr>tv_sec = 0, tv_usec = 0\<rparr> \<lparr>tv_sec = 0, tv_usec = 0\<rparr> = Inl OutOfBounds \<and>
   http_event FILE_READ 5 (''HTTP/1.1 OK'' @ crlf @ ''A'' @ crlf) 16
     \<lparr>tv_sec = 0, tv_usec = 0\<rparr> \<lparr>tv_sec = 0, tv_usec = 0\<rparr> = Inl UninitRead"
  using http_undefined_reads [of "''GET''" "''A''" "CHR ''O''" "''K''" FILE_READ 5 "\<lparr>tv_sec = 0, tv_usec = 0\<rparr>" "\<lparr>tv_sec = 0, tv_usec = 0\<rparr>" "[]" "[]"]
  by (simp add: line_char_def buffer_sizes is_space_def is_digit_def eval_nat_numeral)

end
