(* ===== verification/Wrapper_Errors.thy ===== *)
theory Wrapper_Errors
imports Wrapper_Facts
begin

text \<open>
  When a wrapper reports an error: the conditions in the hooks against the conventions by which the
  functions of the C library and the system report theirs.
\<close>

section \<open>The conditions in the hooks\<close>

datatype failure_test = Never | On_nonzero | On_negative | On_minus_one | On_null | On_short

definition test_kind :: "cexp option \<Rightarrow> failure_test option" where
  "test_kind t =
     (case t of
        None \<Rightarrow> Some Never
      | Some c \<Rightarrow>
          map_of [(is_nonzero, On_nonzero), (Var ''result'', On_nonzero), (is_negative, On_negative),
            (is_minus_one, On_minus_one), (Bin Equal (Var ''result'') (Var ''EOF''), On_minus_one),
            (Not (Var ''result''), On_null), (Bin Equal (Var ''result'') (Var ''NULL''), On_null),
            (Bin Less (Var ''result'') (Var ''nmemb''), On_short)] c)"

fun test_holds :: "failure_test \<Rightarrow> cval option \<Rightarrow> cval option \<Rightarrow> bool" where
  "test_holds On_nonzero (Some v) _ \<longleftrightarrow> truth v"
| "test_holds On_null (Some v) _ \<longleftrightarrow> \<not> truth v"
| "test_holds On_negative (Some (VInt ct i)) _ \<longleftrightarrow> i < 0"
| "test_holds On_minus_one (Some (VInt ct i)) _ \<longleftrightarrow> i = convert ct (- 1)"
| "test_holds On_short (Some (VInt ct i)) (Some (VInt ct' j)) \<longleftrightarrow> i < j"
| "test_holds _ _ _ \<longleftrightarrow> False"

definition code_test :: "code \<Rightarrow> failure_test option" where
  "code_test c = (case error_test [] (cd_hook c) of None \<Rightarrow> None | Some t \<Rightarrow> test_kind t)"

definition test_typed :: "code \<Rightarrow> bool" where
  "test_typed c \<longleftrightarrow>
     (case error_test [] (cd_hook c) of
        Some (Some a) \<Rightarrow> type_of (wrapper_typing c) a \<noteq> None \<and> cd_ret c \<noteq> None
      | _ \<Rightarrow> True)"

section \<open>The conventions of the functions\<close>

text \<open>Zero or a result that is no error, and -1 with \<open>errno\<close>; zero or the number of the error; a pointer,
  or \<open>NULL\<close> with \<open>errno\<close>; a number of items; a number, or a negative one; nothing. And two where the
  result alone does not say whether there was an error: \<open>readdir\<close> returns \<open>NULL\<close> at the end of the directory
  too, and \<open>fscanf\<close> \<open>EOF\<close> at the end of the input; they leave \<open>errno\<close> as it was then.\<close>

datatype convention = Zero_or_minus_one | Result_or_minus_one | Error_number | Pointer_or_null | Items | Number_or_negative | No_result
  | Pointer_or_end | Result_or_end

definition conventions :: "(string \<times> convention) list" where
  "conventions =
     map (\<lambda>n. (n, Result_or_minus_one))
       [''open'', ''open64'', ''creat'', ''creat64'', ''read'', ''recv'', ''pread'', ''readv'', ''preadv'',
        ''write'', ''send'', ''pwrite'', ''writev'', ''pwritev'', ''getxattr'',
        ''lgetxattr'', ''fgetxattr'', ''listxattr'', ''llistxattr'', ''flistxattr'', ''telldir'', ''socket'',
        ''fork'', ''dup'', ''dup2'', ''dup3'', ''readlink''] @
     map (\<lambda>n. (n, Error_number))
       [''posix_fallocate'', ''readdir_r'', ''pthread_mutex_unlock'', ''pthread_mutex_lock'',
        ''pthread_mutex_init'', ''pthread_mutex_destroy'', ''pthread_cond_signal'', ''pthread_cond_broadcast'',
        ''pthread_cond_wait''] @
     map (\<lambda>n. (n, Pointer_or_null)) [''fopen'', ''fopen64'', ''opendir'', ''fdopendir''] @
     [(''readdir'', Pointer_or_end), (''fscanf'', Result_or_end), (''vfscanf'', Result_or_end)] @
     map (\<lambda>n. (n, Items)) [''fread'', ''fwrite''] @
     map (\<lambda>n. (n, Number_or_negative)) [''fprintf'', ''vfprintf''] @
     map (\<lambda>n. (n, No_result)) [''sync'', ''rewinddir'', ''seekdir'']"

definition convention_of :: "string \<Rightarrow> convention" where
  "convention_of n = (case map_of conventions n of None \<Rightarrow> Zero_or_minus_one | Some k \<Rightarrow> k)"

text \<open>The results a function can have, given the number of items asked for, those that mean failure, and
  those that mean failure or the end.\<close>

fun may_return :: "convention \<Rightarrow> cval option \<Rightarrow> cval option \<Rightarrow> bool" where
  "may_return Zero_or_minus_one (Some (VInt ct i)) _ \<longleftrightarrow> i = 0 \<or> i = - 1"
| "may_return Result_or_minus_one (Some (VInt ct i)) _ \<longleftrightarrow> (ct = Int32 \<or> ct = Int64) \<and> - 1 \<le> i"
| "may_return Error_number (Some (VInt ct i)) _ \<longleftrightarrow> 0 \<le> i"
| "may_return Pointer_or_null (Some (VPtr p)) _ \<longleftrightarrow> True"
| "may_return Items (Some (VInt ct i)) (Some (VInt ct' n)) \<longleftrightarrow> 0 \<le> i \<and> i \<le> n"
| "may_return Number_or_negative (Some (VInt ct i)) _ \<longleftrightarrow> True"
| "may_return No_result None _ \<longleftrightarrow> True"
| "may_return Pointer_or_end (Some (VPtr p)) _ \<longleftrightarrow> True"
| "may_return Result_or_end (Some (VInt ct i)) _ \<longleftrightarrow> (ct = Int32 \<or> ct = Int64) \<and> - 1 \<le> i"
| "may_return _ _ _ \<longleftrightarrow> False"

fun failed :: "convention \<Rightarrow> cval option \<Rightarrow> cval option \<Rightarrow> bool" where
  "failed Zero_or_minus_one (Some (VInt ct i)) _ \<longleftrightarrow> i = - 1"
| "failed Result_or_minus_one (Some (VInt ct i)) _ \<longleftrightarrow> i = - 1"
| "failed Error_number (Some (VInt ct i)) _ \<longleftrightarrow> i \<noteq> 0"
| "failed Pointer_or_null (Some (VPtr p)) _ \<longleftrightarrow> p = Null"
| "failed Items (Some (VInt ct i)) (Some (VInt ct' n)) \<longleftrightarrow> i < n"
| "failed Number_or_negative (Some (VInt ct i)) _ \<longleftrightarrow> i < 0"
| "failed _ _ _ \<longleftrightarrow> False"

fun failed_or_ended :: "convention \<Rightarrow> cval option \<Rightarrow> bool" where
  "failed_or_ended Pointer_or_end (Some (VPtr p)) \<longleftrightarrow> p = Null"
| "failed_or_ended Result_or_end (Some (VInt ct i)) \<longleftrightarrow> i = - 1"
| "failed_or_ended _ _ \<longleftrightarrow> False"

text \<open>Which condition is right for which convention.\<close>

definition detects :: "failure_test \<Rightarrow> convention \<Rightarrow> bool" where
  "detects t k \<longleftrightarrow>
     (case k of
        Zero_or_minus_one \<Rightarrow> t = On_nonzero \<or> t = On_negative \<or> t = On_minus_one
      | Result_or_minus_one \<Rightarrow> t = On_negative \<or> t = On_minus_one
      | Error_number \<Rightarrow> t = On_nonzero
      | Pointer_or_null \<Rightarrow> t = On_null
      | Items \<Rightarrow> t = On_short
      | Number_or_negative \<Rightarrow> t = On_negative
      | No_result \<Rightarrow> t = Never
      | Pointer_or_end \<Rightarrow> t = On_null
      | Result_or_end \<Rightarrow> t = On_negative \<or> t = On_minus_one)"

lemma detects_failed:
  assumes "detects t k" "may_return k res n" "rel_option val_ok ret res"
  shows "test_holds t res n \<longleftrightarrow> failed k res n \<or> failed_or_ended k res"
proof -
  have "i = convert ct (- 1) \<longleftrightarrow> i = - 1"
    if "convert ct i = i" "i = 0 \<or> i = - 1 \<or> ct = Int32 \<or> ct = Int64" for ct i
    using that by (cases ct) (auto simp: int32_def)
  moreover have "convert ct i = i" if "res = Some (VInt ct i)" for ct i
    using assms(3) that by (cases ret) (auto elim!: val_ok.elims)
  moreover have "int32 (- 1) = - 1" by (simp add: int32_def)
  ultimately show ?thesis
    using assms(1,2) by (cases "(k, res, n)" rule: may_return.cases) (auto simp: detects_def truth_def)
qed

section \<open>The table\<close>

text \<open>The functions whose hook tests the result in another way than their convention asks for.\<close>

definition tests_nonzero :: "string list" where
  "tests_nonzero = [''readlink'', ''dup'', ''dup2'', ''dup3'']"

definition tests_nothing :: "string list" where
  "tests_nothing = [''fread'', ''telldir'', ''fork'', ''kill'']"

definition test_ok :: "string \<Rightarrow> code \<Rightarrow> failure_test \<Rightarrow> bool" where
  "test_ok n c t \<longleftrightarrow> test_typed c \<and>
     (if List.member tests_nonzero n
      then t = On_nonzero \<and> (cd_ret c = Some (Arith Int32) \<or> cd_ret c = Some (Arith Int64))
      else if List.member tests_nothing n then t = Never \<or> t = On_negative \<and> cd_ret c = Some (Arith UInt64)
      else detects t (convention_of n)) \<and>
     (t = On_short \<longrightarrow> cd_ret c = Some (Arith UInt64) \<and> map_of (cd_params c) ''nmemb'' = Some (Arith UInt64))"

lemma code_tests:
  "list_all (\<lambda>(n, c). cd_exec c \<or> (case code_test c of None \<Rightarrow> False | Some t \<Rightarrow> test_ok n c t)) code_table"
  by code_simp

lemma code_testsD:
  assumes "(n, c) \<in> set code_table" "\<not> cd_exec c"
  obtains t k where "error_test [] (cd_hook c) = Some t" "test_kind t = Some k" "test_ok n c k"
proof -
  have "case code_test c of None \<Rightarrow> False | Some t \<Rightarrow> test_ok n c t"
    using code_tests assms unfolding list_all_iff by fastforce
  then show ?thesis using that by (auto simp: code_test_def split: option.splits)
qed

text \<open>The number of items asked for, an argument of \<open>fread\<close> and \<open>fwrite\<close>.\<close>

definition items_asked :: "code \<Rightarrow> cval list \<Rightarrow> cval option" where
  "items_asked c vs = map_of (zip (map fst (cd_params c)) vs) ''nmemb''"

lemma bind_params_zip:
  assumes "list_all2 (\<lambda>(x, \<tau>) v. val_ok \<tau> v) ps vs" "map_of (zip (map fst ps) vs) y = Some v"
  shows "\<exists>\<tau>. bind_params ps vs y = Some (Scalar \<tau> (Some v))"
  using assms
proof (induction ps vs rule: list_all2_induct)
  case (Cons p ps w vs)
  then show ?case by (cases p) (auto simp: bind_params_def split: if_splits)
qed simp

lemma items_asked_ok:
  assumes "args_ok c vs" "map_of (cd_params c) ''nmemb'' = Some (Arith UInt64)"
  shows "\<exists>j. items_asked c vs = Some (VInt UInt64 j) \<and> convert UInt64 j = j"
proof -
  have *: "\<exists>v. map_of (zip (map fst ps) vs) x = Some v \<and> val_ok \<tau> v"
    if "list_all2 (\<lambda>(x, \<tau>) v. val_ok \<tau> v) ps vs" "map_of ps x = Some \<tau>" for ps x \<tau>
    using that
  proof (induction ps vs rule: list_all2_induct)
    case (Cons p ps w vs)
    then show ?case by (cases p) (simp split: if_splits)
  qed simp
  from * [OF assms(1) [unfolded args_ok_def] assms(2)]
  obtain v where "items_asked c vs = Some v" "val_ok (Arith UInt64) v" unfolding items_asked_def by blast
  then show ?thesis by (cases v) simp_all
qed

lemma test_value:
  assumes "test_kind (Some a) = Some t" "type_of (wrapper_typing c) a \<noteq> None" "env_ok E"
    and "conforms (wrapper_typing c) (wrapper_vars P c vs (Some v))" "rel_option val_ok (cd_ret c) (Some v)"
    and "args_ok c vs"
    and "t = On_short \<Longrightarrow> cd_ret c = Some (Arith UInt64) \<and> map_of (cd_params c) ''nmemb'' = Some (Arith UInt64)"
  shows "\<exists>b. eval E (wrapper_vars P c vs (Some v)) a = Inr b \<and> (truth b \<longleftrightarrow> test_holds t (Some v) (items_asked c vs))"
proof -
  define \<sigma> where "\<sigma> = wrapper_vars P c vs (Some v)"
  obtain \<tau> where \<tau>: "cd_ret c = Some \<tau>" "val_ok \<tau> v" using assms(5) by (auto simp: option_rel_Some2)
  have r: "eval E \<sigma> (Var ''result'') = Inr v"
    by (simp add: \<sigma>_def wrapper_vars_def \<tau> macro_def Let_def)
  have m: "eval E \<sigma> (Var ''EOF'') = Inr (VInt Int32 (- 1))" "eval E \<sigma> (Var ''NULL'') = Inr (VPtr Null)"
    by (simp_all add: macro_def)
  have ct: "common ct Int32 = ct" "convert ct 0 = 0" for ct by (cases ct; simp add: common_def int32_def)+
  have i: "convert ct i = i" if "v = VInt ct i" for ct i using \<tau>(2) that by (cases \<tau>) simp_all
  obtain \<tau>' where "type_of (wrapper_typing c) a = Some \<tau>'" using assms(2) by blast
  then have ok: "eval E \<sigma> a \<noteq> Inl IllFormed" using eval_sound [OF _ assms(4,3)] unfolding \<sigma>_def by fastforce
  from assms(1) consider "a = is_nonzero" "t = On_nonzero" | "a = Var ''result''" "t = On_nonzero"
    | "a = is_negative" "t = On_negative" | "a = is_minus_one" "t = On_minus_one"
    | "a = Bin Equal (Var ''result'') (Var ''EOF'')" "t = On_minus_one"
    | "a = Not (Var ''result'')" "t = On_null" | "a = Bin Equal (Var ''result'') (Var ''NULL'')" "t = On_null"
    | "a = Bin Less (Var ''result'') (Var ''nmemb'')" "t = On_short"
    by (auto simp: test_kind_def split: if_splits)
  then have "\<exists>b. eval E \<sigma> a = Inr b \<and> (truth b \<longleftrightarrow> test_holds t (Some v) (items_asked c vs))"
  proof cases
    case 8
    then have 1: "cd_ret c = Some (Arith UInt64)" "map_of (cd_params c) ''nmemb'' = Some (Arith UInt64)"
      using assms(7) by simp_all
    obtain j where j: "items_asked c vs = Some (VInt UInt64 j)" "convert UInt64 j = j"
      using items_asked_ok [OF assms(6) 1(2)] by blast
    obtain \<tau>1 where "bind_params (cd_params c) vs ''nmemb'' = Some (Scalar \<tau>1 (Some (VInt UInt64 j)))"
      using bind_params_zip [of "cd_params c" vs] assms(6) j(1) unfolding args_ok_def items_asked_def by blast
    then have "eval E \<sigma> (Var ''nmemb'') = Inr (VInt UInt64 j)"
      by (simp add: \<sigma>_def wrapper_vars_def \<tau> macro_def Let_def)
    with 8 r j 1(1) \<tau> i show ?thesis
      by (cases v) (auto simp: common_def of_truth_def truth_def Let_def simp del: eval.simps(1))
  qed (use r m ok ct i in \<open>cases v; auto simp: of_truth_def truth_def Let_def simp del: eval.simps(1)\<close>)+
  then show ?thesis by (simp add: \<sigma>_def)
qed

section \<open>What is recorded\<close>

text \<open>The wrapper of \<open>n\<close> reports an error for this result.\<close>

definition reports_error :: "string \<Rightarrow> cval option \<Rightarrow> cval option \<Rightarrow> bool" where
  "reports_error n res items \<longleftrightarrow>
     (if List.member tests_nonzero n then res \<noteq> Some (VInt Int32 0) \<and> res \<noteq> Some (VInt Int64 0)
      else \<not> List.member tests_nothing n \<and> (failed (convention_of n) res items \<or> failed_or_ended (convention_of n) res))"

lemma convention_ends:
  "convention_of n = Pointer_or_end \<longleftrightarrow> n = ''readdir''" "convention_of n = Result_or_end \<longleftrightarrow> n = ''fscanf'' \<or> n = ''vfscanf''"
proof -
  have "list_all (\<lambda>(n, k). (k = Pointer_or_end \<longrightarrow> n = ''readdir'') \<and> (k = Result_or_end \<longrightarrow> n = ''fscanf'' \<or> n = ''vfscanf'')) conventions"
    by code_simp
  then have *: "(convention_of n = Pointer_or_end \<longrightarrow> n = ''readdir'') \<and> (convention_of n = Result_or_end \<longrightarrow> n = ''fscanf'' \<or> n = ''vfscanf'')"
    by (auto simp: convention_of_def list_all_iff split: option.splits dest!: map_of_SomeD)
  have "convention_of ''readdir'' = Pointer_or_end" "convention_of ''fscanf'' = Result_or_end" "convention_of ''vfscanf'' = Result_or_end"
    by code_simp+
  with * show "convention_of n = Pointer_or_end \<longleftrightarrow> n = ''readdir''"
    "convention_of n = Result_or_end \<longleftrightarrow> n = ''fscanf'' \<or> n = ''vfscanf''" by blast+
qed

lemma reports_error_cases:
  "reports_error n res items \<longleftrightarrow>
     (if n \<in> {''readlink'', ''dup'', ''dup2'', ''dup3''}
      then res \<noteq> Some (VInt Int32 0) \<and> res \<noteq> Some (VInt Int64 0)
      else if n \<in> {''readdir'', ''fscanf'', ''vfscanf''} then failed_or_ended (convention_of n) res
      else n \<notin> {''fread'', ''telldir'', ''fork'', ''kill''} \<and> failed (convention_of n) res items)"
proof -
  have "\<not> failed_or_ended (convention_of n) res" if "n \<notin> {''readdir'', ''fscanf'', ''vfscanf''}"
    using convention_ends [of n] that by (cases "convention_of n") auto
  moreover have "\<not> failed (convention_of n) res items" if "n \<in> {''readdir'', ''fscanf'', ''vfscanf''}"
    using convention_ends [of n] that by (cases "convention_of n") auto
  ultimately show ?thesis by (auto simp: reports_error_def tests_nonzero_def tests_nothing_def)
qed

lemma record_call_event:
  assumes "record_call P E r c \<sigma> t0 t1 = Inr ev"
  obtains fd s1 s2 err count where "eval_int E \<sigma> Int32 (Var (cd_fd c)) = Inr fd"
    "string_arg \<sigma> (cd_s1 c) = Inr s1" "string_arg \<sigma> (cd_s2 c) = Inr s2"
    "eval_int E \<sigma> Int32 (Var ''error_code'') = Inr err"
    "(if cd_count c = ''count'' then eval_int E \<sigma> Int64 (Var ''count'') else Inr 0) = Inr count"
    "row_event P r \<lparr>sc_int = (\<lambda>x. if x = ''fd'' then fd else if x = ''count'' then count else err),
            sc_str = (\<lambda>x. if x = cd_s1 c then s1 else s2)\<rparr> t0 t1 = Some ev"
  using assms by (auto simp: record_call_def record_scope_def split: option.splits if_splits)

lemma row_event_error: "row_event P r sc t0 t1 = Some ev \<Longrightarrow> ev_error_code ev = sc_int sc ''error_code''"
  by (auto simp: row_event_def Let_def split: option.splits)

lemma typed_vars:
  "type_of \<Gamma> a \<noteq> None \<Longrightarrow> x \<in> set (exp_vars a) \<Longrightarrow> macro_type x = None \<Longrightarrow> \<exists>\<tau>. \<Gamma> x = Some \<tau> \<and> (\<forall>n. \<tau> \<noteq> Chars n)"
proof (induction a)
  case (Var y)
  then show ?case by (auto split: option.splits vtype.splits)
qed (auto split: option.splits vtype.splits list.splits if_splits)

lemma hook_error_code:
  assumes "r \<in> set (rows_of monitored_functions)" "code_of r = Some c" "\<not> cd_exec c"
    and "args_ok c vs" "outcome_ok c oc" "env_ok E" "he_errno E = oc_errno oc"
    and "may_return (convention_of (rw_name r)) (oc_result oc) (items_asked c vs)"
    and "int32 (error_code_init P) = error_code_init P"
    and "hook_and_event P E r c (wrapper_vars P c vs (oc_result oc)) t0 t1 mw = Inr (ev, mw')"
  shows "ev_error_code ev =
    (if reports_error (rw_name r) (oc_result oc) (items_asked c vs) then oc_errno oc else error_code_init P)"
proof -
  define \<sigma> where "\<sigma> = wrapper_vars P c vs (oc_result oc)"
  have cf: "conforms (wrapper_typing c) \<sigma>"
    using assms(3,4,5,9) unfolding \<sigma>_def by (intro wrapper_vars_conform) (simp_all add: outcome_ok_def)
  obtain c' where "code_of r = Some c'" and tab: "(rw_name r, c') \<in> set code_table" by (rule row_code [OF assms(1)])
  then have c': "c' = c" using assms(2) by simp
  obtain t k where t: "error_test [] (cd_hook c) = Some t" "test_kind t = Some k" and k: "test_ok (rw_name r) c k"
    using code_testsD [OF tab [unfolded c'] assms(3)] by blast
  have res: "rel_option val_ok (cd_ret c) (oc_result oc)" using assms(5) by (simp add: outcome_ok_def)
  have after: "error_after E \<sigma> (error_code_init P) t =
      (if test_holds k (oc_result oc) (items_asked c vs) then oc_errno oc else error_code_init P)"
  proof (cases t)
    case None
    with t(2) show ?thesis by (simp add: test_kind_def error_after_def)
  next
    case (Some a)
    with k t(1) obtain v where v: "oc_result oc = Some v" "type_of (wrapper_typing c) a \<noteq> None"
      using res by (auto simp: test_ok_def test_typed_def option_rel_Some1)
    obtain b where "eval E \<sigma> a = Inr b" "truth b \<longleftrightarrow> test_holds k (Some v) (items_asked c vs)"
      using test_value [OF t(2) [unfolded Some] v(2) assms(6), of P vs v] cf res assms(4) k
      unfolding \<sigma>_def v(1) by (auto simp: test_ok_def)
    with Some v(1) assms(7) show ?thesis by (simp add: error_after_def)
  qed
  have same: "test_holds k (oc_result oc) (items_asked c vs) = reports_error (rw_name r) (oc_result oc) (items_asked c vs)"
  proof (cases "List.member tests_nonzero (rw_name r) \<or> List.member tests_nothing (rw_name r)")
    case True
    have z: "0 \<le> i" if "i mod 2 ^ 64 = i" for i :: int using that by (metis pos_mod_sign zero_less_numeral zero_less_power)
    from True k res z show ?thesis
      by (auto simp: test_ok_def reports_error_def option_rel_Some1 truth_def split: if_splits elim!: val_ok.elims)
  next
    case False
    with detects_failed [OF _ assms(8) res] k show ?thesis by (simp add: test_ok_def reports_error_def)
  qed
  obtain \<sigma>' m' where e: "exec_list E (cd_hook c) (\<sigma>, mw) = Inr (\<sigma>', m')" "record_call P E r c \<sigma>' t0 t1 = Inr ev"
    using assms(10) by (auto simp: hook_and_event_def \<sigma>_def)
  have vars: "\<forall>a x. t = Some a \<longrightarrow> x \<in> set (exp_vars a) \<longrightarrow> macro E x = None \<longrightarrow> (\<exists>\<tau> v. \<sigma> x = Some (Scalar \<tau> v))"
  proof (intro allI impI)
    fix a x
    assume a: "t = Some a" "x \<in> set (exp_vars a)" "macro E x = None"
    then have "type_of (wrapper_typing c) a \<noteq> None" using k t(1) by (simp add: test_ok_def test_typed_def)
    then obtain \<tau> where \<tau>: "wrapper_typing c x = Some \<tau>" "\<forall>n. \<tau> \<noteq> Chars n"
      using typed_vars a(2,3) macro_cases by metis
    obtain sl where "\<sigma> x = Some sl" "slot_ok \<tau> sl" by (rule conforms_var [OF cf \<tau>(1)])
    with \<tau>(2) show "\<exists>\<tau> v. \<sigma> x = Some (Scalar \<tau> v)" by (cases \<tau>; cases sl) auto
  qed
  have "\<sigma>' ''error_code'' = Some (error_slot (error_after E \<sigma> (error_code_init P) t))"
  proof (rule exec_error_code [OF t(1) e(1) _ _ vars])
    show "\<sigma> ''error_code'' = Some (error_slot (error_code_init P))"
      by (simp add: \<sigma>_def wrapper_vars_def error_slot_def Let_def split: option.splits)
    show "int32 (he_errno E) = he_errno E" using assms(6) by (simp add: env_ok_def)
  qed
  note ec = this
  obtain err sc where "eval_int E \<sigma>' Int32 (Var ''error_code'') = Inr err" "row_event P r sc t0 t1 = Some ev"
      "sc_int sc ''error_code'' = err"
    by (rule record_call_event [OF e(2)]) simp
  with ec assms(5,9) show ?thesis
    by (auto simp: eval_int_def macro_def error_slot_def after same outcome_ok_def dest: row_event_error)
qed

end
