(* ===== verification/Wrapper_Effects.thy ===== *)
theory Wrapper_Effects
imports Wrapper_Errors
begin

text \<open>
  What a hook does besides the error code: the number of bytes it leaves for the record, and where it can
  go wrong.
\<close>

section \<open>The number of bytes\<close>

text \<open>The expression whose value is recorded: a parameter, or what the hook computes.\<close>

definition count_source :: "code \<Rightarrow> cexp option" where
  "count_source c =
     (if List.member (map fst (cd_params c)) ''count''
      then if list_all (\<lambda>s. \<not> List.member (assigned s) ''count'') (cd_hook c) then Some (Var ''count'') else None
      else declared_as ''count'' [] (cd_hook c))"

lemma count_sources:
  "map (\<lambda>(n, c). (n, count_source c)) (filter (\<lambda>(n, c). cd_count c = ''count'') code_table) =
     map (\<lambda>n. (n, Some (Var ''count''))) [''read'', ''recv'', ''pread''] @
     [(''fread'', Some (Bin Times (Var ''size'') (Var ''nmemb''))),
      (''fscanf'', Some (Var ''result'')), (''vfscanf'', Some (Var ''result''))] @
     map (\<lambda>n. (n, Some (Var ''count''))) [''write'', ''send'', ''pwrite''] @
     [(''fprintf'', Some (Var ''result'')), (''vfprintf'', Some (Var ''result'')),
      (''fwrite'', Some (Bin Times (Var ''size'') (Var ''nmemb'')))] @
     [(''setxattr'', Some (Var ''size'')), (''lsetxattr'', Some (Var ''size'')), (''fsetxattr'', Some (Var ''size'')),
      (''getxattr'', Some (Var ''result'')), (''lgetxattr'', Some (Var ''result'')), (''fgetxattr'', Some (Var ''size''))]"
  by code_simp

text \<open>An argument by its name, and the value of a source.\<close>

definition argument :: "code \<Rightarrow> cval list \<Rightarrow> string \<Rightarrow> cval option" where
  "argument c vs x = map_of (zip (map fst (cd_params c)) vs) x"

lemma argument_var:
  assumes "args_ok c vs" "argument c vs x = Some v" "x \<noteq> ''error_code''" "x \<noteq> ''result''"
  shows "\<exists>\<tau>. wrapper_vars P c vs res x = Some (Scalar \<tau> (Some v))"
  using bind_params_zip [of "cd_params c" vs x v] assms
  by (auto simp: args_ok_def argument_def wrapper_vars_def Let_def split: option.splits)

lemma result_var:
  "cd_ret c = Some \<tau> \<Longrightarrow> wrapper_vars P c vs (Some v) ''result'' = Some (Scalar \<tau> (Some v))"
  by (simp add: wrapper_vars_def Let_def)

lemma declared_as_other: "declared_as y xs ss = Some a \<Longrightarrow> a \<noteq> Var y"
  by (induction y xs ss rule: declared_as.induct) (auto split: option.splits if_splits)

lemma row_event_count:
  "row_event P r sc t0 t1 = Some ev \<Longrightarrow>
    ev_bytes_transferred ev = (if recorded_count r = ''count'' then word_of_int (sc_int sc ''count'') else ZERO_BYTES P)"
  by (auto simp: row_event_def Let_def split: option.splits)

lemma convert_word: "(word_of_int (convert Int64 i) :: 64 word) = word_of_int i"
  by (simp only: convert.simps word_of_int_eq_iff take_bit_eq_mod) (simp add: mod_simps)

text \<open>The number of bytes of the record is the value of the source, in an \<open>int\<close> if the hook declares it.\<close>

lemma hook_byte_count:
  assumes "code_of r = Some c" "count_source c = Some a" "cd_count c = ''count''"
    and "\<forall>x\<in>set (exp_vars a). macro_type x = None \<longrightarrow> (\<exists>\<tau> v. wrapper_vars P c vs res x = Some (Scalar \<tau> v))"
    and "hook_and_event P E r c (wrapper_vars P c vs res) t0 t1 mw = Inr (ev, mw')"
  shows "\<exists>i. ev_bytes_transferred ev = word_of_int i \<and>
    (if a = Var ''count'' then eval_int E (wrapper_vars P c vs res) Int64 a = Inr i
     else eval_int E (wrapper_vars P c vs res) Int32 a = Inr i)"
proof -
  define \<sigma> where "\<sigma> = wrapper_vars P c vs res"
  obtain \<sigma>' m' where e: "exec_list E (cd_hook c) (\<sigma>, mw) = Inr (\<sigma>', m')" "record_call P E r c \<sigma>' t0 t1 = Inr ev"
    using assms(5) by (auto simp: hook_and_event_def \<sigma>_def)
  obtain n sc where n: "eval_int E \<sigma>' Int64 (Var ''count'') = Inr n" "row_event P r sc t0 t1 = Some ev"
      "sc_int sc ''count'' = n"
    by (rule record_call_event [OF e(2)]) (simp add: assms(3))
  have ev: "ev_bytes_transferred ev = word_of_int n"
    using row_event_count [OF n(2)] n(3) assms(3) code_of_fields(3) [OF assms(1)] by simp
  have noc: "macro E ''count'' = None" by (simp add: macro_def)
  show ?thesis
  proof (cases "a = Var ''count''")
    case True
    have "''count'' \<notin> set (concat (map assigned (cd_hook c)))"
      using assms(2) True declared_as_vars [of "''count''" "[]" "cd_hook c" a]
      by (auto simp: count_source_def list_all_iff split: if_splits dest: declared_as_other)
    moreover obtain \<tau> v where v: "\<sigma> ''count'' = Some (Scalar \<tau> v)"
      using assms(4) True unfolding \<sigma>_def by (auto simp: macro_type_def)
    ultimately have "\<sigma>' ''count'' = \<sigma> ''count''" using exec_scalar(2) [OF e(1) v] by blast
    then have "eval E \<sigma>' a = eval E \<sigma> a" using True by (intro eval_cong) simp
    then have "eval_int E \<sigma> Int64 a = Inr n" using n(1) True by (simp add: eval_int_def)
    with ev True show ?thesis unfolding \<sigma>_def by auto
  next
    case False
    then have d: "declared_as ''count'' [] (cd_hook c) = Some a"
      using assms(2) by (auto simp: count_source_def split: if_splits)
    have "\<forall>x\<in>set (exp_vars a). macro E x = None \<longrightarrow> (\<exists>\<tau> v. \<sigma> x = Some (Scalar \<tau> v))"
      using assms(4) macro_cases [of _ E] unfolding \<sigma>_def by metis
    from exec_declared [OF d e(1) this] obtain i where i: "eval_int E \<sigma> Int32 a = Inr i"
        "\<sigma>' ''count'' = Some (Scalar (Arith Int32) (Some (VInt Int32 i)))" by blast
    then have "n = convert Int64 i" using n(1) noc by (simp add: eval_int_def)
    then have "word_of_int n = (word_of_int i :: 64 word)" by (simp only: convert_word)
    with ev i False show ?thesis unfolding \<sigma>_def by auto
  qed
qed

section \<open>Hooks without a fault\<close>

lemma wrapper_vars_set: "all_set (wrapper_vars P c vs res)"
proof -
  have "bind_params ps vs x = Some sl \<Longrightarrow> \<exists>\<tau> v. sl = Scalar \<tau> (Some v)" for ps x sl
    by (auto simp: bind_params_def dest!: map_of_SomeD)
  then show ?thesis
    by (fastforce simp: wrapper_vars_def all_set_def Let_def split: option.splits if_splits)
qed

definition is_harmless :: "code \<Rightarrow> bool" where
  "is_harmless c \<longleftrightarrow> list_all harmless (cd_hook c)"

definition risky_names :: "string list" where
  "risky_names =
     [''fopen'', ''fopen64'', ''read'', ''recv'', ''fread'', ''fscanf'', ''vfscanf'', ''write'', ''send'',
      ''fprintf'', ''vfprintf'', ''fwrite'', ''fflush'', ''opendir'', ''closedir'', ''readdir'', ''readdir_r'',
      ''rewinddir'', ''seekdir'', ''telldir'', ''connect'', ''bind'', ''fork'', ''kill'']"

lemma harmless_rows:
  "list_all (\<lambda>(n, c). is_harmless c = (\<not> List.member risky_names n)) code_table"
  by code_simp

text \<open>With every variable set, the record can be made.\<close>

lemma set_vars_event:
  assumes "sound (\<lambda>_. True) (hook_and_event P E r c \<sigma> t0 t1 mw)"
    and "exec_list E (cd_hook c) (\<sigma>, mw) = Inr (\<sigma>', mw')" "all_set \<sigma>'"
  shows "\<exists>ev. hook_and_event P E r c \<sigma> t0 t1 mw = Inr (ev, mw')"
proof -
  have i: "eval_int E \<sigma>' ct (Var x) = Inl u \<Longrightarrow> u = IllFormed" for ct x u
    by (rule harmless_eval_int [OF _ assms(3), of "Var x" E ct u]) simp_all
  have str: "string_arg \<sigma>' x = Inl u \<Longrightarrow> u = IllFormed" for x u
    using assms(3)
    by (auto simp: string_arg_def all_set_def split: option.splits slot.splits cval.splits pointer.splits if_splits)
  have "record_call P E r c \<sigma>' t0 t1 \<noteq> Inl u" if "u \<noteq> IllFormed" for u
    using that by (auto simp: record_call_def record_scope_def bindR_eq_Inl dest: i str split: option.splits if_splits)
  moreover have "record_call P E r c \<sigma>' t0 t1 \<noteq> Inl IllFormed"
    using assms(1,2) by (auto simp: hook_and_event_def)
  ultimately obtain ev where "record_call P E r c \<sigma>' t0 t1 = Inr ev" by (metis sum.exhaust)
  then show ?thesis using assms(2) by (auto simp: hook_and_event_def)
qed

lemma harmless_prefix:
  assumes "list_all harmless xs" "all_set \<sigma>" "exec_list E xs (\<sigma>, m) \<noteq> Inl IllFormed"
  obtains \<sigma>' where "exec_list E xs (\<sigma>, m) = Inr (\<sigma>', m)" "all_set \<sigma>'"
  using harmless_exec(2) [OF assms(1,2), of m E] assms(3) by (cases "exec_list E xs (\<sigma>, m)") auto

lemma harmless_hook:
  assumes "r \<in> set (rows_of monitored_functions)" "code_of r = Some c" "list_all harmless (cd_hook c)"
    and "env_ok E" "conforms (wrapper_typing c) \<sigma>" "all_set \<sigma>"
  shows "\<exists>ev. hook_and_event P E r c \<sigma> t0 t1 mw = Inr (ev, mw)"
proof -
  have s: "sound (\<lambda>_. True) (hook_and_event P E r c \<sigma> t0 t1 mw)" by (rule hook_and_event_sound [OF assms(1,2,4,5)])
  then have "exec_list E (cd_hook c) (\<sigma>, mw) \<noteq> Inl IllFormed" by (auto simp: hook_and_event_def)
  from harmless_prefix [OF assms(3,6) this] set_vars_event [OF s] show ?thesis by metis
qed

section \<open>Streams\<close>

text \<open>The parameter whose descriptor a hook asks for, with harmless statements around.\<close>

fun stream_split :: "stmt list \<Rightarrow> (stmt list \<times> string \<times> stmt list) option" where
  "stream_split [] = None"
| "stream_split (s # ss) =
     (case declares ''fd'' s of
        Some (Call f [Var x]) \<Rightarrow> if s = Declare ''int'' ''fd'' (Some (Call f [Var x])) then Some ([], x, ss) else None
      | _ \<Rightarrow> map_option (\<lambda>(xs, x, ys). (s # xs, x, ys)) (stream_split ss))"

definition stream_param :: "code \<Rightarrow> string option" where
  "stream_param c =
     (case stream_split (cd_hook c) of
        None \<Rightarrow> None
      | Some (xs, x, ys) \<Rightarrow>
          if list_all harmless xs \<and> list_all harmless ys \<and> list_all (\<lambda>s. \<not> List.member (assigned s) x) xs \<and>
             List.member (map fst (cd_params c)) x \<and> macro_type x = None \<and> x \<noteq> ''error_code'' \<and> x \<noteq> ''result''
          then Some x else None)"

lemma stream_rows:
  "map (\<lambda>(n, c). (n, stream_param c)) (filter (\<lambda>(n, c). stream_param c \<noteq> None) code_table) =
     map (\<lambda>n. (n, Some ''stream'')) [''fread'', ''fscanf'', ''vfscanf'', ''fprintf'', ''vfprintf'', ''fwrite''] @
     [(''fflush'', Some ''fp'')] @
     map (\<lambda>n. (n, Some ''dirp'')) [''closedir'', ''readdir'', ''readdir_r'', ''rewinddir'', ''seekdir'', ''telldir'']"
  by code_simp

lemma stream_split_append: "stream_split ss = Some (xs, x, ys) \<Longrightarrow> \<exists>f. ss = xs @ Declare ''int'' ''fd'' (Some (Call f [Var x])) # ys"
  by (induction ss arbitrary: xs) (auto split: option.splits cexp.splits list.splits if_splits)

text \<open>With an open stream the hook comes to its end; with \<open>NULL\<close> or a closed one it does not.\<close>

lemma stream_hook:
  assumes "r \<in> set (rows_of monitored_functions)" "code_of r = Some c" "stream_param c = Some x"
    and "env_ok E" "args_ok c vs" "argument c vs x = Some (VPtr p)"
    and "conforms (wrapper_typing c) (wrapper_vars P c vs res)"
  shows "case stream_fd E (VPtr p) of
      Inl u \<Rightarrow> hook_and_event P E r c (wrapper_vars P c vs res) t0 t1 mw = Inl u
    | Inr fd \<Rightarrow> \<exists>ev. hook_and_event P E r c (wrapper_vars P c vs res) t0 t1 mw = Inr (ev, mw)"
proof -
  define \<sigma> where "\<sigma> = wrapper_vars P c vs res"
  obtain xs ys where sp: "stream_split (cd_hook c) = Some (xs, x, ys)" "list_all harmless xs" "list_all harmless ys"
      "x \<notin> set (concat (map assigned xs))" "macro_type x = None" "x \<noteq> ''error_code''" "x \<noteq> ''result''"
    using assms(3) by (auto simp: stream_param_def list_all_iff split: option.splits if_splits)
  obtain f where h: "cd_hook c = xs @ Declare ''int'' ''fd'' (Some (Call f [Var x])) # ys"
    using stream_split_append [OF sp(1)] by blast
  have s: "sound (\<lambda>_. True) (hook_and_event P E r c \<sigma> t0 t1 mw)"
    unfolding \<sigma>_def by (rule hook_and_event_sound [OF assms(1,2,4,7)])
  then have ok: "exec_list E (cd_hook c) (\<sigma>, mw) \<noteq> Inl IllFormed" by (auto simp: hook_and_event_def)
  then have "exec_list E xs (\<sigma>, mw) \<noteq> Inl IllFormed" by (auto simp: h exec_list_append)
  with harmless_prefix [OF sp(2) wrapper_vars_set] obtain \<sigma>1
    where 1: "exec_list E xs (\<sigma>, mw) = Inr (\<sigma>1, mw)" "all_set \<sigma>1" unfolding \<sigma>_def by metis
  obtain \<tau> where "\<sigma> x = Some (Scalar \<tau> (Some (VPtr p)))"
    using argument_var [OF assms(5,6) sp(6,7)] unfolding \<sigma>_def by blast
  then have x: "eval E \<sigma>1 (Var x) = Inr (VPtr p)"
    using exec_scalar(2) [OF 1(1) _ sp(4)] sp(5) macro_cases [of x E] by simp
  define fd where "fd = Declare ''int'' ''fd'' (Some (Call f [Var x]))"
  have e: "exec_list E (cd_hook c) (\<sigma>, mw) = bindR (exec E fd (\<sigma>1, mw)) (exec_list E ys)"
    by (simp add: h exec_list_append 1(1) fd_def)
  then have "exec E fd (\<sigma>1, mw) \<noteq> Inl IllFormed" using ok by auto
  then have d: "exec E fd (\<sigma>1, mw) = bindR (bindR (stream_fd E (VPtr p)) (int_of Int32))
      (\<lambda>i. Inr (\<sigma>1(''fd'' \<mapsto> Scalar (Arith Int32) (Some (VInt Int32 i))), mw))"
    using x by (auto simp: fd_def eval_int_def simp del: eval.simps(1) split: if_splits)
  show ?thesis
  proof (cases "stream_fd E (VPtr p)")
    case (Inl u)
    with d e show ?thesis by (simp add: hook_and_event_def \<sigma>_def)
  next
    case (Inr v)
    then obtain i where "v = VInt Int32 i" by (cases p) (auto split: option.splits)
    with Inr d e have 2: "exec_list E (cd_hook c) (\<sigma>, mw) =
        exec_list E ys (\<sigma>1(''fd'' \<mapsto> Scalar (Arith Int32) (Some (VInt Int32 (int32 i)))), mw)" by simp
    have "exec_list E ys (\<sigma>1(''fd'' \<mapsto> Scalar (Arith Int32) (Some (VInt Int32 (int32 i)))), mw) \<noteq> Inl IllFormed"
      using ok 2 by metis
    from harmless_prefix [OF sp(3) all_set_upd [OF 1(2)] this] obtain \<sigma>2
      where "exec_list E (cd_hook c) (\<sigma>, mw) = Inr (\<sigma>2, mw)" "all_set \<sigma>2" unfolding 2 by blast
    from set_vars_event [OF s this] Inr show ?thesis unfolding \<sigma>_def by simp
  qed
qed

end
