(* ===== verification/Own_Calls.thy ===== *)
theory Own_Calls
imports Wrapper_Effects
begin

text \<open>
  The wrappers the monitor itself runs into: \<open>socket\<close>, \<open>connect\<close>, \<open>write\<close> and \<open>close\<close>, called by
  \<open>send_tcp_socket\<close>. The function \<open>interposed\<close> of \<open>Recorder\<close> is their generated code.
\<close>

lemma code_names_distinct: "distinct (map fst code_table)"
  by code_simp

lemma row_code_map:
  assumes "r \<in> set (rows_of monitored_functions)"
  shows "code_of r = map_of code_table (rw_name r)"
proof -
  obtain c where "code_of r = Some c" "(rw_name r, c) \<in> set code_table" by (rule row_code [OF assms])
  then show ?thesis using map_of_is_SomeI [OF code_names_distinct] by simp
qed

lemma own_rows:
  "{socket_row, connect_row, write_row, close_row} \<subseteq> set (rows_of monitored_functions)"
proof -
  have "length (rows_of socket_calls) = length socket_code" "length (rows_of write_calls) = length write_code"
    "length (rows_of file_calls) = length file_code"
    using arg_cong [OF socket_code, of length] arg_cong [OF write_code, of length] arg_cong [OF file_code, of length]
    by simp_all
  then have "connect_row \<in> set (rows_of socket_calls)" "socket_row \<in> set (rows_of socket_calls)"
      "write_row \<in> set (rows_of write_calls)" "close_row \<in> set (rows_of file_calls)"
    by (simp_all add: connect_row_def socket_row_def write_row_def close_row_def socket_code_def write_code_def file_code_def)
  then show ?thesis by (simp add: monitored_functions_def)
qed

lemma own_names: "rw_name socket_row = ''socket''" "rw_name connect_row = ''connect''" "rw_name write_row = ''write''"
  "rw_name close_row = ''close''"
  using row_facts by (simp_all add: row_summary_def)

lemma own_codes:
  "map_of code_table ''socket'' = Some (program (Some (Arith Int32)) False
     [(''domain'', Arith Int32), (''type'', Arith Int32), (''protocol'', Arith Int32)]
     [Declare ''int'' ''fd'' (Some (Var ''result'')), If is_minus_one set_error None]
     ''fd'' ''ZERO_BYTES'' ''NULL'' ''NULL'')"
  "map_of code_table ''connect'' = Some (program (Some (Arith Int32)) False
     [(''fd'', Arith Int32), (''addr'', Ptr Sockaddr_ptr), (''addrlen'', Arith UInt32)]
     [If is_minus_one set_error None, Declare_array ''char'' ''path'' 200 (Some []),
      Do (Call ''real_ip'' [Var ''addr'', Var ''path''])]
     ''fd'' ''ZERO_BYTES'' ''path'' ''NULL'')"
  "map_of code_table ''write'' = Some (program (Some (Arith Int64)) False
     [(''fd'', Arith Int32), (''buf'', Ptr Other_ptr), (''count'', Arith UInt64)]
     [If is_negative set_error None, Do (Call ''check_for_http'' [Var ''FILE_WRITE'', Var ''fd'', Var ''buf'',
        Var ''count'', time_before, time_after])]
     ''fd'' ''count'' ''NULL'' ''NULL'')"
  "map_of code_table ''close'' = Some (program (Some (Arith Int32)) False
     [(''fd'', Arith Int32)] [If is_minus_one set_error_block None] ''fd'' ''ZERO_BYTES'' ''NULL'' ''NULL'')"
  by code_simp+

lemma own_code_of:
  "code_of socket_row = map_of code_table ''socket''" "code_of connect_row = map_of code_table ''connect''"
  "code_of write_row = map_of code_table ''write''" "code_of close_row = map_of code_table ''close''"
  using row_code_map own_rows own_names by (metis insert_subset)+

section \<open>The calls\<close>

text \<open>A system call with these arguments that returns a number.\<close>

definition int_call :: "ctype \<Rightarrow> cval list \<Rightarrow> ('w \<Rightarrow> (int \<times> int) \<times> 'w) \<Rightarrow> 'w invocation" where
  "int_call ct vs f =
     \<lparr>cl_args = vs, cl_before = \<lparr>oc_result = None, oc_errno = 0, oc_streams = (\<lambda>_. None)\<rparr>, cl_more = [],
      cl_orig = (\<lambda>w. case f w of ((res, errno), w') \<Rightarrow>
        (\<lparr>oc_result = Some (VInt ct res), oc_errno = errno, oc_streams = (\<lambda>_. None)\<rparr>, w'))\<rparr>"

definition returns :: "ctype \<Rightarrow> (int \<times> mon \<times> 'w) res \<Rightarrow> (cval option \<times> mon \<times> 'w) res" where
  "returns ct r = bindR r (\<lambda>(rc, mw). Inr (Some (VInt ct rc), mw))"

text \<open>The system calls give results and error numbers of their types.\<close>

definition fitting :: "ctype \<Rightarrow> ('w \<Rightarrow> (int \<times> int) \<times> 'w) \<Rightarrow> bool" where
  "fitting ct f \<longleftrightarrow> (\<forall>w. case f w of ((res, errno), w') \<Rightarrow> convert ct res = res \<and> int32 errno = errno)"

lemma int32_minus_one: "int32 (- 1) = - 1"
  by (simp add: int32_def)

lemmas wrapper_unfolds = run_wrapper_def wrapper_body_def original_function_def library_call_def exec_helper_def own_names own_code_of own_codes int_call_def interposed_def returns_def Let_def
  hook_and_event_def wrapper_vars_def bind_params_def macro_def int32_minus_one eval_int_def common_def of_truth_def
  truth_def leave_def wrapper_env_def record_call_def record_scope_def string_arg_def bindR_assoc

lemma socket_wrapper:
  assumes "fitting Int32 (os_socket P)" "int32 (error_code_init P) = error_code_init P"
  shows "run_wrapper P rec ini socket_row (int_call Int32 [VInt Int32 2, VInt Int32 1, VInt Int32 0] (os_socket P)) mw =
    returns Int32 (interposed P rec (os_socket P) (socket_event P) mw)"
proof -
  obtain m w res errno w' where mw: "mw = (m, w)" "os_socket P w = ((res, errno), w')" by (metis surj_pair)
  then have fit: "int32 res = res" "int32 errno = errno" using assms(1) by (auto simp: fitting_def split: prod.splits)
  have ev: "row_event P socket_row sc t0 t1 = Some (socket_event P res errno t0 t1)"
    if "sc_int sc ''fd'' = res" "sc_int sc ''error_code'' = (if res = - 1 then errno else error_code_init P)" for sc t0 t1
    by (rule own_calls(1) [OF that(1) refl that(2)]) (simp_all add: that)
  show ?thesis
    by (simp add: wrapper_unfolds mw fit ev assms(2))
qed

lemma close_wrapper:
  assumes "fitting Int32 (os_close P fd)" "int32 fd = fd" "int32 (error_code_init P) = error_code_init P"
  shows "run_wrapper P rec ini close_row (int_call Int32 [VInt Int32 fd] (os_close P fd)) mw =
    returns Int32 (interposed P rec (os_close P fd) (close_event P fd) mw)"
proof -
  obtain m w res errno w' where mw: "mw = (m, w)" "os_close P fd w = ((res, errno), w')" by (metis surj_pair)
  then have fit: "int32 res = res" "int32 errno = errno" using assms(1) by (auto simp: fitting_def split: prod.splits)
  have ev: "row_event P close_row sc t0 t1 = Some (close_event P fd res errno t0 t1)"
    if "sc_int sc ''fd'' = fd" "sc_int sc ''error_code'' = (if res = - 1 then errno else error_code_init P)" for sc t0 t1
    by (rule own_calls(3) [OF that(1) refl that(2)]) (simp_all add: that)
  show ?thesis
    by (simp add: wrapper_unfolds mw fit ev assms(2,3))
qed

text \<open>The text of an address fits into the 200 characters of the hook of \<open>connect\<close>.\<close>

lemma show_word_length:
  shows "length (show_nat (unat (b :: 8 word))) \<le> 3" "length (show_nat (unat (p :: 16 word))) \<le> 5"
  using length_show_nat [of "unat b" 3] length_show_nat [of "unat p" 5] unsigned_less [of b, where ?'a = nat]
    unsigned_less [of p, where ?'a = nat] by simp_all

lemma real_ip_fits:
  assumes "real_ip ai = Some s"
  shows "length s < 200"
proof -
  obtain a b c d where ip: "sin_addr ai = (a, b, c, d)" by (metis surj_pair)
  show ?thesis
    using assms show_word_length(1) [of a] show_word_length(1) [of b] show_word_length(1) [of c] show_word_length(1) [of d]
      show_word_length(2) [of "be16toh (sin_port ai)"]
    by (auto simp: real_ip_def ip split: if_splits)
qed

lemma connect_wrapper:
  assumes "fitting Int32 (os_connect P fd ai)" "int32 fd = fd" "int32 (error_code_init P) = error_code_init P"
  shows "run_wrapper P rec ini connect_row
      (int_call Int32 [VInt Int32 fd, VPtr (Address ai), VInt UInt32 16] (os_connect P fd ai)) mw =
    returns Int32 (interposed P rec (os_connect P fd ai) (connect_event P fd ai) mw)"
proof -
  obtain m w res errno w' where mw: "mw = (m, w)" "os_connect P fd ai w = ((res, errno), w')" by (metis surj_pair)
  then have fit: "int32 res = res" "int32 errno = errno" using assms(1) by (auto simp: fitting_def split: prod.splits)
  have ev: "row_event P connect_row sc t0 t1 = Some (connect_event P fd ai res errno t0 t1)"
    if "sc_int sc ''fd'' = fd" "sc_int sc ''error_code'' = (if res = - 1 then errno else error_code_init P)"
      "sc_str sc ''path'' = Some (case real_ip ai of None \<Rightarrow> [] | Some path \<Rightarrow> path)" for sc t0 t1
    by (rule own_calls(4) [OF that(1) refl that(2)]) (simp_all add: that)
  show ?thesis
  proof (cases "real_ip ai")
    case None
    with ev show ?thesis by (simp add: wrapper_unfolds mw fit assms(2,3))
  next
    case (Some ip)
    with ev real_ip_fits [OF Some] show ?thesis by (simp add: wrapper_unfolds set_array_def sprintf_arr_def mw fit assms(2,3))
  qed
qed

text \<open>The hook of \<open>write\<close> looks for a message of HTTP first; here it finds none.\<close>

lemma write_wrapper:
  assumes "fitting Int64 (os_write P fd out)" "int32 fd = fd" "int32 (error_code_init P) = error_code_init P"
    and "0 \<le> count" "count < 2 ^ 63"
    and "\<And>t0 t1 mw. check_for_http rec FILE_WRITE fd data (nat count) t0 t1 mw = Inr mw"
  shows "run_wrapper P rec ini write_row
      (int_call Int64 [VInt Int32 fd, VPtr (Bytes data), VInt UInt64 count] (os_write P fd out)) mw =
    returns Int64 (interposed P rec (os_write P fd out) (write_event P fd count) mw)"
proof -
  obtain m w res errno w' where mw: "mw = (m, w)" "os_write P fd out w = ((res, errno), w')" by (metis surj_pair)
  then have fit: "convert Int64 res = res" "int32 errno = errno"
    using assms(1) by (auto simp: fitting_def split: prod.splits)
  have ev: "row_event P write_row sc t0 t1 = Some (write_event P fd count res errno t0 t1)"
    if "sc_int sc ''fd'' = fd" "sc_int sc ''count'' = count"
      "sc_int sc ''error_code'' = (if res < 0 then errno else error_code_init P)" for sc t0 t1
    by (rule own_calls(2) [OF that(1,2) refl]) (simp_all add: that)
  have count: "convert Int64 count = count" "count mod 2 ^ 64 = count" using assms(4,5)
    by simp_all
  have zero: "convert Int64 0 = 0" by simp
  have dom: "all_domains ! nat (int32 (int (domain_index FILE_WRITE))) = FILE_WRITE"
    by (simp add: all_domains_def int32_def)
  show ?thesis
    by (simp add: wrapper_unfolds call_http_def http_hook_def mw fit zero ev count(1) count(2) [simplified] dom [simplified] assms(2,3,6)
        del: convert.simps(3))
qed

end
