(* ===== verification/Wrapper_Calls.thy ===== *)
theory Wrapper_Calls
imports Wrapper_Effects Reporting
begin

text \<open>
  Whole calls of wrappers over the monitor's own \<open>record\<close> and \<open>init\<close>: what a wrapper that comes back has
  done, and that over the message queue every hook without a fault is followed by a \<open>record\<close> that returns.
\<close>

section \<open>The monitor behind the wrappers\<close>

lemma record_gate_formed: "record_gate t e m \<noteq> Inl IllFormed"
  by (auto simp: gate_defs bindR_eq_Inl split: option.splits if_splits prod.splits)

lemma interposed_formed: "(\<And>e mw. rec e mw \<noteq> Inl IllFormed) \<Longrightarrow> interposed P rec orig mk mw \<noteq> Inl IllFormed"
  by (auto simp: interposed_def Let_def bindR_eq_Inl split: prod.splits)

lemma send_tcp_formed:
  assumes "\<And>e mw. rec e mw \<noteq> Inl IllFormed"
  shows "send_tcp_socket P rec r mw \<noteq> Inl IllFormed"
  using interposed_formed [OF assms]
  by (auto simp: send_tcp_socket_def tcp_transfer_def Let_def bindR_eq_Inl split: prod.splits if_splits)

lemma report_formed:
  assumes "\<And>r mw. send r mw \<noteq> Inl IllFormed"
  shows "report P send e mw \<noteq> Inl IllFormed"
  using assms record_gate_formed by (auto simp: report_def bindR_eq_Inl split: prod.splits if_splits)

lemma record_event_formed: "record_event P d e mw \<noteq> Inl IllFormed"
proof (induction d arbitrary: e mw)
  case (Suc d)
  have "transport P (record_event P d) r mw \<noteq> Inl IllFormed" for r mw
    using send_tcp_formed [of "record_event P d", OF Suc.IH] by (auto simp: transport_def split: option.splits)
  then show ?case using report_formed [of "transport P (record_event P d)"] by simp
qed simp

lemma init_formed: "init P (record_event P d) len data ppid dir mw \<noteq> Inl IllFormed"
  using record_event_formed [of P d]
  by (auto simp: init_def init_cmdline_def sprintf_arr_def Let_def bindR_eq_Inl split: if_splits)

section \<open>A wrapper that comes back\<close>

lemma run_wrapper_returned:
  assumes "run_wrapper P rec ini r cl (m, w) = Inr (v, mw')" "code_of r = Some c" "\<not> cd_exec c"
  obtains oc w1 ev mw1 where "cl_orig cl w = (oc, w1)" "v = oc_result oc" "rec ev mw1 = Inr mw'"
    "hook_and_event P (wrapper_env rec ini oc (os_clock P w) (os_clock P w1)) r c
       (wrapper_vars P c (cl_args cl) (oc_result oc)) (os_clock P w) (os_clock P w1) (m, w1) = Inr (ev, mw1)"
proof -
  obtain oc w1 where o: "cl_orig cl w = (oc, w1)" by fastforce
  have lib: "exec_helper (rw_name r) = None \<or> \<not> is_exec_call r" using assms(3) code_of_fields(1) [OF assms(2)] by simp
  from assms o show ?thesis unfolding run_wrapper_library [OF assms(2) lib] by (auto simp: Let_def intro: that)
qed

lemma run_wrapper_eq:
  assumes "code_of r = Some c" "\<not> cd_exec c" "cl_orig cl w = (oc, w1)"
  shows "run_wrapper P rec ini r cl (m, w) =
    bindR (hook_and_event P (wrapper_env rec ini oc (os_clock P w) (os_clock P w1)) r c
       (wrapper_vars P c (cl_args cl) (oc_result oc)) (os_clock P w) (os_clock P w1) (m, w1)) (\<lambda>(ev, mw).
      bindR (rec ev mw) (\<lambda>mw. Inr (oc_result oc, mw)))"
proof -
  have lib: "exec_helper (rw_name r) = None \<or> \<not> is_exec_call r" using assms(2) code_of_fields(1) [OF assms(1)] by simp
  show ?thesis unfolding run_wrapper_library [OF assms(1) lib] using assms(2,3) by (simp add: Let_def)
qed

lemma call_ok_env:
  assumes "call_ok c cl" "cl_orig cl w = (oc, w1)" "\<And>e mw. rec e mw \<noteq> Inl IllFormed" "\<And>mw. ini mw \<noteq> Inl IllFormed"
  shows "outcome_ok c oc" "env_ok (wrapper_env rec ini oc t0 t1)"
proof -
  show "outcome_ok c oc" using assms(1,2) unfolding call_ok_def by (metis fst_conv)
  then show "env_ok (wrapper_env rec ini oc t0 t1)"
    using assms(3,4) by (intro wrapper_env_ok) (simp_all add: outcome_ok_def)
qed

section \<open>The path of an OPEN\<close>

text \<open>The strings of a row are arguments the hook does not change, or arrays it fills.\<close>

definition first_string_kept :: "code \<Rightarrow> bool" where
  "first_string_kept c \<longleftrightarrow>
     List.member (map fst (cd_params c)) (cd_s1 c) \<and> \<not> List.member (concat (map assigned (cd_hook c))) (cd_s1 c) \<and>
     cd_s1 c \<noteq> ''error_code'' \<and> cd_s1 c \<noteq> ''result'' \<and> cd_s1 c \<noteq> ''NULL''"

definition open_names :: "string list" where
  "open_names = [''open'', ''open64'', ''fopen'', ''fopen64'', ''creat'', ''creat64'']"

lemma open_strings: "list_all (\<lambda>(n, c). List.member open_names n \<longrightarrow> first_string_kept c) code_table"
  by code_simp

lemma open_rows:
  assumes "r \<in> set (rows_of monitored_functions)" "echo (rw_op r) = ''OPEN''"
  shows "rw_name r \<in> set open_names"
proof -
  have "list_all (\<lambda>(n, d, op, f, c). op = ''OPEN'' \<longrightarrow> List.member open_names n) wrapper_table" by code_simp
  moreover have "row_summary r \<in> set wrapper_table" using assms(1) by (simp flip: rows_table)
  ultimately show ?thesis using assms(2) by (auto simp: list_all_iff row_summary_def)
qed

lemma row_event_fields:
  assumes "row_event P r sc t0 t1 = Some ev"
  shows "op_named (echo (rw_op r)) = Some (ev_op_type ev)"
    "ev_s1 ev = (if echo (rw_s1 r) = ''NULL'' then None else sc_str sc (echo (rw_s1 r)))"
  using assms by (auto simp: row_event_def Let_def split: option.splits)

lemma op_named_OPEN: "op_named n = Some OPEN \<Longrightarrow> n = ''OPEN''"
  unfolding op_named_def by (drule sym) (auto simp: find_Some_iff2 ops_names_eq)

text \<open>The record of an OPEN has the path the caller gave.\<close>

lemma open_event_path:
  assumes "r \<in> set (rows_of monitored_functions)" "code_of r = Some c" "args_ok c vs"
    and "argument c vs (cd_s1 c) = Some (VPtr (String p))"
    and "hook_and_event P E r c (wrapper_vars P c vs res) t0 t1 mw = Inr (ev, mw')"
    and "ev_op_type ev = OPEN"
  shows "ev_s1 ev = Some p"
proof -
  obtain \<sigma>' m' where e: "exec_list E (cd_hook c) (wrapper_vars P c vs res, mw) = Inr (\<sigma>', m')"
      "record_call P E r c \<sigma>' t0 t1 = Inr ev"
    using assms(5) by (auto simp: hook_and_event_def)
  obtain s1 sc where s: "string_arg \<sigma>' (cd_s1 c) = Inr s1" "row_event P r sc t0 t1 = Some ev" "sc_str sc (cd_s1 c) = s1"
    by (rule record_call_event [OF e(2)]) simp
  have "echo (rw_op r) = ''OPEN''" using row_event_fields(1) [OF s(2)] assms(6) op_named_OPEN by simp
  then have "rw_name r \<in> set open_names" by (rule open_rows [OF assms(1)])
  moreover obtain c' where "code_of r = Some c'" "(rw_name r, c') \<in> set code_table" by (rule row_code [OF assms(1)])
  ultimately have k: "first_string_kept c" using open_strings assms(2) by (auto simp: list_all_iff)
  obtain \<tau> where v: "wrapper_vars P c vs res (cd_s1 c) = Some (Scalar \<tau> (Some (VPtr (String p))))"
    using argument_var [OF assms(3,4), of P res] k unfolding first_string_kept_def by blast
  have "\<sigma>' (cd_s1 c) = wrapper_vars P c vs res (cd_s1 c)"
    using exec_scalar(2) [OF e(1) v] k by (auto simp: first_string_kept_def)
  then have "s1 = Some p" using s(1) v k by (simp add: string_arg_def first_string_kept_def)
  then show ?thesis
    using row_event_fields(2) [OF s(2)] s(3) code_of_fields(4) [OF assms(2)] k by (simp add: first_string_kept_def)
qed

section \<open>Over the message queue\<close>

text \<open>What \<open>check_for_http\<close> and \<open>init\<close> keep, a hook keeps.\<close>

lemma call_http_keeps:
  assumes "call_http E as (\<sigma>, m) = Inr (\<sigma>', m')" "I m"
    and "\<And>d f p n m m'. he_http E d f p n m = Inr m' \<Longrightarrow> I m \<Longrightarrow> I m'"
  shows "I m'"
  using assms by (auto simp: call_http_def split: if_splits)

lemma exec_keeps:
  assumes "\<And>d f p n m m'. he_http E d f p n m = Inr m' \<Longrightarrow> I m \<Longrightarrow> I m'"
    and "\<And>m m'. he_init E m = Inr m' \<Longrightarrow> I m \<Longrightarrow> I m'"
  shows "exec E s (\<sigma>, m) = Inr (\<sigma>', m') \<Longrightarrow> I m \<Longrightarrow> I m'"
    "exec_list E ss (\<sigma>, m) = Inr (\<sigma>', m') \<Longrightarrow> I m \<Longrightarrow> I m'"
  using assms
proof (induction E s "(\<sigma>, m)" and E ss "(\<sigma>, m)" arbitrary: \<sigma> m \<sigma>' m' and \<sigma> m \<sigma>' m' rule: exec_exec_list.induct)
  case (4 E a \<sigma> m)
  from 4(1) show ?case
    using call_http_keeps [of E _ \<sigma> m \<sigma>' m' I] 4(2-4)
    by (auto split: cexp.splits if_splits)
next
  case (5 E c s1 s2 \<sigma> m)
  then obtain v where v: "eval E \<sigma> c = Inr v" by auto
  show ?case
  proof (cases "truth v")
    case True
    with 5(3) v obtain \<sigma>1 where "exec E s1 (\<sigma>, m) = Inr (\<sigma>1, m')" by (auto simp: leave_def)
    from "5.hyps"(1) [OF v True this 5(4) 5(5,6)] show ?thesis by simp
  next
    case False
    show ?thesis
    proof (cases s2)
      case None
      with 5 v False show ?thesis by simp
    next
      case (Some s)
      with 5(3) v False obtain \<sigma>1 where "exec E s (\<sigma>, m) = Inr (\<sigma>1, m')" by (auto simp: leave_def)
      from "5.hyps"(2) [OF v False Some this 5(4) 5(5,6)] show ?thesis by simp
    qed
  qed
next
  case (6 E ss \<sigma> m)
  then obtain \<sigma>1 where "exec_list E ss (\<sigma>, m) = Inr (\<sigma>1, m')" by (auto simp: leave_def)
  from "6.hyps" [OF this 6(3) 6(4,5)] show ?case by simp
next
  case (8 E s ss \<sigma> m)
  then obtain \<sigma>1 m1 where s: "exec E s (\<sigma>, m) = Inr (\<sigma>1, m1)" "exec_list E ss (\<sigma>1, m1) = Inr (\<sigma>', m')" by auto
  have "I m1" by (rule "8.hyps"(1) [OF s(1) 8(4) 8(5,6)])
  from "8.hyps"(2) [OF s this 8(5,6)] show ?case by simp
qed (auto split: option.splits slot.splits vtype.splits if_splits)

lemma queue_record_keeps:
  assumes "record_event P d e (m, w) = Inr (m', w')" "queue_ready m"
  shows "queue_ready m'"
proof (cases d)
  case (Suc k)
  with assms(1) obtain b m1 where g: "record_gate (os_time P w) e m = Inr (b, m1)" by (auto simp: report_def)
  show ?thesis
  proof (cases b)
    case True
    with g have "record_gate (os_time P w) e m = Inr (True, m1)" by simp
    from queue.report_sends [OF assms(2) this, of "record_event P k"] assms(1) Suc show ?thesis by auto
  next
    case False
    with g have "record_gate (os_time P w) e m = Inr (False, m1)" by simp
    from queue.report_silent [OF this] assms(1) Suc have "m' = m1" by simp
    with record_gate_frame [OF g] gate_frame_fields assms(2) show ?thesis by (auto simp: queue_ready_def)
  qed
qed (use assms in simp)

lemma queue_record_returns:
  assumes "queue_ready m" "ev_op_type e = OPEN \<longrightarrow> ev_s1 e \<noteq> None"
  obtains m' w' where "record_event P (Suc d) e (m, w) = Inr (m', w')" "queue_ready m'"
  using queue.report_total [OF assms, of P "record_event P d" w] that by auto

end
