(* ===== verification/Hook_Faults.thy ===== *)
theory Hook_Faults
imports Own_Calls Wrapper_Calls
begin

text \<open>
  Exactly when a hook comes to its end: for the hooks that are neither harmless nor ask a stream for its
  descriptor, the condition is read off their code.
\<close>

section \<open>The hooks that are left\<close>

lemma risky_codes:
  "map_of code_table ''fopen'' = Some (program (Some (Ptr File_ptr)) False [(''path'', Ptr Char_ptr), (''mode'',
      Ptr Char_ptr)] [Declare ''int'' ''fd'' None, If (Bin Equal (Var ''result'') (Var ''NULL'')) (Block
      [set_error, Assign ''fd'' (Var ''FD_NONE'')]) (Some (Block [Assign ''fd'' (Call ''fileno'' [Var
      ''result''])]))] ''fd'' ''ZERO_BYTES'' ''path'' ''mode'')"
  "map_of code_table ''fopen64'' = Some (program (Some (Ptr File_ptr)) False [(''path'', Ptr Char_ptr), (''mode'',
      Ptr Char_ptr)] [Declare ''int'' ''fd'' None, If (Bin Equal (Var ''result'') (Var ''NULL'')) (Block
      [set_error, Assign ''fd'' (Var ''FD_NONE'')]) (Some (Block [Assign ''fd'' (Call ''fileno'' [Var
      ''result''])]))] ''fd'' ''ZERO_BYTES'' ''path'' ''mode'')"
  "map_of code_table ''opendir'' = Some (program (Some (Ptr Dir_ptr)) False [(''name'', Ptr Char_ptr)] [Declare
      ''int'' ''fd'' (Some (Var ''FD_NONE'')), If (Not (Var ''result'')) set_error (Some (Assign ''fd'' (Call
      ''dirfd'' [Var ''result''])))] ''fd'' ''ZERO_BYTES'' ''name'' ''NULL'')"
  "map_of code_table ''connect'' = Some (program (Some (Arith Int32)) False [(''fd'', Arith Int32), (''addr'', Ptr
      Sockaddr_ptr), (''addrlen'', Arith UInt32)] [If is_minus_one set_error None, Declare_array ''char'' ''path''
      200 (Some []), Do (Call ''real_ip'' [Var ''addr'', Var ''path''])] ''fd'' ''ZERO_BYTES'' ''path'' ''NULL'')"
  "map_of code_table ''bind'' = Some (program (Some (Arith Int32)) False [(''fd'', Arith Int32), (''addr'', Ptr
      Sockaddr_ptr), (''addrlen'', Arith UInt32)] [If is_minus_one set_error None, Declare_array ''char'' ''path''
      200 (Some []), Do (Call ''real_ip'' [Var ''addr'', Var ''path''])] ''fd'' ''ZERO_BYTES'' ''path'' ''NULL'')"
  "map_of code_table ''kill'' = Some (program (Some (Arith Int32)) False [(''_pid'', Arith Int32), (''_sig'',
      Arith Int32)] [Declare_array ''char'' ''tpid'' 10 None, Declare_array ''char'' ''tsig'' 10 None, Do (Call
      ''sprintf'' [Var ''tpid'', Text ''%d'', Var ''_pid'']), Do (Call ''sprintf'' [Var ''tsig'', Text ''%d'', Var
      ''_sig''])] ''FD_NONE'' ''ZERO_BYTES'' ''tpid'' ''tsig'')"
  "map_of code_table ''fork'' = Some (program (Some (Arith Int32)) False [] [If (Bin Equal (Var ''result'') (Const
      0)) (Do (Call ''init'' [])) None] ''FD_NONE'' ''ZERO_BYTES'' ''NULL'' ''NULL'')"
  "map_of code_table ''read'' = Some (program (Some (Arith Int64)) False [(''fd'', Arith Int32), (''buf'', Ptr
      Other_ptr), (''count'', Arith UInt64)] [If is_negative set_error None, Do (Call ''check_for_http'' [Var
      ''FILE_READ'', Var ''fd'', Var ''buf'', Var ''count'', time_before, time_after])] ''fd'' ''count'' ''NULL''
      ''NULL'')"
  "map_of code_table ''recv'' = Some (program (Some (Arith Int64)) False [(''fd'', Arith Int32), (''buf'', Ptr
      Other_ptr), (''count'', Arith UInt64), (''flags'', Arith Int32)] [If is_negative set_error None, Do (Call
      ''check_for_http'' [Var ''FILE_READ'', Var ''fd'', Var ''buf'', Var ''count'', time_before, time_after])]
      ''fd'' ''count'' ''NULL'' ''NULL'')"
  "map_of code_table ''write'' = Some (program (Some (Arith Int64)) False [(''fd'', Arith Int32), (''buf'', Ptr
      Other_ptr), (''count'', Arith UInt64)] [If is_negative set_error None, Do (Call ''check_for_http'' [Var
      ''FILE_WRITE'', Var ''fd'', Var ''buf'', Var ''count'', time_before, time_after])] ''fd'' ''count'' ''NULL''
      ''NULL'')"
  "map_of code_table ''send'' = Some (program (Some (Arith Int64)) False [(''fd'', Arith Int32), (''buf'', Ptr
      Other_ptr), (''count'', Arith UInt64), (''flags'', Arith Int32)] [If is_negative set_error None, Do (Call
      ''check_for_http'' [Var ''FILE_WRITE'', Var ''fd'', Var ''buf'', Var ''count'', time_before, time_after])]
      ''fd'' ''count'' ''NULL'' ''NULL'')"
  by code_simp+

text \<open>The hook as it runs, and the record that can always be made in the end.\<close>

lemma row_event_Some:
  assumes "r \<in> set (rows_of monitored_functions)"
  obtains f where "\<And>sc. row_event P r sc t0 t1 = Some (f sc)"
proof
  show "row_event P r sc t0 t1 = Some ((\<lambda>sc. the (row_event P r sc t0 t1)) sc)" for sc
    using rows_typed [OF assms, of P sc t0 t1] by simp
qed

lemma defined_bind: "defined (bindR r f) \<longleftrightarrow> (case r of Inl u \<Rightarrow> False | Inr x \<Rightarrow> defined (f x))"
  by (cases r) simp_all

lemma defined_case: "defined (case x of None \<Rightarrow> Inl u | Some y \<Rightarrow> Inr y) \<longleftrightarrow> x \<noteq> None"
  by (cases x) simp_all

lemma named_code:
  assumes "r \<in> set (rows_of monitored_functions)" "code_of r = Some c"
  shows "map_of code_table (rw_name r) = Some c"
  using row_code_map [OF assms(1)] assms(2) by simp

lemma char_ptr_value: "val_ok (Ptr Char_ptr) v \<longleftrightarrow> v = VPtr Null \<or> (\<exists>s. v = VPtr (String s))"
  by (cases "(Ptr Char_ptr, v)" rule: val_ok.cases; auto elim: ptr_ok.elims)

lemma int_value: "val_ok (Arith ct) v \<longleftrightarrow> (\<exists>i. v = VInt ct i \<and> convert ct i = i)"
  by (cases "(Arith ct, v)" rule: val_ok.cases) auto

lemma ptr_value: "val_ok (Ptr k) v \<longleftrightarrow> (\<exists>p. v = VPtr p \<and> ptr_ok k p)"
  by (cases "(Ptr k, v)" rule: val_ok.cases) auto

lemmas hook_unfolds = hook_and_event_def wrapper_vars_def bind_params_def macro_def int32_minus_one eval_int_def
  common_def of_truth_def truth_def leave_def record_call_def record_scope_def string_arg_def Let_def
  set_array_def sprintf_arr_def

text \<open>A stream that is open.\<close>

definition is_open_stream :: "'m hook_env \<Rightarrow> cval option \<Rightarrow> bool" where
  "is_open_stream E v \<longleftrightarrow> (case v of Some (VPtr (Stream h)) \<Rightarrow> he_streams E h \<noteq> None | _ \<Rightarrow> False)"

section \<open>fopen and opendir\<close>

lemma char_ptr_cases:
  assumes "ptr_ok Char_ptr p"
  obtains "p = Null" | s where "p = String s"
  using assms by (cases p) auto

lemma fopen_hook:
  assumes "r \<in> set (rows_of monitored_functions)" "args_ok c vs" "rel_option val_ok (cd_ret c) res"
    and "c = program (Some (Ptr File_ptr)) False [(''path'', Ptr Char_ptr), (''mode'', Ptr Char_ptr)]
      [Declare ''int'' ''fd'' None, If (Bin Equal (Var ''result'') (Var ''NULL'')) (Block
      [set_error, Assign ''fd'' (Var ''FD_NONE'')]) (Some (Block [Assign ''fd'' (Call ''fileno'' [Var
      ''result''])]))] ''fd'' ''ZERO_BYTES'' ''path'' ''mode''"
  shows "defined (hook_and_event P E r c (wrapper_vars P c vs res) t0 t1 mw) \<longleftrightarrow>
    res = Some (VPtr Null) \<or> is_open_stream E res"
proof -
  obtain ev where ev: "\<And>sc. row_event P r sc t0 t1 = Some (ev sc)" using row_event_Some [OF assms(1)] by blast
  obtain p q where vs: "vs = [VPtr p, VPtr q]" "ptr_ok Char_ptr p" "ptr_ok Char_ptr q"
    using assms(2) by (auto simp: args_ok_def assms(4) list_all2_Cons1 ptr_value)
  obtain f where f: "res = Some (VPtr f)" "f = Null \<or> (\<exists>h. f = Stream h)"
    using assms(3) by (auto simp: assms(4) option_rel_Some1 ptr_value elim: ptr_ok.elims)
  obtain s where p: "string_arg (\<lambda>_. Some (Scalar (Ptr Char_ptr) (Some (VPtr p)))) ''path'' = Inr s"
    using vs(2) by (cases rule: char_ptr_cases) (simp_all add: string_arg_def)
  obtain s' where q: "string_arg (\<lambda>_. Some (Scalar (Ptr Char_ptr) (Some (VPtr q)))) ''mode'' = Inr s'"
    using vs(3) by (cases rule: char_ptr_cases) (simp_all add: string_arg_def)
  show ?thesis
  proof (cases "f = Null")
    case True
    then show ?thesis using p q
      by (simp add: assms(4) vs(1) f(1) hook_unfolds ev)
  next
    case False
    then obtain h where h: "f = Stream h" using f(2) by blast
    show ?thesis using p q
      by (cases "he_streams E h") (simp_all add: assms(4) vs(1) f(1) h hook_unfolds ev is_open_stream_def)
  qed
qed

lemma opendir_hook:
  assumes "r \<in> set (rows_of monitored_functions)" "args_ok c vs" "rel_option val_ok (cd_ret c) res"
    and "c = program (Some (Ptr Dir_ptr)) False [(''name'', Ptr Char_ptr)] [Declare
      ''int'' ''fd'' (Some (Var ''FD_NONE'')), If (Not (Var ''result'')) set_error (Some (Assign ''fd'' (Call
      ''dirfd'' [Var ''result''])))] ''fd'' ''ZERO_BYTES'' ''name'' ''NULL''"
  shows "defined (hook_and_event P E r c (wrapper_vars P c vs res) t0 t1 mw) \<longleftrightarrow>
    res = Some (VPtr Null) \<or> is_open_stream E res"
proof -
  obtain ev where ev: "\<And>sc. row_event P r sc t0 t1 = Some (ev sc)" using row_event_Some [OF assms(1)] by blast
  obtain p where vs: "vs = [VPtr p]" "ptr_ok Char_ptr p"
    using assms(2) by (auto simp: args_ok_def assms(4) list_all2_Cons1 ptr_value)
  obtain f where f: "res = Some (VPtr f)" "f = Null \<or> (\<exists>h. f = Stream h)"
    using assms(3) by (auto simp: assms(4) option_rel_Some1 ptr_value elim: ptr_ok.elims)
  obtain s where p: "string_arg (\<lambda>_. Some (Scalar (Ptr Char_ptr) (Some (VPtr p)))) ''name'' = Inr s"
    using vs(2) by (cases rule: char_ptr_cases) (simp_all add: string_arg_def)
  show ?thesis
  proof (cases "f = Null")
    case True
    then show ?thesis using p by (simp add: assms(4) vs(1) f(1) hook_unfolds ev)
  next
    case False
    then obtain h where h: "f = Stream h" using f(2) by blast
    show ?thesis using p
      by (cases "he_streams E h") (simp_all add: assms(4) vs(1) f(1) h hook_unfolds ev is_open_stream_def)
  qed
qed

section \<open>connect, bind, kill and fork\<close>

lemma connect_hook:
  assumes "r \<in> set (rows_of monitored_functions)" "args_ok c vs" "rel_option val_ok (cd_ret c) res"
    and "c = program (Some (Arith Int32)) False [(''fd'', Arith Int32), (''addr'', Ptr
      Sockaddr_ptr), (''addrlen'', Arith UInt32)] [If is_minus_one set_error None, Declare_array ''char'' ''path''
      200 (Some []), Do (Call ''real_ip'' [Var ''addr'', Var ''path''])] ''fd'' ''ZERO_BYTES'' ''path'' ''NULL''"
  shows "defined (hook_and_event P E r c (wrapper_vars P c vs res) t0 t1 mw) \<longleftrightarrow> argument c vs ''addr'' \<noteq> Some (VPtr Null)"
proof -
  obtain ev where ev: "\<And>sc. row_event P r sc t0 t1 = Some (ev sc)" using row_event_Some [OF assms(1)] by blast
  obtain fd p n where vs: "vs = [VInt Int32 fd, VPtr p, VInt UInt32 n]" "p = Null \<or> (\<exists>ai. p = Address ai)"
    using assms(2) by (auto simp: args_ok_def assms(4) list_all2_Cons1 ptr_value int_value elim: ptr_ok.elims)
  obtain i where i: "res = Some (VInt Int32 i)"
    using assms(3) by (auto simp: assms(4) option_rel_Some1 int_value)
  show ?thesis
  proof (cases "p = Null")
    case True
    then show ?thesis by (simp add: assms(4) vs(1) i hook_unfolds argument_def)
  next
    case False
    then obtain ai where ai: "p = Address ai" using vs(2) by blast
    show ?thesis
    proof (cases "real_ip ai")
      case None
      then show ?thesis by (simp add: assms(4) vs(1) i ai hook_unfolds ev argument_def)
    next
      case (Some ip)
      with real_ip_fits [OF Some] show ?thesis by (simp add: assms(4) vs(1) i ai hook_unfolds ev argument_def)
    qed
  qed
qed

lemma kill_hook:
  assumes "r \<in> set (rows_of monitored_functions)" "args_ok c vs" "rel_option val_ok (cd_ret c) res"
    and "c = program (Some (Arith Int32)) False [(''_pid'', Arith Int32), (''_sig'',
      Arith Int32)] [Declare_array ''char'' ''tpid'' 10 None, Declare_array ''char'' ''tsig'' 10 None, Do (Call
      ''sprintf'' [Var ''tpid'', Text ''%d'', Var ''_pid'']), Do (Call ''sprintf'' [Var ''tsig'', Text ''%d'', Var
      ''_sig''])] ''FD_NONE'' ''ZERO_BYTES'' ''tpid'' ''tsig''"
  shows "defined (hook_and_event P E r c (wrapper_vars P c vs res) t0 t1 mw) \<longleftrightarrow>
    (\<forall>i. VInt Int32 i \<in> set vs \<longrightarrow> length (show_int i) < 10)"
proof -
  obtain ev where ev: "\<And>sc. row_event P r sc t0 t1 = Some (ev sc)" using row_event_Some [OF assms(1)] by blast
  obtain i j where vs: "vs = [VInt Int32 i, VInt Int32 j]" "int32 i = i" "int32 j = j"
    using assms(2) by (auto simp: args_ok_def assms(4) list_all2_Cons1 int_value)
  obtain k where k: "res = Some (VInt Int32 k)"
    using assms(3) by (auto simp: assms(4) option_rel_Some1 int_value)
  show ?thesis
    by (cases "length (show_int i) < 10"; cases "length (show_int j) < 10")
      (auto simp: assms(4) vs k hook_unfolds ev)
qed

lemma fork_hook:
  assumes "r \<in> set (rows_of monitored_functions)" "args_ok c vs" "rel_option val_ok (cd_ret c) res"
    and "c = program (Some (Arith Int32)) False [] [If (Bin Equal (Var ''result'') (Const
      0)) (Do (Call ''init'' [])) None] ''FD_NONE'' ''ZERO_BYTES'' ''NULL'' ''NULL''"
  shows "defined (hook_and_event P E r c (wrapper_vars P c vs res) t0 t1 mw) \<longleftrightarrow>
    (res = Some (VInt Int32 0) \<longrightarrow> defined (he_init E mw))"
proof -
  obtain ev where ev: "\<And>sc. row_event P r sc t0 t1 = Some (ev sc)" using row_event_Some [OF assms(1)] by blast
  obtain k where k: "res = Some (VInt Int32 k)"
    using assms(3) by (auto simp: assms(4) option_rel_Some1 int_value)
  have zero: "int32 0 = 0" "int32 k = k" using assms(3) by (simp_all add: assms(4) k int32_def)
  show ?thesis
    by (cases "k = 0"; cases "he_init E mw") (auto simp: assms(4) k zero hook_unfolds ev)
qed

section \<open>Reading and writing\<close>

lemma http_call_hook:
  assumes "r \<in> set (rows_of monitored_functions)" "args_ok c vs" "rel_option val_ok (cd_ret c) res"
    and "c = program (Some (Arith Int64)) False ([(''fd'', Arith Int32), (''buf'', Ptr Other_ptr), (''count'', Arith UInt64)] @ rest)
      [If is_negative set_error None, Do (Call ''check_for_http'' [Var dm, Var ''fd'', Var ''buf'', Var ''count'',
       time_before, time_after])] ''fd'' ''count'' ''NULL'' ''NULL''"
    and "dm = ''FILE_READ'' \<or> dm = ''FILE_WRITE''" "rest = [] \<or> rest = [(''flags'', Arith Int32)]"
  obtains fd p n where "take 3 vs = [VInt Int32 fd, VPtr p, VInt UInt64 n]"
    "defined (hook_and_event P E r c (wrapper_vars P c vs res) t0 t1 mw) \<longleftrightarrow>
      defined (he_http E (int (domain_index (if dm = ''FILE_READ'' then FILE_READ else FILE_WRITE))) fd p (nat n) mw)"
proof -
  obtain ev where ev: "\<And>sc. row_event P r sc t0 t1 = Some (ev sc)" using row_event_Some [OF assms(1)] by blast
  obtain fd p n ws where vs: "vs = VInt Int32 fd # VPtr p # VInt UInt64 n # ws" "int32 fd = fd" "convert UInt64 n = n"
      "ws = [] \<or> (\<exists>k. ws = [VInt Int32 k])"
    using assms(2,6) by (auto simp: args_ok_def assms(4) list_all2_Cons1 ptr_value int_value)
  obtain k where k: "res = Some (VInt Int64 k)"
    using assms(3) by (auto simp: assms(4) option_rel_Some1 int_value)
  define d where "d = int (domain_index (if dm = ''FILE_READ'' then FILE_READ else FILE_WRITE))"
  have small: "int32 (int (domain_index FILE_READ)) = int (domain_index FILE_READ)"
    "int32 (int (domain_index FILE_WRITE)) = int (domain_index FILE_WRITE)" by (simp_all add: int32_def)
  have zero: "convert Int64 0 = 0" by simp
  have "defined (hook_and_event P E r c (wrapper_vars P c vs res) t0 t1 mw) \<longleftrightarrow> defined (he_http E d fd p (nat n) mw)"
  proof (cases "he_http E d fd p (nat n) mw")
    case (Inl u)
    with assms(5) show ?thesis
      by (elim disjE) (simp_all add: assms(4) vs k d_def hook_unfolds call_http_def small [simplified] zero
          vs(3) [simplified] del: convert.simps(3))
  next
    case (Inr mw')
    with assms(5) show ?thesis
      by (elim disjE) (simp_all add: assms(4) vs k d_def hook_unfolds call_http_def small [simplified] zero ev
          vs(3) [simplified] del: convert.simps(3))
  qed
  with that show ?thesis by (simp add: d_def vs(1))
qed

section \<open>All hooks\<close>

definition http_safe :: "'m hook_env \<Rightarrow> domain_type \<Rightarrow> cval list \<Rightarrow> 'm \<Rightarrow> bool" where
  "http_safe E dm vs mw =
     (case take 3 vs of
        [VInt ct fd, VPtr p, VInt ct' n] \<Rightarrow> defined (he_http E (int (domain_index dm)) fd p (nat n) mw)
      | _ \<Rightarrow> True)"

text \<open>What a hook needs of the call: an open stream; a result that is one, or \<open>NULL\<close>; an address; numbers of
  at most nine characters; data in which \<open>check_for_http\<close> does not go wrong; an \<open>init\<close> that returns.\<close>

definition hook_safe :: "'m hook_env \<Rightarrow> string \<Rightarrow> code \<Rightarrow> cval list \<Rightarrow> cval option \<Rightarrow> 'm \<Rightarrow> bool" where
  "hook_safe E n c vs res mw \<longleftrightarrow>
     (case stream_param c of
        Some x \<Rightarrow> is_open_stream E (argument c vs x)
      | None \<Rightarrow>
          if List.member [''fopen'', ''fopen64'', ''opendir''] n then res = Some (VPtr Null) \<or> is_open_stream E res
          else if List.member [''connect'', ''bind''] n then argument c vs ''addr'' \<noteq> Some (VPtr Null)
          else if n = ''kill'' then \<forall>i. VInt Int32 i \<in> set vs \<longrightarrow> length (show_int i) < 10
          else if n = ''fork'' then res = Some (VInt Int32 0) \<longrightarrow> defined (he_init E mw)
          else if List.member [''read'', ''recv''] n then http_safe E FILE_READ vs mw
          else if List.member [''write'', ''send''] n then http_safe E FILE_WRITE vs mw
          else True)"

definition own_conditions :: "string list" where
  "own_conditions = [''fopen'', ''fopen64'', ''opendir'', ''connect'', ''bind'', ''kill'', ''fork'', ''read'', ''recv'',
     ''write'', ''send'']"

lemma hook_groups:
  "list_all (\<lambda>(n, c). case stream_param c of
      Some x \<Rightarrow> \<not> List.member own_conditions n \<and>
        (map_of (cd_params c) x = Some (Ptr File_ptr) \<or> map_of (cd_params c) x = Some (Ptr Dir_ptr))
    | None \<Rightarrow> List.member own_conditions n \<or> is_harmless c) code_table"
  by code_simp

lemma argument_typed:
  assumes "args_ok c vs" "map_of (cd_params c) x = Some \<tau>"
  obtains v where "argument c vs x = Some v" "val_ok \<tau> v"
proof -
  have "\<exists>v. map_of (zip (map fst ps) vs) x = Some v \<and> val_ok \<tau> v"
    if "list_all2 (\<lambda>(x, \<tau>) v. val_ok \<tau> v) ps vs" "map_of ps x = Some \<tau>" for ps
    using that
  proof (induction ps vs rule: list_all2_induct)
    case (Cons p ps w vs)
    then show ?case by (cases p) (simp split: if_splits)
  qed simp
  from this [OF assms(1) [unfolded args_ok_def] assms(2)] that show thesis unfolding argument_def by blast
qed

lemma stream_fd_defined:
  assumes "ptr_ok k p" "k = File_ptr \<or> k = Dir_ptr"
  shows "(case stream_fd E (VPtr p) of Inl u \<Rightarrow> False | Inr fd \<Rightarrow> True) = is_open_stream E (Some (VPtr p))"
  using assms by (cases p) (auto simp: is_open_stream_def split: option.splits)

lemma http_safe_eq:
  "take 3 vs = [VInt ct fd, VPtr p, VInt ct' n] \<Longrightarrow>
    http_safe E dm vs mw = defined (he_http E (int (domain_index dm)) fd p (nat n) mw)"
  by (simp add: http_safe_def)

lemma hook_defined:
  assumes "r \<in> set (rows_of monitored_functions)" "code_of r = Some c" "env_ok E" "args_ok c vs"
    and "if cd_exec c then res = None else rel_option val_ok (cd_ret c) res"
    and "int32 (error_code_init P) = error_code_init P"
  shows "defined (hook_and_event P E r c (wrapper_vars P c vs res) t0 t1 mw) = hook_safe E (rw_name r) c vs res mw"
proof -
  have tab: "map_of code_table (rw_name r) = Some c" by (rule named_code [OF assms(1,2)])
  then have mem: "(rw_name r, c) \<in> set code_table" by (rule map_of_SomeD)
  note cf = wrapper_vars_conform [OF assms(4,6,5)]
  show ?thesis
  proof (cases "stream_param c")
    case (Some x)
    then obtain k where k: "map_of (cd_params c) x = Some (Ptr k)" "k = File_ptr \<or> k = Dir_ptr"
      using hook_groups mem by (fastforce simp: list_all_iff)
    obtain p where p: "argument c vs x = Some (VPtr p)" "ptr_ok k p"
      using argument_typed [OF assms(4) k(1)] by (auto simp: ptr_value)
    show ?thesis
      using stream_hook [OF assms(1,2) Some assms(3,4) p(1) cf, of t0 t1 mw] stream_fd_defined [OF p(2) k(2), of E]
      by (auto simp: hook_safe_def Some p(1) split: sum.splits)
  next
    case None
    show ?thesis
    proof (cases "List.member own_conditions (rw_name r)")
      case False
      then have "is_harmless c" using hook_groups mem None by (fastforce simp: list_all_iff)
      then have "\<exists>ev. hook_and_event P E r c (wrapper_vars P c vs res) t0 t1 mw = Inr (ev, mw)"
        using harmless_hook [OF assms(1,2) _ assms(3) cf wrapper_vars_set] by (simp add: is_harmless_def)
      with False None show ?thesis by (auto simp: hook_safe_def own_conditions_def)
    next
      case True
      then have "\<not> cd_exec c" using tab by (auto simp: own_conditions_def risky_codes)
      with assms(5) have res: "rel_option val_ok (cd_ret c) res" by simp
      have http: "defined (hook_and_event P E r c (wrapper_vars P c vs res) t0 t1 mw) =
          http_safe E (if dm = ''FILE_READ'' then FILE_READ else FILE_WRITE) vs mw"
        if "c = program (Some (Arith Int64)) False ([(''fd'', Arith Int32), (''buf'', Ptr Other_ptr), (''count'', Arith UInt64)] @ rest)
          [If is_negative set_error None, Do (Call ''check_for_http'' [Var dm, Var ''fd'', Var ''buf'', Var ''count'',
           time_before, time_after])] ''fd'' ''count'' ''NULL'' ''NULL''"
          "dm = ''FILE_READ'' \<or> dm = ''FILE_WRITE''" "rest = [] \<or> rest = [(''flags'', Arith Int32)]" for dm rest
        by (rule http_call_hook [OF assms(1,4) res that]) (simp add: http_safe_eq)
      consider "rw_name r = ''fopen'' \<or> rw_name r = ''fopen64''" | "rw_name r = ''opendir''"
        | "rw_name r = ''connect'' \<or> rw_name r = ''bind''" | "rw_name r = ''kill''" | "rw_name r = ''fork''"
        | "rw_name r = ''read'' \<or> rw_name r = ''recv''" | "rw_name r = ''write'' \<or> rw_name r = ''send''"
        using True by (auto simp: own_conditions_def)
      then show ?thesis
      proof cases
        case 1
        then show ?thesis
          by (elim disjE) (rule trans [OF fopen_hook [OF assms(1,4) res]], use tab None in \<open>simp_all add: hook_safe_def risky_codes\<close>)+
      next
        case 2
        then show ?thesis
          by (intro trans [OF opendir_hook [OF assms(1,4) res]]) (use tab None in \<open>simp_all add: hook_safe_def risky_codes\<close>)
      next
        case 3
        then show ?thesis
          by (elim disjE) (rule trans [OF connect_hook [OF assms(1,4) res]], use tab None in \<open>simp_all add: hook_safe_def risky_codes\<close>)+
      next
        case 4
        then show ?thesis
          by (intro trans [OF kill_hook [OF assms(1,4) res]]) (use tab None in \<open>simp_all add: hook_safe_def risky_codes\<close>)
      next
        case 5
        then show ?thesis
          by (intro trans [OF fork_hook [OF assms(1,4) res]]) (use tab None in \<open>simp_all add: hook_safe_def risky_codes\<close>)
      next
        case 6
        then show ?thesis
        proof
          assume n: "rw_name r = ''read''"
          show ?thesis
            by (rule trans [OF http [of "[]" "''FILE_READ''"]]) (use tab None n in \<open>simp_all add: hook_safe_def risky_codes\<close>)
        next
          assume n: "rw_name r = ''recv''"
          show ?thesis
            by (rule trans [OF http [of "[(''flags'', Arith Int32)]" "''FILE_READ''"]])
              (use tab None n in \<open>simp_all add: hook_safe_def risky_codes\<close>)
        qed
      next
        case 7
        then show ?thesis
        proof
          assume n: "rw_name r = ''write''"
          show ?thesis
            by (rule trans [OF http [of "[]" "''FILE_WRITE''"]]) (use tab None n in \<open>simp_all add: hook_safe_def risky_codes\<close>)
        next
          assume n: "rw_name r = ''send''"
          show ?thesis
            by (rule trans [OF http [of "[(''flags'', Arith Int32)]" "''FILE_WRITE''"]])
              (use tab None n in \<open>simp_all add: hook_safe_def risky_codes\<close>)
        qed
      qed
    qed
  qed
qed

section \<open>Over the message queue\<close>

text \<open>The path of an OPEN is given.\<close>

definition open_path_given :: "row \<Rightarrow> code \<Rightarrow> cval list \<Rightarrow> bool" where
  "open_path_given r c vs \<longleftrightarrow> (echo (rw_op r) = ''OPEN'' \<longrightarrow> (\<exists>p. argument c vs (cd_s1 c) = Some (VPtr (String p))))"

lemma check_for_http_keeps:
  assumes "check_for_http (record_event P d) dm fd data n t0 t1 (m, w) = Inr (m', w')" "queue_ready m"
  shows "queue_ready m'"
  using assms queue_record_keeps by (auto simp: check_for_http_def split: option.splits)

lemma queue_hook_keeps:
  assumes "exec_list (wrapper_env (record_event P d) (init P (record_event P d) len data ppid dir) oc t0 t1) ss (\<sigma>, mw) =
      Inr (\<sigma>', mw')" "queue_ready (fst mw)"
  shows "queue_ready (fst mw')"
proof (rule exec_keeps(2) [where I = "\<lambda>mw. queue_ready (fst mw)", OF _ _ assms])
  fix dm f p n m m'
  assume "he_http (wrapper_env (record_event P d) (init P (record_event P d) len data ppid dir) oc t0 t1) dm f p n m = Inr m'"
    "queue_ready (fst m)"
  then show "queue_ready (fst m')"
    by (cases m; cases m')
      (auto simp: wrapper_env_def http_hook_def split: pointer.splits if_splits dest: check_for_http_keeps)
next
  fix m m'
  assume a: "he_init (wrapper_env (record_event P d) (init P (record_event P d) len data ppid dir) oc t0 t1) m = Inr m'"
    "queue_ready (fst m)"
  show "queue_ready (fst m')"
    using a by (cases m; cases m') (auto simp: wrapper_env_def init_def sprintf_arr_def Let_def split: if_splits dest!: queue_record_keeps)
qed

lemma queue_wrapper:
  assumes "r \<in> set (rows_of monitored_functions)" "code_of r = Some c" "\<not> cd_exec c" "call_ok c cl"
    and "open_path_given r c (cl_args cl)" "queue_ready m" "int32 (error_code_init P) = error_code_init P"
    and "cl_orig cl w = (oc, w1)" "rec = record_event P (Suc d)" "ini = init P rec len data ppid dir"
    and "E = wrapper_env rec ini oc (os_clock P w) (os_clock P w1)"
  shows "if hook_safe E (rw_name r) c (cl_args cl) (oc_result oc) (m, w1)
    then \<exists>m' w'. run_wrapper P rec ini r cl (m, w) = Inr (oc_result oc, m', w') \<and> queue_ready m'
    else \<exists>u. run_wrapper P rec ini r cl (m, w) = Inl u"
proof -
  define t0 t1 \<sigma> where "t0 = os_clock P w" and "t1 = os_clock P w1" and "\<sigma> = wrapper_vars P c (cl_args cl) (oc_result oc)"
  have formed: "rec e mw \<noteq> Inl IllFormed" "ini mw \<noteq> Inl IllFormed" for e mw
    unfolding assms(9,10) by (rule record_event_formed, rule init_formed)
  have env: "outcome_ok c oc" "env_ok E"
    unfolding assms(11) by (rule call_ok_env [OF assms(4,8) formed])+
  have args: "args_ok c (cl_args cl)" using assms(4) by (simp add: call_ok_def)
  have d: "defined (hook_and_event P E r c \<sigma> t0 t1 (m, w1)) = hook_safe E (rw_name r) c (cl_args cl) (oc_result oc) (m, w1)"
    unfolding \<sigma>_def using env(1) assms(3) by (intro hook_defined [OF assms(1,2) env(2) args _ assms(7)]) (simp add: outcome_ok_def)
  have run: "run_wrapper P rec ini r cl (m, w) =
      bindR (hook_and_event P E r c \<sigma> t0 t1 (m, w1)) (\<lambda>(ev, mw). bindR (rec ev mw) (\<lambda>mw. Inr (oc_result oc, mw)))"
    unfolding \<sigma>_def t0_def t1_def assms(11) by (rule run_wrapper_eq [OF assms(2,3,8)])
  show ?thesis
  proof (cases "hook_and_event P E r c \<sigma> t0 t1 (m, w1)")
    case (Inl u)
    with d run show ?thesis by simp
  next
    case (Inr x)
    then obtain ev m1 w2 where h: "hook_and_event P E r c \<sigma> t0 t1 (m, w1) = Inr (ev, m1, w2)" by (metis surj_pair)
    then have q: "queue_ready m1"
      using queue_hook_keeps [of P "Suc d" len data ppid dir oc] assms(6,9-11)
      by (fastforce simp: hook_and_event_def t0_def t1_def simp del: record_event.simps)
    have p: "ev_op_type ev = OPEN \<longrightarrow> ev_s1 ev \<noteq> None"
    proof
      assume op: "ev_op_type ev = OPEN"
      obtain sc where "row_event P r sc t0 t1 = Some ev"
        using h by (auto simp: hook_and_event_def record_call_def split: option.splits)
      then have "echo (rw_op r) = ''OPEN''" using row_event_fields(1) op op_named_OPEN by metis
      then obtain p where "argument c (cl_args cl) (cd_s1 c) = Some (VPtr (String p))"
        using assms(5) by (auto simp: open_path_given_def)
      from open_event_path [OF assms(1,2) args this h [unfolded \<sigma>_def] op] show "ev_s1 ev \<noteq> None" by simp
    qed
    obtain m' w' where fin: "rec ev (m1, w2) = Inr (m', w')" "queue_ready m'"
      unfolding assms(9) by (rule queue_record_returns [OF q p])
    have "run_wrapper P rec ini r cl (m, w) = Inr (oc_result oc, m', w')" unfolding run h using fin(1) by simp
    then show ?thesis using d h fin(2) by simp
  qed
qed

end
