(* ===== verification/Hook_Properties.thy ===== *)
theory Hook_Properties
imports Hook_Faults Wrapper_Properties
begin

text \<open>
  Properties of the generated wrappers with their hooks: that they are well typed and hand on the result,
  when they come back, which error codes and numbers of bytes they record, what a variant of \<open>exec\<close>
  records, and that the monitor's own calls are wrapped as \<open>Recorder\<close> has it.
\<close>

section \<open>Rows by name\<close>

lemma row_with_code:
  assumes "map_of code_table n = Some c"
  obtains r where "r \<in> set (rows_of monitored_functions)" "rw_name r = n" "code_of r = Some c"
proof -
  have "(n, Some c) \<in> set (map (\<lambda>r. (rw_name r, code_of r)) (rows_of monitored_functions))"
    unfolding code_table using map_of_SomeD [OF assms] by (auto intro!: image_eqI [where x = "(n, c)"])
  then show ?thesis using that by auto
qed

text \<open>Calls for the witnesses: on a machine with the message queue, with these streams open.\<close>

definition demo_queue :: mon where
  "demo_queue = demo_mon\<lparr>m_message_queue_path := Some ''/tmp/mq''\<rparr>"

definition demo_call :: "cval list \<Rightarrow> cval \<Rightarrow> int \<Rightarrow> (nat \<Rightarrow> int option) \<Rightarrow> unit invocation" where
  "demo_call vs v errno streams =
     \<lparr>cl_args = vs, cl_before = \<lparr>oc_result = None, oc_errno = 0, oc_streams = streams\<rparr>, cl_more = [],
      cl_orig = (\<lambda>w. (\<lparr>oc_result = Some v, oc_errno = errno, oc_streams = streams\<rparr>, w))\<rparr>"

abbreviation demo_run :: "row \<Rightarrow> unit invocation \<Rightarrow> (cval option \<times> mon \<times> unit) res" where
  "demo_run r cl \<equiv> run_wrapper (demo_platform 0 0) (record_event (demo_platform 0 0) (Suc 0))
     (init (demo_platform 0 0) (record_event (demo_platform 0 0) (Suc 0)) 0 [] 1 None) r cl (demo_queue, ())"

lemma demo_ok [simp]:
  "int32 (error_code_init (demo_platform 0 0)) = error_code_init (demo_platform 0 0)"
  "m_message_queue_path demo_queue = Some ''/tmp/mq''" "queue_ready demo_queue"
  by (simp_all add: demo_platform_def int32_def demo_queue_def queue_ready_def)

lemma demo_call_sel [simp]:
  "cl_args (demo_call vs v errno streams) = vs"
  "cl_orig (demo_call vs v errno streams) w = (\<lparr>oc_result = Some v, oc_errno = errno, oc_streams = streams\<rparr>, w)"
  by (simp_all add: demo_call_def)

section \<open>Types\<close>

text \<open>C7: every hook of \<open>monitored_functions.data\<close> is a program a C compiler accepts in its wrapper, and the
  wrapper hands on the result. Whatever arguments and results of their types a call has, the wrapper never
  meets a name out of scope, an operand of a wrong type or a call it cannot make; and if it comes back, its
  result is the one of the original function, called once: on the world as the caller left it, or for a
  variant of \<open>exec\<close> as \<open>record\<close> left it.\<close>

theorem wrappers_well_typed:
  assumes "r \<in> set (rows_of monitored_functions)"
  shows "\<exists>c. code_of r = Some c \<and> cd_exec c = is_exec_call r \<and>
    (\<forall>cl. call_ok c cl \<longrightarrow> int32 (error_code_init P) = error_code_init P \<longrightarrow>
      (case run_wrapper P (record_event P d) (init P (record_event P d) len data ppid dir) r cl (m, w) of
         Inl u \<Rightarrow> u \<noteq> IllFormed
       | Inr (v, mw') \<Rightarrow> \<exists>w1. v = oc_result (fst (cl_orig cl w1)) \<and> (\<not> is_exec_call r \<longrightarrow> w1 = w)))"
proof -
  obtain c where c: "code_of r = Some c" by (rule row_code [OF assms])
  have e: "cd_exec c = is_exec_call r" by (rule code_of_fields(1) [OF c])
  have "case run_wrapper P (record_event P d) (init P (record_event P d) len data ppid dir) r cl (m, w) of
         Inl u \<Rightarrow> u \<noteq> IllFormed
       | Inr (v, mw') \<Rightarrow> \<exists>w1. v = oc_result (fst (cl_orig cl w1)) \<and> (\<not> is_exec_call r \<longrightarrow> w1 = w)"
    if "call_ok c cl" "int32 (error_code_init P) = error_code_init P" for cl
  proof -
    have "sound (\<lambda>(v, mw'). \<exists>w1. v = oc_result (fst (cl_orig cl w1)) \<and> (\<not> cd_exec c \<longrightarrow> w1 = snd (m, w)))
        (run_wrapper P (record_event P d) (init P (record_event P d) len data ppid dir) r cl (m, w))"
      by (rule run_wrapper_sound [OF assms c that record_event_formed init_formed])
    then show ?thesis by (auto simp: sound_def e split: sum.splits)
  qed
  with c e show ?thesis by blast
qed

theorem wrappers_well_typed_witness:
  "case demo_run close_row (demo_call [VInt Int32 7] (VInt Int32 (- 1)) 9 (\<lambda>_. None)) of
     Inl u \<Rightarrow> u \<noteq> IllFormed | Inr (v, mw) \<Rightarrow> v = Some (VInt Int32 (- 1))"
proof -
  have row: "close_row \<in> set (rows_of monitored_functions)" using own_rows by simp
  obtain c where c: "code_of close_row = Some c" "map_of code_table ''close'' = Some c"
    using own_code_of(4) own_codes(4) by simp
  then have "call_ok c (demo_call [VInt Int32 7] (VInt Int32 (- 1)) 9 (\<lambda>_. None))"
    by (auto simp: own_codes call_ok_def args_ok_def outcome_ok_def demo_call_def int32_def)
  with wrappers_well_typed [OF row, where P = "demo_platform 0 0" and d = "Suc 0" and len = 0 and data = "[]" and ppid = 1
      and dir = None and m = demo_queue and w = "()"] c(1)
  show ?thesis by (auto split: sum.splits simp del: record_event.simps)
qed

section \<open>When a wrapper comes back\<close>

text \<open>C6: over the message queue a wrapper comes back with the result of the original function exactly if its
  hook is safe for the call: the stream it asks for its descriptor is open \<^emph>\<open>after\<close> the call -- which the
  stream of \<open>closedir\<close> is not, nor the one of \<open>fflush (NULL)\<close> --, the address of a \<open>connect\<close> or \<open>bind\<close> is not
  \<open>NULL\<close>, the numbers of a \<open>kill\<close> have at most nine characters, \<open>check_for_http\<close> does not leave the data of a
  read or write, and \<open>init\<close> returns in the child of a \<open>fork\<close>. For all other functions there is no condition,
  except that the path of an OPEN is given.\<close>

theorem wrapper_comes_back:
  assumes "r \<in> set (rows_of monitored_functions)" "code_of r = Some c" "\<not> is_exec_call r" "call_ok c cl"
    and "open_path_given r c (cl_args cl)" "m_message_queue_path m \<noteq> None"
    and "int32 (error_code_init P) = error_code_init P" "cl_orig cl w = (oc, w1)"
    and "E = wrapper_env (record_event P (Suc d)) (init P (record_event P (Suc d)) len data ppid dir) oc
        (os_clock P w) (os_clock P w1)"
  shows "if hook_safe E (rw_name r) c (cl_args cl) (oc_result oc) (m, w1)
    then \<exists>m' w'. run_wrapper P (record_event P (Suc d)) (init P (record_event P (Suc d)) len data ppid dir) r cl (m, w) =
        Inr (oc_result oc, m', w')
    else \<exists>u. run_wrapper P (record_event P (Suc d)) (init P (record_event P (Suc d)) len data ppid dir) r cl (m, w) = Inl u"
proof -
  have "\<not> cd_exec c" "queue_ready m" using assms(3,6) code_of_fields(1) [OF assms(2)] by (simp_all add: queue_ready_def)
  from queue_wrapper [OF assms(1,2) this(1) assms(4,5) this(2) assms(7,8) refl refl assms(9)]
  show ?thesis by (auto split: if_splits)
qed

lemma closedir_code:
  "map_option (\<lambda>c. (cd_exec c, cd_params c, cd_ret c, stream_param c)) (map_of code_table ''closedir'') =
     Some (False, [(''dirp'', Ptr Dir_ptr)], Some (Arith Int32), Some ''dirp'')"
  by code_simp

theorem wrapper_comes_back_witness:
  "\<exists>r u. rw_name r = ''closedir'' \<and> demo_run r (demo_call [VPtr (Stream 3)] (VInt Int32 0) 0 (\<lambda>_. None)) = Inl u"
proof -
  obtain c where c: "map_of code_table ''closedir'' = Some c" "\<not> cd_exec c" "cd_params c = [(''dirp'', Ptr Dir_ptr)]"
      "cd_ret c = Some (Arith Int32)" "stream_param c = Some ''dirp''" using closedir_code by auto
  obtain r where r: "r \<in> set (rows_of monitored_functions)" "rw_name r = ''closedir''" "code_of r = Some c"
    by (rule row_with_code [OF c(1)])
  have op: "echo (rw_op r) \<noteq> ''OPEN''" using open_rows [OF r(1)] r(2) by (auto simp: open_names_def)
  have "call_ok c (demo_call [VPtr (Stream 3)] (VInt Int32 0) 0 (\<lambda>_. None))"
    by (auto simp: c call_ok_def args_ok_def outcome_ok_def demo_call_def int32_def)
  from wrapper_comes_back [OF r(1,3) _ this _ _ _ demo_call_sel(2) refl, of demo_queue "demo_platform 0 0" 0 0 "[]" 1 None] c(2) op
  have "\<exists>u. demo_run r (demo_call [VPtr (Stream 3)] (VInt Int32 0) 0 (\<lambda>_. None)) = Inl u"
    by (simp add: open_path_given_def hook_safe_def c argument_def is_open_stream_def wrapper_env_def
        flip: code_of_fields(1) [OF r(3)] del: record_event.simps)
  with r(2) show ?thesis by blast
qed

section \<open>exec\<close>

lemma exec_codes:
  "list_all (\<lambda>(n, c). cd_exec c \<longrightarrow> cd_hook c = [] \<and> cd_s1 c = fst (hd (cd_params c)) \<and> cd_s1 c \<noteq> ''NULL'' \<and>
     cd_s1 c \<noteq> ''error_code'' \<and> cd_s1 c \<noteq> ''result'') code_table"
  by code_simp

lemma exec_ops: "list_all (\<lambda>(n, d, op, f, c). List.member (map fst (filter (\<lambda>(n, c). cd_exec c) code_table)) n \<longrightarrow> op = ''EXEC'') wrapper_table"
  by code_simp

text \<open>The wrapper of a variant of \<open>exec\<close> up to the original function.\<close>

lemma exec_body:
  assumes "r \<in> set (rows_of monitored_functions)" "code_of r = Some c" "cd_exec c" "args_ok c (cl_args cl)"
    and "int32 (oc_errno (cl_before cl)) = oc_errno (cl_before cl)"
      "\<forall>h fd. oc_streams (cl_before cl) h = Some fd \<longrightarrow> int32 fd = fd"
    and "queue_ready m" "int32 (error_code_init P) = error_code_init P"
    and "argument c (cl_args cl) (fst (hd (cd_params c))) = Some (VPtr (String path))"
    and "rec = record_event P (Suc d)" "ini = init P rec len data ppid dir"
  obtains ev m1 w1 where "ev_op_type ev = EXEC" "ev_s1 ev = Some path" "ev_error_code ev = error_code_init P"
    "rec ev (m, w) = Inr (m1, w1)" "queue_ready m1" "\<And>orig. wrapper_body P rec ini r cl orig (m, w) = orig (m1, w1)"
proof -
  obtain c' where "code_of r = Some c'" "(rw_name r, c') \<in> set code_table" by (rule row_code [OF assms(1)])
  then have mem: "(rw_name r, c) \<in> set code_table" using assms(2) by simp
  from bspec [OF exec_codes [unfolded list_all_iff] mem] assms(3)
  have c: "cd_hook c = []" "cd_s1 c = fst (hd (cd_params c))" "cd_s1 c \<noteq> ''NULL''" "cd_s1 c \<noteq> ''error_code''" "cd_s1 c \<noteq> ''result''"
    by auto
  define t where "t = os_clock P w"
  define E where "E = wrapper_env rec ini (cl_before cl) t t"
  define \<sigma> where "\<sigma> = wrapper_vars P c (cl_args cl) None"
  have formed: "rec e mw \<noteq> Inl IllFormed" "ini mw \<noteq> Inl IllFormed" for e mw
    unfolding assms(10,11) by (rule record_event_formed, rule init_formed)
  have "env_ok E" unfolding E_def by (rule wrapper_env_ok [OF assms(5,6) formed])
  moreover have "conforms (wrapper_typing c) \<sigma>"
    unfolding \<sigma>_def using assms(3) by (intro wrapper_vars_conform [OF assms(4,8)]) simp
  moreover have "all_set \<sigma>" unfolding \<sigma>_def by (rule wrapper_vars_set)
  ultimately obtain ev where h: "hook_and_event P E r c \<sigma> t t (m, w) = Inr (ev, m, w)"
    using harmless_hook [OF assms(1,2)] c(1) by fastforce
  then have rc: "record_call P E r c \<sigma> t t = Inr ev" by (auto simp: hook_and_event_def c(1))
  obtain s1 err sc where e: "string_arg \<sigma> (cd_s1 c) = Inr s1" "eval_int E \<sigma> Int32 (Var ''error_code'') = Inr err"
      "row_event P r sc t t = Some ev" "sc_int sc ''error_code'' = err" "sc_str sc (cd_s1 c) = s1"
    by (rule record_call_event [OF rc]) simp
  obtain \<tau> where "\<sigma> (cd_s1 c) = Some (Scalar \<tau> (Some (VPtr (String path))))"
    using argument_var [OF assms(4,9)] c(2,4,5) unfolding \<sigma>_def by metis
  with e(1) c(3) have "s1 = Some path" by (simp add: string_arg_def)
  then have s1: "ev_s1 ev = Some path"
    using row_event_fields(2) [OF e(3)] e(5) code_of_fields(4) [OF assms(2)] c(3) by simp
  have "err = error_code_init P"
    using e(2) assms(8) by (cases "cd_ret c") (simp_all add: \<sigma>_def wrapper_vars_def eval_int_def macro_def Let_def)
  then have err: "ev_error_code ev = error_code_init P" using row_event_error [OF e(3)] e(4) by simp
  have "row_summary r \<in> set wrapper_table" using assms(1) by (simp flip: rows_table)
  then have "echo (rw_op r) = ''EXEC''" using exec_ops mem assms(3) by (fastforce simp: list_all_iff row_summary_def)
  moreover have "op_named ''EXEC'' = Some EXEC" by code_simp
  ultimately have op: "ev_op_type ev = EXEC" using row_event_fields(1) [OF e(3)] by simp
  obtain m1 w1 where fin: "rec ev (m, w) = Inr (m1, w1)" "queue_ready m1"
    unfolding assms(10) by (rule queue_record_returns [OF assms(7), of ev P d w]) (use s1 in simp)
  have "wrapper_body P rec ini r cl orig (m, w) = orig (m1, w1)" for orig
    using h fin(1) by (simp add: wrapper_body_def assms(2,3) t_def E_def \<sigma>_def)
  with op s1 err fin show ?thesis by (rule that)
qed

text \<open>C23: a variant of \<open>exec\<close> is recorded before it runs, since it does not come back if it succeeds. The
  record has the path or file name and no error; if the call fails, the failure is returned to the caller
  and never recorded. \<open>execl\<close>, \<open>execlp\<close> and \<open>execle\<close> are recorded twice, since the call of \<open>execv\<close>, \<open>execvp\<close> or
  \<open>execvpe\<close> in the monitor's own helper is intercepted too; or they overrun the helper's table, if they have
  more than 510 arguments after the first, and \<open>execle\<close> also without a first.\<close>

theorem exec_recorded_before:
  assumes "r \<in> set (rows_of monitored_functions)" "code_of r = Some c" "is_exec_call r" "call_ok c cl"
    and "m_message_queue_path m \<noteq> None" "int32 (error_code_init P) = error_code_init P"
    and "argument c (cl_args cl) (fst (hd (cd_params c))) = Some (VPtr (String path))"
    and "rec = record_event P (Suc d)" "ini = init P rec len data ppid dir"
  shows "\<exists>ev m1 w1. ev_op_type ev = EXEC \<and> ev_s1 ev = Some path \<and> ev_error_code ev = error_code_init P \<and>
    rec ev (m, w) = Inr (m1, w1) \<and>
    (if rw_name r \<notin> {''execl'', ''execlp'', ''execle''}
     then run_wrapper P rec ini r cl (m, w) = (case cl_orig cl w1 of (oc, w2) \<Rightarrow> Inr (oc_result oc, m1, w2))
     else if 510 < length (cl_more cl) \<or> rw_name r = ''execle'' \<and> cl_args cl ! 1 = VPtr Null
     then run_wrapper P rec ini r cl (m, w) = Inl BufferOverflow
     else \<exists>ev' m2 w2. ev_op_type ev' = EXEC \<and> ev_s1 ev' = Some path \<and> ev_error_code ev' = error_code_init P \<and>
       rec ev' (m1, w1) = Inr (m2, w2) \<and>
       run_wrapper P rec ini r cl (m, w) = (case cl_orig cl w2 of (oc, w3) \<Rightarrow> Inr (oc_result oc, m2, w3)))"
proof -
  have ex: "cd_exec c" using assms(3) code_of_fields(1) [OF assms(2)] by simp
  note call = assms(4) [unfolded call_ok_def]
  have q: "queue_ready m" using assms(5) by (simp add: queue_ready_def)
  obtain ev m1 w1 where ev: "ev_op_type ev = EXEC" "ev_s1 ev = Some path" "ev_error_code ev = error_code_init P"
    "rec ev (m, w) = Inr (m1, w1)" "queue_ready m1" and run: "\<And>orig. wrapper_body P rec ini r cl orig (m, w) = orig (m1, w1)"
    by (rule exec_body [OF assms(1,2) ex _ _ _ q assms(6-9), of w]) (use call in auto)
  show ?thesis
  proof (cases "exec_helper (rw_name r)")
    case None
    then have n: "rw_name r \<notin> {''execl'', ''execlp'', ''execle''}" by (auto simp: exec_helper_def split: if_splits)
    have "run_wrapper P rec ini r cl (m, w) = (case cl_orig cl w1 of (oc, w2) \<Rightarrow> Inr (oc_result oc, m1, w2))"
      by (simp add: run_wrapper_def run original_function_def None library_call_def split: prod.splits)
    with ev n show ?thesis by (intro exI [of _ ev] exI [of _ m1] exI [of _ w1]) simp
  next
    case (Some helper)
    then have n: "rw_name r \<in> {''execl'', ''execlp'', ''execle''}" by (auto simp: exec_helper_def split: if_splits)
    obtain x y where ps: "cd_params c = [(x, Ptr Char_ptr), (y, Ptr Char_ptr)]"
      using exec_row(2) [OF assms(1,2) ex] Some by (cases "cd_params c") auto
    then obtain arg where args: "cl_args cl = [VPtr (String path), VPtr arg]"
      using call assms(7) by (auto simp: args_ok_def argument_def list_all2_Cons1 elim!: val_ok.elims)
    define q where "q = (if arg = Null then None else Some arg)"
    have step: "run_wrapper P rec ini r cl (m, w) =
        bindR (helper (String path) q (cl_more cl)) (\<lambda>call.
          case exec_target call of (name, args) \<Rightarrow>
            (case row_named name of
               None \<Rightarrow> Inl IllFormed
             | Some r' \<Rightarrow> run_target r' (cl\<lparr>cl_args := args, cl_more := []\<rparr>)))"
      if "\<And>r' cl'. run_target r' cl' = bindR (wrapper_body P rec ini r' cl' (library_call cl) (m1, w1)) (\<lambda>(oc, mw). Inr (oc_result oc, mw))"
      for run_target
      unfolding that run_wrapper_def run
      by (simp add: original_function_def assms(3) Some args q_def bindR_assoc)
        (auto simp: bindR_def split: sum.splits prod.splits option.splits)
    show ?thesis
    proof (cases "510 < length (cl_more cl) \<or> rw_name r = ''execle'' \<and> arg = Null")
      case True
      have "helper (String path) q (cl_more cl) = Inl BufferOverflow"
        using Some True n by (auto simp: exec_helper_def orig_vexecl_def orig_vexeclp_def orig_vexecle_def q_def
            va_list_to_table_def table_slots_eq Let_def split: if_splits)
      with step [OF refl] have "run_wrapper P rec ini r cl (m, w) = Inl BufferOverflow" by simp
      with ev n True show ?thesis by (intro exI [of _ ev] exI [of _ m1] exI [of _ w1]) (auto simp: args)
    next
      case False
      obtain k where k: "helper (String path) q (cl_more cl) = Inr k"
          "case k of Execv p vs \<Rightarrow> p = String path | Execvp p vs \<Rightarrow> p = String path | Execvpe p vs e \<Rightarrow> p = String path"
        using Some False n by (auto simp: exec_helper_def orig_vexecl_def orig_vexeclp_def orig_vexecle_def q_def
            va_list_to_table_ok Let_def split: if_splits)
      obtain n' vs where t: "exec_target k = (n', vs)" by fastforce
      obtain r' c' where r': "row_named n' = Some r'" "r' \<in> set (rows_of monitored_functions)" "rw_name r' = n'"
        "code_of r' = Some c'" "cd_exec c'" by (rule exec_target_row [OF t])
      have ok: "args_ok c' vs" using k(2) by (intro exec_target_args [OF t r']) (auto split: exec_call.splits)
      have vs: "hd vs = VPtr (String path)" "vs \<noteq> []" using t k(2) by (auto split: exec_call.splits)
      then have path: "argument c' vs (fst (hd (cd_params c'))) = Some (VPtr (String path))"
        using ok by (cases vs; cases "cd_params c'") (auto simp: args_ok_def argument_def)
      obtain ev' m2 w2 where ev': "ev_op_type ev' = EXEC" "ev_s1 ev' = Some path" "ev_error_code ev' = error_code_init P"
        "rec ev' (m1, w1) = Inr (m2, w2)"
        and body: "\<And>orig. wrapper_body P rec ini r' (cl\<lparr>cl_args := vs, cl_more := []\<rparr>) orig (m1, w1) = orig (m2, w2)"
        by (rule exec_body [OF r'(2,4,5) _ _ _ ev(5) assms(6) _ assms(8,9), of "cl\<lparr>cl_args := vs, cl_more := []\<rparr>" path w1])
          (use call ok path in auto)
      have "run_wrapper P rec ini r cl (m, w) = (case cl_orig cl w2 of (oc, w3) \<Rightarrow> Inr (oc_result oc, m2, w3))"
        unfolding step [OF refl] by (simp add: k(1) t r'(1) body library_call_def split: prod.splits)
      with ev ev' n False show ?thesis by (intro exI [of _ ev] exI [of _ m1] exI [of _ w1]) (auto simp: args)
    qed
  qed
qed

lemma execl_code:
  "map_option (\<lambda>c. (cd_exec c, cd_params c, cd_ret c)) (map_of code_table ''execl'') =
     Some (True, [(''path'', Ptr Char_ptr), (''arg'', Ptr Char_ptr)], Some (Arith Int32))"
  by code_simp

theorem exec_recorded_before_witness:
  "\<exists>r ev ev' mw1 mw2. rw_name r = ''execl'' \<and> ev_s1 ev = Some ''/bin/none'' \<and> ev_s1 ev' = Some ''/bin/none'' \<and>
    record_event (demo_platform 0 0) (Suc 0) ev (demo_queue, ()) = Inr mw1 \<and>
    record_event (demo_platform 0 0) (Suc 0) ev' mw1 = Inr mw2 \<and>
    demo_run r ((demo_call [VPtr (String ''/bin/none''), VPtr (String ''none'')] (VInt Int32 (- 1)) 2 (\<lambda>_. None))
        \<lparr>cl_more := [String ''-v'']\<rparr>) = Inr (Some (VInt Int32 (- 1)), mw2)"
proof -
  obtain c where c: "map_of code_table ''execl'' = Some c" "cd_exec c"
      "cd_params c = [(''path'', Ptr Char_ptr), (''arg'', Ptr Char_ptr)]" "cd_ret c = Some (Arith Int32)"
    using execl_code by auto
  obtain r where r: "r \<in> set (rows_of monitored_functions)" "rw_name r = ''execl''" "code_of r = Some c"
    by (rule row_with_code [OF c(1)])
  define cl where "cl = (demo_call [VPtr (String ''/bin/none''), VPtr (String ''none'')] (VInt Int32 (- 1)) 2 (\<lambda>_. None))
      \<lparr>cl_more := [String ''-v'']\<rparr>"
  have ok: "call_ok c cl"
    by (auto simp: c cl_def call_ok_def args_ok_def outcome_ok_def demo_call_def int32_def)
  have more: "cl_more cl = [String ''-v'']" "cl_args cl = [VPtr (String ''/bin/none''), VPtr (String ''none'')]"
    "oc_result (fst (cl_orig cl w)) = Some (VInt Int32 (- 1))" "snd (cl_orig cl w) = w" for w by (simp_all add: cl_def)
  from exec_recorded_before [OF r(1,3) _ ok, of demo_queue "demo_platform 0 0" "''/bin/none''", OF _ _ _ _ refl refl,
      of 0 "()" 0 "[]" 1 None] c(2)
  obtain ev m1 w1 ev' m2 w2 where "ev_s1 ev = Some ''/bin/none''" "ev_s1 ev' = Some ''/bin/none''"
      "record_event (demo_platform 0 0) (Suc 0) ev (demo_queue, ()) = Inr (m1, w1)"
      "record_event (demo_platform 0 0) (Suc 0) ev' (m1, w1) = Inr (m2, w2)"
      "demo_run r cl = (case cl_orig cl w2 of (oc, w3) \<Rightarrow> Inr (oc_result oc, m2, w3))"
    by (auto simp: c argument_def more r(2) simp flip: code_of_fields(1) [OF r(3)] simp del: record_event.simps)
  moreover have "(case cl_orig cl w2 of (oc, w3) \<Rightarrow> Inr (oc_result oc, m2, w3)) = Inr (Some (VInt Int32 (- 1)), m2, w2)"
    using more(3,4) [of w2] by (cases "cl_orig cl w2") simp
  ultimately show ?thesis using r(2) unfolding cl_def by metis
qed

section \<open>Error codes\<close>



section \<open>Numbers of bytes\<close>

text \<open>An argument or the result as a number.\<close>

definition number :: "code \<Rightarrow> cval list \<Rightarrow> cval option \<Rightarrow> string \<Rightarrow> int" where
  "number c vs res x =
     (case (if x = ''result'' then res else argument c vs x) of Some (VInt ct i) \<Rightarrow> i | _ \<Rightarrow> 0)"

lemma count_rows:
  "list_all (\<lambda>(n, c). cd_count c = ''count'' \<longrightarrow> \<not> cd_exec c \<and>
     (if List.member [''read'', ''recv'', ''pread'', ''write'', ''send'', ''pwrite''] n
      then count_source c = Some (Var ''count'') \<and> map_of (cd_params c) ''count'' = Some (Arith UInt64)
      else if List.member [''fread'', ''fwrite''] n
      then count_source c = Some (Bin Times (Var ''size'') (Var ''nmemb'')) \<and>
        map_of (cd_params c) ''size'' = Some (Arith UInt64) \<and> map_of (cd_params c) ''nmemb'' = Some (Arith UInt64)
      else if List.member [''setxattr'', ''lsetxattr'', ''fsetxattr'', ''fgetxattr''] n
      then count_source c = Some (Var ''size'') \<and> map_of (cd_params c) ''size'' = Some (Arith UInt64)
      else count_source c = Some (Var ''result'') \<and> (cd_ret c = Some (Arith Int32) \<or> cd_ret c = Some (Arith Int64)))) code_table"
  by code_simp

lemma argument_value:
  assumes "args_ok c vs" "map_of (cd_params c) x = Some (Arith ct)" "x \<noteq> ''error_code''" "x \<noteq> ''result''"
  shows "argument c vs x = Some (VInt ct (number c vs res x))"
    "\<exists>\<tau>. wrapper_vars P c vs res x = Some (Scalar \<tau> (Some (VInt ct (number c vs res x))))"
proof -
  obtain v where v: "argument c vs x = Some v" "val_ok (Arith ct) v" by (rule argument_typed [OF assms(1,2)])
  then show a: "argument c vs x = Some (VInt ct (number c vs res x))"
    using assms(4) by (auto simp: int_value number_def)
  show "\<exists>\<tau>. wrapper_vars P c vs res x = Some (Scalar \<tau> (Some (VInt ct (number c vs res x))))"
    by (rule argument_var [OF assms(1) a assms(3,4)])
qed

text \<open>C22: what the monitor records as the number of bytes transferred. For \<open>read\<close>, \<open>recv\<close>, \<open>pread\<close>, \<open>write\<close>,
  \<open>send\<close> and \<open>pwrite\<close> it is the number the caller asked for, not the one transferred. For \<open>fread\<close> and
  \<open>fwrite\<close> it is the size of all items asked for, for \<open>setxattr\<close>, \<open>lsetxattr\<close>, \<open>fsetxattr\<close> and \<open>fgetxattr\<close>
  the size asked for, both cut down to an \<open>int\<close>, so that four gigabytes and more are recorded modulo
  \<open>2 ^ 32\<close>, and two as a negative number. For all others with a count, \<open>fscanf\<close>, \<open>fprintf\<close>, their variants,
  \<open>getxattr\<close> and \<open>lgetxattr\<close>, it is the result as an \<open>int\<close>, so the number of items for \<open>fscanf\<close>, and
  \<open>2 ^ 64 - 1\<close> for a call that has failed.\<close>

theorem wrapper_byte_counts:
  assumes "r \<in> set (rows_of monitored_functions)" "code_of r = Some c" "call_ok c cl" "cd_count c = ''count''"
    and "cl_orig cl w = (oc, w1)"
    and "run_wrapper P (record_event P d) (init P (record_event P d) len data ppid dir) r cl (m, w) = Inr (v, mw')"
    and "val = number c (cl_args cl) (oc_result oc)"
  shows "\<exists>ev mw1. record_event P d ev mw1 = Inr mw' \<and>
    ev_bytes_transferred ev = word_of_int
      (if rw_name r \<in> {''read'', ''recv'', ''pread'', ''write'', ''send'', ''pwrite''} then val ''count''
       else if rw_name r \<in> {''fread'', ''fwrite''} then int32 (val ''size'' * val ''nmemb'')
       else if rw_name r \<in> {''setxattr'', ''lsetxattr'', ''fsetxattr'', ''fgetxattr''} then int32 (val ''size'')
       else int32 (val ''result''))"
proof -
  obtain c' where "code_of r = Some c'" "(rw_name r, c') \<in> set code_table" by (rule row_code [OF assms(1)])
  then have mem: "(rw_name r, c) \<in> set code_table" using assms(2) by simp
  have row: "\<not> cd_exec c \<and> (if rw_name r \<in> {''read'', ''recv'', ''pread'', ''write'', ''send'', ''pwrite''}
      then count_source c = Some (Var ''count'') \<and> map_of (cd_params c) ''count'' = Some (Arith UInt64)
      else if rw_name r \<in> {''fread'', ''fwrite''}
      then count_source c = Some (Bin Times (Var ''size'') (Var ''nmemb'')) \<and>
        map_of (cd_params c) ''size'' = Some (Arith UInt64) \<and> map_of (cd_params c) ''nmemb'' = Some (Arith UInt64)
      else if rw_name r \<in> {''setxattr'', ''lsetxattr'', ''fsetxattr'', ''fgetxattr''}
      then count_source c = Some (Var ''size'') \<and> map_of (cd_params c) ''size'' = Some (Arith UInt64)
      else count_source c = Some (Var ''result'') \<and> (cd_ret c = Some (Arith Int32) \<or> cd_ret c = Some (Arith Int64)))"
    using bspec [OF count_rows [unfolded list_all_iff] mem] assms(4) by (simp cong: if_cong)
  define E where "E = wrapper_env (record_event P d) (init P (record_event P d) len data ppid dir) oc (os_clock P w) (os_clock P w1)"
  define \<sigma> where "\<sigma> = wrapper_vars P c (cl_args cl) (oc_result oc)"
  obtain ev mw1 where ev: "record_event P d ev mw1 = Inr mw'"
    "hook_and_event P E r c \<sigma> (os_clock P w) (os_clock P w1) (m, w1) = Inr (ev, mw1)"
    unfolding E_def \<sigma>_def using run_wrapper_returned [OF assms(6,2)] row assms(5) by (metis prod.inject)
  have args: "args_ok c (cl_args cl)" using assms(3) by (simp add: call_ok_def)
  have "outcome_ok c oc" by (rule call_ok_env(1) [OF assms(3,5) record_event_formed init_formed])
  then have res: "cd_ret c = Some (Arith ct) \<Longrightarrow> oc_result oc = Some (VInt ct (val ''result''))" for ct
    by (auto simp: outcome_ok_def option_rel_Some1 int_value assms(7) number_def)
  have var: "map_of (cd_params c) x = Some (Arith ct) \<Longrightarrow> x \<noteq> ''error_code'' \<Longrightarrow> x \<noteq> ''result'' \<Longrightarrow>
      \<exists>\<tau>. \<sigma> x = Some (Scalar \<tau> (Some (VInt ct (val x))))" for x ct
    unfolding \<sigma>_def assms(7) by (rule argument_value(2) [OF args])
  have rvar: "\<sigma> ''result'' = Some (Scalar (Arith ct) (Some (VInt ct (val ''result''))))" if "cd_ret c = Some (Arith ct)" for ct
    unfolding \<sigma>_def res [OF that] by (rule result_var [OF that])
  have big: "int32 (i mod 2 ^ 64) = int32 i" for i
  proof -
    have "(i mod 2 ^ 64 + k) mod 2 ^ 32 = (i + k) mod 2 ^ 32" for k :: int
    proof -
      have "(2 :: int) ^ 32 dvd 2 ^ 64" by (rule le_imp_power_dvd) simp
      then have "i mod 2 ^ 64 mod 2 ^ 32 = i mod 2 ^ 32" by (rule mod_mod_cancel)
      then show ?thesis by (metis mod_add_left_eq)
    qed
    from this [of "2 ^ 31"] show ?thesis by (simp add: int32_def)
  qed
  have src: "\<exists>i. ev_bytes_transferred ev = word_of_int i \<and>
      (if a = Var ''count'' then eval_int E \<sigma> Int64 a = Inr i else eval_int E \<sigma> Int32 a = Inr i)"
    if "count_source c = Some a" "\<forall>x\<in>set (exp_vars a). \<exists>\<tau> v. \<sigma> x = Some (Scalar \<tau> v)" for a
    using hook_byte_count [OF assms(2) that(1) assms(4) _ ev(2) [unfolded \<sigma>_def]] that(2) unfolding \<sigma>_def by blast
  have macros: "macro E ''count'' = None" "macro E ''size'' = None" "macro E ''nmemb'' = None" "macro E ''result'' = None"
    by (simp_all add: macro_def)
  have "ev_bytes_transferred ev = word_of_int
      (if rw_name r \<in> {''read'', ''recv'', ''pread'', ''write'', ''send'', ''pwrite''} then val ''count''
       else if rw_name r \<in> {''fread'', ''fwrite''} then int32 (val ''size'' * val ''nmemb'')
       else if rw_name r \<in> {''setxattr'', ''lsetxattr'', ''fsetxattr'', ''fgetxattr''} then int32 (val ''size'')
       else int32 (val ''result''))"
  proof -
    consider "rw_name r \<in> {''read'', ''recv'', ''pread'', ''write'', ''send'', ''pwrite''}"
      | "rw_name r \<in> {''fread'', ''fwrite''}"
      | "rw_name r \<in> {''setxattr'', ''lsetxattr'', ''fsetxattr'', ''fgetxattr''}"
      | "rw_name r \<notin> {''read'', ''recv'', ''pread'', ''write'', ''send'', ''pwrite''}" "rw_name r \<notin> {''fread'', ''fwrite''}"
        "rw_name r \<notin> {''setxattr'', ''lsetxattr'', ''fsetxattr'', ''fgetxattr''}" by blast
    then show ?thesis
    proof cases
      case 1
      then have c: "count_source c = Some (Var ''count'')" "map_of (cd_params c) ''count'' = Some (Arith UInt64)"
        using row by (simp_all only: if_True)
      obtain \<tau> where v: "\<sigma> ''count'' = Some (Scalar \<tau> (Some (VInt UInt64 (val ''count''))))" using var [OF c(2)] by auto
      with src [OF c(1)] macros have "ev_bytes_transferred ev = word_of_int (convert Int64 (val ''count''))"
        by (auto simp: eval_int_def simp del: convert.simps)
      with 1 show ?thesis by (simp only: convert_word if_True)
    next
      case 2
      then have n: "rw_name r \<notin> {''read'', ''recv'', ''pread'', ''write'', ''send'', ''pwrite''}" by auto
      then have c: "count_source c = Some (Bin Times (Var ''size'') (Var ''nmemb''))"
          "map_of (cd_params c) ''size'' = Some (Arith UInt64)" "map_of (cd_params c) ''nmemb'' = Some (Arith UInt64)"
        using row 2 by (simp_all only: if_True if_False)
      obtain \<tau> \<tau>' where v: "\<sigma> ''size'' = Some (Scalar \<tau> (Some (VInt UInt64 (val ''size''))))"
          "\<sigma> ''nmemb'' = Some (Scalar \<tau>' (Some (VInt UInt64 (val ''nmemb''))))" using var [OF c(2)] var [OF c(3)] by auto
      from src [OF c(1)] v macros have "ev_bytes_transferred ev =
          word_of_int (int32 (convert UInt64 (convert UInt64 (val ''size'') * convert UInt64 (val ''nmemb''))))"
        by (auto simp: eval_int_def common_def Let_def simp del: convert.simps(2-4))
      moreover have "int32 (convert UInt64 (convert UInt64 x * convert UInt64 y)) = int32 (x * y)" for x y
        by (simp only: convert.simps big) (metis big mod_mult_eq)
      ultimately show ?thesis using 2 n by (simp only: if_True if_False)
    next
      case 3
      then have n: "rw_name r \<notin> {''read'', ''recv'', ''pread'', ''write'', ''send'', ''pwrite''}" "rw_name r \<notin> {''fread'', ''fwrite''}"
        by auto
      then have c: "count_source c = Some (Var ''size'')" "map_of (cd_params c) ''size'' = Some (Arith UInt64)"
        using row 3 by (simp_all only: if_True if_False)
      obtain \<tau> where v: "\<sigma> ''size'' = Some (Scalar \<tau> (Some (VInt UInt64 (val ''size''))))" using var [OF c(2)] by auto
      with src [OF c(1)] macros have "ev_bytes_transferred ev = word_of_int (int32 (val ''size''))"
        by (auto simp: eval_int_def)
      with 3 n show ?thesis by (simp only: if_True if_False)
    next
      case 4
      then have c: "count_source c = Some (Var ''result'')" "cd_ret c = Some (Arith Int32) \<or> cd_ret c = Some (Arith Int64)"
        using row by (simp_all only: if_False)
      obtain ct where v: "\<sigma> ''result'' = Some (Scalar (Arith ct) (Some (VInt ct (val ''result''))))"
        using rvar c(2) by blast
      with src [OF c(1)] macros have "ev_bytes_transferred ev = word_of_int (int32 (val ''result''))"
        by (auto simp: eval_int_def)
      with 4 show ?thesis by (simp only: if_False)
    qed
  qed
  with ev(1) show ?thesis by blast
qed

lemma fread_code:
  "map_option (\<lambda>c. (cd_exec c, cd_count c, cd_ret c, cd_params c, stream_param c)) (map_of code_table ''fread'') =
     Some (False, ''count'', Some (Arith UInt64),
       [(''ptr'', Ptr Other_ptr), (''size'', Arith UInt64), (''nmemb'', Arith UInt64), (''stream'', Ptr File_ptr)], Some ''stream'')"
  by code_simp

theorem wrapper_byte_counts_witness:
  "\<exists>r ev mw mw'. rw_name r = ''fread'' \<and> record_event (demo_platform 0 0) (Suc 0) ev mw = Inr mw' \<and>
    ev_bytes_transferred ev = word_of_int 705032704 \<and>
    demo_run r (demo_call [VPtr Elsewhere, VInt UInt64 5, VInt UInt64 1000000000, VPtr (Stream 3)] (VInt UInt64 2) 0
        (\<lambda>h. Some 6)) = Inr (Some (VInt UInt64 2), mw')"
proof -
  define cl where "cl = demo_call [VPtr Elsewhere, VInt UInt64 5, VInt UInt64 1000000000, VPtr (Stream 3)] (VInt UInt64 2) 0
      (\<lambda>h. Some 6)"
  obtain c where c: "map_of code_table ''fread'' = Some c" "\<not> cd_exec c" "cd_count c = ''count''" "cd_ret c = Some (Arith UInt64)"
      "cd_params c = [(''ptr'', Ptr Other_ptr), (''size'', Arith UInt64), (''nmemb'', Arith UInt64), (''stream'', Ptr File_ptr)]"
      "stream_param c = Some ''stream''" using fread_code by auto
  obtain r where r: "r \<in> set (rows_of monitored_functions)" "rw_name r = ''fread''" "code_of r = Some c"
    by (rule row_with_code [OF c(1)])
  have call: "call_ok c cl"
    by (auto simp: c cl_def call_ok_def args_ok_def outcome_ok_def demo_call_def int32_def)
  have op: "echo (rw_op r) \<noteq> ''OPEN''" using open_rows [OF r(1)] r(2) by (auto simp: open_names_def)
  have orig: "cl_orig cl () = (\<lparr>oc_result = Some (VInt UInt64 2), oc_errno = 0, oc_streams = (\<lambda>h. Some 6)\<rparr>, ())"
    "cl_args cl = [VPtr Elsewhere, VInt UInt64 5, VInt UInt64 1000000000, VPtr (Stream 3)]" by (simp_all add: cl_def)
  have "\<exists>m' w'. demo_run r cl = Inr (Some (VInt UInt64 2), m', w')"
    using queue_wrapper [OF r(1,3) c(2) call _ demo_ok(3) demo_ok(1) orig(1) refl refl refl, of 0 0 "[]" 1 None] op
    by (auto simp: orig(2) open_path_given_def hook_safe_def c argument_def is_open_stream_def wrapper_env_def
        simp del: record_event.simps)
  then obtain mw' where run: "demo_run r cl = Inr (Some (VInt UInt64 2), mw')" by blast
  from wrapper_byte_counts [OF r(1,3) call c(3) orig(1) run refl] r(2)
  have "\<exists>ev mw. record_event (demo_platform 0 0) (Suc 0) ev mw = Inr mw' \<and> ev_bytes_transferred ev = word_of_int 705032704"
    by (simp add: number_def argument_def orig c int32_def del: record_event.simps)
  with r(2) run show ?thesis unfolding cl_def by blast
qed

section \<open>The calls of the monitor itself\<close>

lemma record_length_range: "0 \<le> record_length" "record_length < 9223372036854775808"
  by (simp_all add: record_length_def)

text \<open>C8: the calls of \<open>socket\<close>, \<open>connect\<close>, \<open>write\<close> and \<open>close\<close> in \<open>send_tcp_socket\<close>, which the preloaded library
  sends to its own wrappers, are what those wrappers do: the code generated from the rows and hooks of
  \<open>monitored_functions.data\<close> behaves like \<open>interposed\<close> with the events of \<open>Recorder\<close>, whatever \<open>record\<close>
  is, also in the writes of the header and of the record, in which \<open>check_for_http\<close> finds nothing.\<close>

theorem monitor_calls_are_wrapped:
  assumes "fitting Int32 (os_socket P)" "fitting Int32 (os_connect P fd ai)" "fitting Int32 (os_close P fd)"
    and "\<And>out. fitting Int64 (os_write P fd out)" "int32 fd = fd" "int32 (error_code_init P) = error_code_init P"
    and "list_all line_char (mr_facility r)" "length (mr_facility r) < STR_LEN"
  shows "run_wrapper P rec ini socket_row (int_call Int32 [VInt Int32 2, VInt Int32 1, VInt Int32 0] (os_socket P)) mw =
      returns Int32 (interposed P rec (os_socket P) (socket_event P) mw) \<and>
    run_wrapper P rec ini connect_row (int_call Int32 [VInt Int32 fd, VPtr (Address ai), VInt UInt32 16] (os_connect P fd ai)) mw =
      returns Int32 (interposed P rec (os_connect P fd ai) (connect_event P fd ai) mw) \<and>
    run_wrapper P rec ini write_row (int_call Int64
        [VInt Int32 fd, VPtr (Bytes (show_int record_length @ NUL # zeros)), VInt UInt64 10]
        (os_write P fd (Header (show_int record_length)))) mw =
      returns Int64 (interposed P rec (os_write P fd (Header (show_int record_length))) (write_event P fd 10) mw) \<and>
    run_wrapper P rec ini write_row (int_call Int64
        [VInt Int32 fd, VPtr (Bytes (mr_facility r @ NUL # more_bytes)), VInt UInt64 record_length]
        (os_write P fd (Payload r))) mw =
      returns Int64 (interposed P rec (os_write P fd (Payload r)) (write_event P fd record_length) mw) \<and>
    run_wrapper P rec ini close_row (int_call Int32 [VInt Int32 fd] (os_close P fd)) mw =
      returns Int32 (interposed P rec (os_close P fd) (close_event P fd) mw)"
proof (intro conjI)
  note quiet = own_writes_not_http [OF assms(7,8), where rec = rec and fd = fd]
  show "run_wrapper P rec ini write_row (int_call Int64
        [VInt Int32 fd, VPtr (Bytes (show_int record_length @ NUL # zeros)), VInt UInt64 10]
        (os_write P fd (Header (show_int record_length)))) mw =
      returns Int64 (interposed P rec (os_write P fd (Header (show_int record_length))) (write_event P fd 10) mw)"
    by (rule write_wrapper [OF assms(4,5,6)]) (simp_all add: quiet [THEN conjunct1])
  show "run_wrapper P rec ini write_row (int_call Int64
        [VInt Int32 fd, VPtr (Bytes (mr_facility r @ NUL # more_bytes)), VInt UInt64 record_length]
        (os_write P fd (Payload r))) mw =
      returns Int64 (interposed P rec (os_write P fd (Payload r)) (write_event P fd record_length) mw)"
    by (rule write_wrapper [OF assms(4,5,6)]) (simp_all add: quiet [THEN conjunct2] record_length_range)
qed (rule socket_wrapper [OF assms(1,6)] connect_wrapper [OF assms(2,5,6)] close_wrapper [OF assms(3,5,6)])+

theorem monitor_calls_are_wrapped_witness:
  "\<exists>mw'. run_wrapper (demo_platform 0 0) (record_event (demo_platform 0 0) 1) Inr close_row
      (int_call Int32 [VInt Int32 7] (os_close (demo_platform 0 0) 7)) (demo_mon\<lparr>m_message_queue_path := Some ''/tmp/mq''\<rparr>, ()) =
    Inr (Some (VInt Int32 0), mw')"
proof -
  define m where "m = demo_mon\<lparr>m_message_queue_path := Some ''/tmp/mq''\<rparr>"
  define ev where "ev = close_event (demo_platform 0 0) 7 0 0 \<lparr>tv_sec = 1, tv_usec = 0\<rparr> \<lparr>tv_sec = 1, tv_usec = 0\<rparr>"
  obtain m' w' where "record_event (demo_platform 0 0) (Suc 0) ev (m, ()) = Inr (m', w')"
    by (rule queue_record_returns [of m ev "demo_platform 0 0" 0 "()"]) (simp_all add: ev_def m_def close_event_def queue_ready_def)
  then have "interposed (demo_platform 0 0) (record_event (demo_platform 0 0) 1) (os_close (demo_platform 0 0) 7)
      (close_event (demo_platform 0 0) 7) (m, ()) = Inr (0, m', w')"
    by (simp add: interposed_def ev_def demo_platform_def)
  moreover have "fitting Int64 (os_write (demo_platform 0 0) 7 out)" for out
    by (cases out) (simp_all add: fitting_def demo_platform_def record_length_def int32_def)
  moreover have "fitting Int32 (os_socket (demo_platform 0 0))" "fitting Int32 (os_connect (demo_platform 0 0) 7 ai)"
      "fitting Int32 (os_close (demo_platform 0 0) 7)" for ai
    by (simp_all add: fitting_def demo_platform_def int32_def)
  moreover have "int32 7 = 7" "int32 (error_code_init (demo_platform 0 0)) = error_code_init (demo_platform 0 0)"
    "list_all line_char (mr_facility (zero_record\<lparr>mr_facility := ''job''\<rparr>))"
    "length (mr_facility (zero_record\<lparr>mr_facility := ''job''\<rparr>)) < STR_LEN"
    by (simp_all add: demo_platform_def int32_def line_char_def buffer_sizes)
  ultimately have "run_wrapper (demo_platform 0 0) (record_event (demo_platform 0 0) 1) Inr close_row
      (int_call Int32 [VInt Int32 7] (os_close (demo_platform 0 0) 7)) (m, ()) =
      returns Int32 (Inr (0, m', w'))"
    using monitor_calls_are_wrapped [where P = "demo_platform 0 0" and fd = 7 and mw = "(m, ())" and ini = Inr
        and rec = "record_event (demo_platform 0 0) 1" and r = "zero_record\<lparr>mr_facility := ''job''\<rparr>"] by metis
  then show ?thesis by (simp add: m_def returns_def)
qed

end
