(* ===== verification/Chain_Threads.thy ===== *)
theory Chain_Threads
imports Chain_Refinement
begin

text \<open>
  The threads of the listener on the plugin chain. The main loop calls \<open>execute_plugin_chain\<close>; each
  instance of \<open>input_cli\<close> is a thread that runs commands, and so \<open>unload_plugin_by_name\<close>,
  \<open>load_plugin\<close> and, in \<open>quit\<close>, \<open>unload_all_plugins\<close>. Each takes \<open>plugin_mutex\<close>, but only for a part of its work. A step of the relation is
  what a thread does between two points at which the others can come in between: the reads of the list
  before the lock, taking the lock, and, with the lock held, one plugin of the loop, the closing of a
  plugin, its unlinking with the \<open>unlock\<close>, the linking of a new one with the \<open>unlock\<close>, or the closing of
  all plugins with the \<open>exit\<close> that follows it: what the others see of the chain while \<open>quit\<close> closes it, and in the
  moment between its \<open>unlock\<close> and its \<open>exit\<close>, is not shown. Undefined
  behaviour of a thread ends the process. Thread 0 is the main loop, thread \<open>Suc k\<close> the command thread
  \<open>k\<close>.
\<close>

section \<open>Threads\<close>

text \<open>\<open>At_head p\<close>: the main loop has read \<open>plugins\<close>, and waits for the lock; \<open>Offering p\<close>: it holds it.\<close>

datatype main_pc = Waiting | At_head "nat option" monitor_record | Offering "nat option" monitor_record

text \<open>\<open>Locating name p\<close>: \<open>locate_plugin_by_name\<close> has come to \<open>p\<close>; \<open>Located p\<close>: \<open>locate_plugin_by_name\<close> has returned \<open>p\<close>; \<open>Ready p i\<close>: \<open>i\<close> is the head read then;
  \<open>Unloading\<close>, \<open>Unlinking\<close>, \<open>Linking\<close> and \<open>Quitting\<close> hold the lock.\<close>

datatype ('h, 'x) command_pc =
    Idle | Locating string "nat option" | Located "nat option" | Ready "nat option" "nat option" | Unloading "nat option" "nat option"
  | Unlinking nat "nat option" | Opened "('h, 'x) node" | Linking "('h, 'x) node" | Quitting

record ('h, 'x, 'f) threads =
  t_chain :: "('h, 'x, 'f) chain"
  t_mutex :: "nat option"
  t_main :: main_pc
  t_command :: "nat \<Rightarrow> ('h, 'x) command_pc"

definition command_at ::
  "nat \<Rightarrow> ('h, 'x) command_pc \<Rightarrow> ('h, 'x, 'f) threads \<Rightarrow> ('h, 'x, 'f) threads" where
  "command_at k pc c = c\<lparr>t_command := (t_command c)(k := pc)\<rparr>"

lemma command_at_simps [simp]:
  "t_chain (command_at k pc c) = t_chain c" "t_mutex (command_at k pc c) = t_mutex c"
  "t_main (command_at k pc c) = t_main c" "t_command (command_at k pc c) = (t_command c)(k := pc)"
  by (simp_all add: command_at_def)

text \<open>The result of a step of one thread that goes wrong is the end of the process.\<close>

inductive main_step :: "('h, 'x, 'f) threads \<Rightarrow> ('h, 'x, 'f) threads res \<Rightarrow> bool" where
  read_head: "t_main c = Waiting \<Longrightarrow> main_step c (Inr (c\<lparr>t_main := At_head (plugins (t_chain c)) rec\<rparr>))"
| lock_head: "t_main c = At_head p rec \<Longrightarrow> t_mutex c = None \<Longrightarrow>
    main_step c (Inr (c\<lparr>t_main := Offering p rec, t_mutex := Some 0\<rparr>))"
| offer_next: "t_main c = Offering (Some p) rec \<Longrightarrow> execute_plugin p rec (t_chain c) = Inr (True, rec', s) \<Longrightarrow>
    node_at p s = Inr n \<Longrightarrow> main_step c (Inr (c\<lparr>t_main := Offering (next_plugin n) rec', t_chain := s\<rparr>))"
| offer_drop: "t_main c = Offering (Some p) rec \<Longrightarrow> execute_plugin p rec (t_chain c) = Inr (False, rec', s) \<Longrightarrow>
    main_step c (Inr (c\<lparr>t_main := Waiting, t_mutex := None, t_chain := s\<rparr>))"
| offer_end: "t_main c = Offering None rec \<Longrightarrow> main_step c (Inr (c\<lparr>t_main := Waiting, t_mutex := None\<rparr>))"
| offer_fails: "t_main c = Offering (Some p) rec \<Longrightarrow> execute_plugin p rec (t_chain c) = Inl u \<Longrightarrow> main_step c (Inl u)"

inductive command_step ::
  "(string \<Rightarrow> ('h, 'x, 'f) library option) \<Rightarrow> nat \<Rightarrow> ('h, 'x, 'f) threads \<Rightarrow> ('h, 'x, 'f) threads res \<Rightarrow> bool" for D k where
  locate: "t_command c k = Idle \<Longrightarrow> command_step D k c (Inr (command_at k (Locating name (plugins (t_chain c))) c))"
| locate_found: "t_command c k = Locating name (Some p) \<Longrightarrow> live_at p (t_chain c) = Inr n \<Longrightarrow>
    name = pl_library n \<or> pl_alias n = Some name \<Longrightarrow> command_step D k c (Inr (command_at k (Located (Some p)) c))"
| locate_next: "t_command c k = Locating name (Some p) \<Longrightarrow> live_at p (t_chain c) = Inr n \<Longrightarrow>
    \<not> (name = pl_library n \<or> pl_alias n = Some name) \<Longrightarrow>
    command_step D k c (Inr (command_at k (Locating name (next_plugin n)) c))"
| locate_end: "t_command c k = Locating name None \<Longrightarrow> command_step D k c (Inr (command_at k (Located None) c))"
| locate_fails: "t_command c k = Locating name (Some p) \<Longrightarrow> live_at p (t_chain c) = Inl u \<Longrightarrow> command_step D k c (Inl u)"
| read_first: "t_command c k = Located p \<Longrightarrow> command_step D k c (Inr (command_at k (Ready p (plugins (t_chain c))) c))"
| lock_unload: "t_command c k = Ready p i \<Longrightarrow> t_mutex c = None \<Longrightarrow>
    command_step D k c (Inr (command_at k (Unloading p i) (c\<lparr>t_mutex := Some (Suc k)\<rparr>)))"
| unload: "t_command c k = Unloading (Some p) i \<Longrightarrow> unload_plugin p (t_chain c) = Inr s \<Longrightarrow>
    command_step D k c (Inr (command_at k (Unlinking p i) (c\<lparr>t_chain := s\<rparr>)))"
| unload_fails: "t_command c k = Unloading (Some p) i \<Longrightarrow> unload_plugin p (t_chain c) = Inl u \<Longrightarrow> command_step D k c (Inl u)"
| unload_null: "t_command c k = Unloading None i \<Longrightarrow> command_step D k c (Inl NullDeref)"
| unlink: "t_command c k = Unlinking p i \<Longrightarrow> unlink_plugin p i (t_chain c) = Inr (rc, s) \<Longrightarrow>
    command_step D k c (Inr (command_at k Idle (c\<lparr>t_chain := s, t_mutex := None\<rparr>)))"
| unlink_fails: "t_command c k = Unlinking p i \<Longrightarrow> unlink_plugin p i (t_chain c) = Inl u \<Longrightarrow> command_step D k c (Inl u)"
| prepare: "t_command c k = Idle \<Longrightarrow> prepare_plugin D lib options alias (t_chain c) = Inr (new, s) \<Longrightarrow>
    command_step D k c (Inr (command_at k (case new of None \<Rightarrow> Idle | Some n \<Rightarrow> Opened n) (c\<lparr>t_chain := s\<rparr>)))"
| prepare_fails: "t_command c k = Idle \<Longrightarrow> prepare_plugin D lib options alias (t_chain c) = Inl u \<Longrightarrow> command_step D k c (Inl u)"
| lock_link: "t_command c k = Opened n \<Longrightarrow> t_mutex c = None \<Longrightarrow>
    command_step D k c (Inr (command_at k (Linking n) (c\<lparr>t_mutex := Some (Suc k)\<rparr>)))"
| link: "t_command c k = Linking n \<Longrightarrow> link_plugin n (t_chain c) = Inr s \<Longrightarrow>
    command_step D k c (Inr (command_at k Idle (c\<lparr>t_chain := s, t_mutex := None\<rparr>)))"
| link_fails: "t_command c k = Linking n \<Longrightarrow> link_plugin n (t_chain c) = Inl u \<Longrightarrow> command_step D k c (Inl u)"
| lock_quit: "t_command c k = Idle \<Longrightarrow> t_mutex c = None \<Longrightarrow>
    command_step D k c (Inr (command_at k Quitting (c\<lparr>t_mutex := Some (Suc k)\<rparr>)))"
| quit_all: "t_command c k = Quitting \<Longrightarrow>
    command_step D k c (Inl (case unload_all_plugins (t_chain c) of Inl u \<Rightarrow> u | Inr s \<Rightarrow> Exited 1))"

text \<open>The states the threads can reach from \<open>c0\<close>, where the command threads are those of \<open>K\<close>.\<close>

inductive reach ::
  "(string \<Rightarrow> ('h, 'x, 'f) library option) \<Rightarrow> nat set \<Rightarrow> ('h, 'x, 'f) threads \<Rightarrow> ('h, 'x, 'f) threads res \<Rightarrow> bool"
  for D K c0 where
  start: "reach D K c0 (Inr c0)"
| main: "reach D K c0 (Inr c) \<Longrightarrow> main_step c r \<Longrightarrow> reach D K c0 r"
| command: "reach D K c0 (Inr c) \<Longrightarrow> k \<in> K \<Longrightarrow> command_step D k c r \<Longrightarrow> reach D K c0 r"

inductive_cases main_stepE: "main_step c (Inr c')"
inductive_cases main_crashE: "main_step c (Inl u)"
inductive_cases command_stepE: "command_step D k c (Inr c')"
inductive_cases command_crashE: "command_step D k c (Inl u)"

text \<open>Before any thread has begun.\<close>

definition quiet :: "('h, 'x, 'f) chain \<Rightarrow> ('h, 'x, 'f) threads" where
  "quiet s = \<lparr>t_chain = s, t_mutex = None, t_main = Waiting, t_command = (\<lambda>_. Idle)\<rparr>"

section \<open>Mutual exclusion\<close>

fun holds_lock :: "('h, 'x) command_pc \<Rightarrow> bool" where
  "holds_lock (Unloading p i) = True"
| "holds_lock (Unlinking p i) = True"
| "holds_lock (Linking n) = True"
| "holds_lock Quitting = True"
| "holds_lock _ = False"

fun main_holds_lock :: "main_pc \<Rightarrow> bool" where
  "main_holds_lock (Offering p rec) = True"
| "main_holds_lock _ = False"

definition locked :: "('h, 'x, 'f) threads \<Rightarrow> bool" where
  "locked c \<longleftrightarrow> (t_mutex c = Some 0 \<longleftrightarrow> main_holds_lock (t_main c)) \<and>
     (\<forall>k. t_mutex c = Some (Suc k) \<longleftrightarrow> holds_lock (t_command c k))"

lemma main_step_locked: "main_step c (Inr c') \<Longrightarrow> locked c \<Longrightarrow> locked c'"
  by (erule main_stepE) (auto simp: locked_def)

lemma locked_command:
  assumes "locked c" "holds_lock (t_command c k)"
  shows "t_mutex c = Some (Suc k)" "\<not> main_holds_lock (t_main c)" "k' \<noteq> k \<Longrightarrow> \<not> holds_lock (t_command c k')"
proof -
  show m: "t_mutex c = Some (Suc k)" using assms by (simp add: locked_def)
  then show "\<not> main_holds_lock (t_main c)" "k' \<noteq> k \<Longrightarrow> \<not> holds_lock (t_command c k')"
    using assms(1) by (auto simp: locked_def)
qed

lemma locked_main:
  assumes "locked c" "main_holds_lock (t_main c)"
  shows "t_mutex c = Some 0" "\<not> holds_lock (t_command c k)"
  using assms by (auto simp: locked_def)

lemma command_step_locked:
  assumes "command_step D k c (Inr c')" "locked c"
  shows "locked c'"
  using assms(1) assms(2) locked_command [OF assms(2), of k]
  by cases (auto simp: locked_def split: option.splits)

section \<open>What a step does to the chain\<close>

text \<open>Addresses are not used twice, freed nodes stay freed, and the head is replaced only when it is freed
  or when there was none.\<close>

definition later :: "('h, 'x, 'f) chain \<Rightarrow> ('h, 'x, 'f) chain \<Rightarrow> bool" where
  "later s s' \<longleftrightarrow> fresh s \<le> fresh s' \<and> (\<forall>h<fresh s. heap s h = None \<longrightarrow> heap s' h = None) \<and>
     (\<forall>h<fresh s. heap s' h \<noteq> None \<longrightarrow> plugins s = Some h \<longrightarrow> plugins s' = Some h)"

lemma later_refl [simp]: "later s s"
  by (simp add: later_def)

lemma laterI:
  assumes "fresh s \<le> fresh s'" "dom (heap s') \<subseteq> insert (fresh s) (dom (heap s))"
    and "\<And>h. plugins s = Some h \<Longrightarrow> h \<in> dom (heap s') \<Longrightarrow> plugins s' = Some h"
  shows "later s s'"
proof -
  have "heap s' h = None" if "h < fresh s" "heap s h = None" for h
    using assms(2) that by (metis domIff insert_iff less_irrefl subsetD)
  with assms(1,3) show ?thesis by (auto simp: later_def)
qed

lemma execute_plugin_keeps:
  assumes "execute_plugin p rec s = Inr (g, rec', s')" "chain_ok s ps"
  shows "chain_ok s' ps" "dom (heap s') = dom (heap s)" "later s s'" "plugins s' = plugins s"
proof -
  obtain n n' x where n: "heap s p = Some n" "pl_loaded n" "offer rec n (world s) = Inr (g, rec', n', x)"
    and s': "s' = s\<lparr>heap := (heap s)(p \<mapsto> n'), world := x\<rparr>"
    using assms(1) by (auto simp: execute_plugin_def live_at_def node_at_def set_node_def split: option.splits if_splits)
  obtain b where n': "n' = n\<lparr>pl_paused := b\<rparr>" using offer_frame [OF n(3)] by blast
  have "linked ((heap s)(p \<mapsto> n')) (plugins s) ps"
    using assms(2) n(1) by (subst linked_cong [where h' = "heap s"]) (auto simp: chain_ok_def n')
  with assms(2) n(1,2) show "chain_ok s' ps" by (auto simp: chain_ok_def s' n')
  show "dom (heap s') = dom (heap s)" "later s s'" "plugins s' = plugins s"
    using n(1) by (auto simp: s' later_def)
qed

lemma unload_plugin_later:
  assumes "unload_plugin p s = Inr s'"
  shows "later s s'"
  using assms by (auto simp: unload_plugin_def live_at_def node_at_def set_node_def later_def split: option.splits if_splits)

lemma prepare_plugin_keeps:
  assumes "prepare_plugin D lib options alias s = Inr (new, s')"
  shows "heap s' = heap s" "plugins s' = plugins s" "fresh s' = fresh s"
    and "case new of None \<Rightarrow> True | Some n \<Rightarrow> pl_loaded n \<and> next_plugin n = None"
  using assms by (auto simp: prepare_plugin_def split: option.splits if_splits)

lemma append_from_frame:
  "append_from fuel tmp new s = Inr s' \<Longrightarrow> dom (heap s') = dom (heap s) \<and> fresh s' = fresh s \<and> plugins s' = plugins s"
proof (induction fuel arbitrary: tmp)
  case (Suc fuel)
  then show ?case by (auto simp: node_at_def set_node_def split: option.splits if_splits)
qed simp

lemma link_plugin_frame:
  assumes "link_plugin n s = Inr s'"
  shows "dom (heap s') = insert (fresh s) (dom (heap s))" "fresh s' = Suc (fresh s)"
    and "plugins s = Some h \<Longrightarrow> plugins s' = Some h"
  using assms by (cases "plugins s"; force simp: link_plugin_def Let_def dest!: append_from_frame)+

section \<open>The invariant\<close>

text \<open>\<open>p\<close> was read from the list at some time; \<open>i\<close> was its head.\<close>

definition pointer_ok :: "('h, 'x, 'f) chain \<Rightarrow> nat option \<Rightarrow> bool" where
  "pointer_ok s p \<longleftrightarrow> (\<forall>a. p = Some a \<longrightarrow> a < fresh s)"

definition head_ok :: "('h, 'x, 'f) chain \<Rightarrow> nat option \<Rightarrow> bool" where
  "head_ok s i \<longleftrightarrow> (\<forall>h. i = Some h \<longrightarrow> h < fresh s \<and> (heap s h \<noteq> None \<longrightarrow> plugins s = Some h))"

definition ready_ok :: "('h, 'x, 'f) chain \<Rightarrow> nat option \<Rightarrow> nat option \<Rightarrow> bool" where
  "ready_ok s p i \<longleftrightarrow> pointer_ok s p \<and> head_ok s i \<and> (\<forall>a. p = Some a \<longrightarrow> i = None \<longrightarrow> heap s a = None)"

fun command_ok :: "('h, 'x, 'f) chain \<Rightarrow> ('h, 'x) command_pc \<Rightarrow> bool" where
  "command_ok s Idle = True"
| "command_ok s (Locating name p) = pointer_ok s p"
| "command_ok s (Located p) = pointer_ok s p"
| "command_ok s (Ready p i) = ready_ok s p i"
| "command_ok s (Unloading p i) = ready_ok s p i"
| "command_ok s (Unlinking p i) = ready_ok s (Some p) i"
| "command_ok s (Opened n) = (pl_loaded n \<and> next_plugin n = None)"
| "command_ok s (Linking n) = (pl_loaded n \<and> next_plugin n = None)"
| "command_ok s Quitting = True"

fun main_ok :: "('h, 'x, 'f) chain \<Rightarrow> main_pc \<Rightarrow> bool" where
  "main_ok s (At_head p rec) = head_ok s p"
| "main_ok s _ = True"

lemma later_ok:
  assumes "later s s'"
  shows "head_ok s i \<Longrightarrow> head_ok s' i" "command_ok s pc \<Longrightarrow> command_ok s' pc" "main_ok s m \<Longrightarrow> main_ok s' m"
proof -
  have h: "head_ok s' i" if "head_ok s i" for i using that assms by (auto simp: head_ok_def later_def)
  have p: "pointer_ok s' p" if "pointer_ok s p" for p using that assms by (auto simp: pointer_ok_def later_def)
  have r: "ready_ok s' p i" if "ready_ok s p i" for p i
    using that h [of i] p [of p] assms by (auto simp: ready_ok_def pointer_ok_def later_def)
  show "head_ok s i \<Longrightarrow> head_ok s' i" by (rule h)
  show "command_ok s pc \<Longrightarrow> command_ok s' pc" using p r by (cases pc) auto
  show "main_ok s m \<Longrightarrow> main_ok s' m" using h by (cases m) auto
qed

fun unlinking :: "('h, 'x) command_pc \<Rightarrow> bool" where
  "unlinking (Unlinking p i) = True"
| "unlinking _ = False"

lemma unlinking_holds: "unlinking pc \<Longrightarrow> holds_lock pc"
  by (cases pc) auto

text \<open>Unless a thread is between the closing and the unlinking of a plugin, the chain is a list of loaded
  plugins; there are no nodes but those of the list.\<close>

definition shape :: "('h, 'x, 'f) chain \<Rightarrow> (nat \<Rightarrow> ('h, 'x) command_pc) \<Rightarrow> nat list \<Rightarrow> bool" where
  "shape s tc ps \<longleftrightarrow> dom (heap s) = set ps \<and>
     (\<forall>k p i. tc k = Unlinking p i \<longrightarrow> closing p s ps) \<and> ((\<forall>k. \<not> unlinking (tc k)) \<longrightarrow> chain_ok s ps)"

lemma shape_facts:
  assumes "shape s tc ps"
  shows "linked (heap s) (plugins s) ps" "\<forall>a\<ge>fresh s. heap s a = None"
proof -
  have "linked (heap s) (plugins s) ps \<and> (\<forall>a\<ge>fresh s. heap s a = None)"
  proof (cases "\<forall>k. \<not> unlinking (tc k)")
    case True
    with assms show ?thesis by (auto simp: shape_def chain_ok_def)
  next
    case False
    then obtain k p i where "tc k = Unlinking p i" by (metis unlinking.elims(2))
    with assms have "closing p s ps" unfolding shape_def by blast
    then obtain n where n: "heap s p = Some n" "chain_ok (s\<lparr>heap := (heap s)(p \<mapsto> n\<lparr>pl_loaded := True\<rparr>)\<rparr>) ps"
      by (auto simp: closing_def)
    have "linked (heap s) (plugins s) ps"
      using n by (subst linked_cong [where h' = "(heap s)(p \<mapsto> n\<lparr>pl_loaded := True\<rparr>)"]) (auto simp: chain_ok_def)
    with n show ?thesis by (auto simp: chain_ok_def split: if_splits)
  qed
  then show "linked (heap s) (plugins s) ps" "\<forall>a\<ge>fresh s. heap s a = None" by auto
qed

lemma shape_head:
  assumes "shape s tc ps"
  shows "head_ok s (plugins s)" "plugins s = None \<Longrightarrow> heap s a = None"
proof -
  note f = shape_facts [OF assms]
  have "heap s h \<noteq> None" if "plugins s = Some h" for h
    using f(1) that by (cases ps) (auto split: option.splits)
  with f(2) show "head_ok s (plugins s)" by (auto simp: head_ok_def not_le [symmetric])
  have "dom (heap s) = set ps" using assms by (simp add: shape_def)
  then show "plugins s = None \<Longrightarrow> heap s a = None" using f(1) by (cases ps) auto
qed

lemma closing_cong:
  "heap s' = heap s \<Longrightarrow> plugins s' = plugins s \<Longrightarrow> fresh s' = fresh s \<Longrightarrow> closing p s' ps = closing p s ps"
  by (simp add: closing_def chain_ok_def)

lemma shape_upd:
  assumes "shape s tc ps" "\<not> unlinking (tc k)" "\<not> unlinking pc"
    and "heap s' = heap s" "plugins s' = plugins s" "fresh s' = fresh s"
  shows "shape s' (tc(k := pc)) ps"
proof -
  have "(\<forall>j. \<not> unlinking ((tc(k := pc)) j)) = (\<forall>j. \<not> unlinking (tc j))"
    using assms(2,3) by auto
  with assms closing_cong [OF assms(4-6)] chain_ok_cong [OF assms(4-6)] show ?thesis
    by (auto simp: shape_def)
qed

definition threads_ok :: "('h, 'x, 'f) threads \<Rightarrow> bool" where
  "threads_ok c \<longleftrightarrow> locked c \<and> (\<exists>ps. shape (t_chain c) (t_command c) ps) \<and> main_ok (t_chain c) (t_main c) \<and>
     (\<forall>k. command_ok (t_chain c) (t_command c k))"

lemma locked_unlinking:
  assumes "locked c"
  shows "main_holds_lock (t_main c) \<Longrightarrow> \<not> unlinking (t_command c k)"
    and "holds_lock (t_command c k) \<Longrightarrow> \<not> unlinking (t_command c k) \<Longrightarrow> \<not> unlinking (t_command c j)"
  using locked_main(2) [OF assms] locked_command(3) [OF assms] unlinking_holds by metis+

lemma no_unlinking:
  assumes "locked c" "shape (t_chain c) (t_command c) ps" "holds_lock (t_command c k)" "\<not> unlinking (t_command c k)"
  shows "\<And>j p i. t_command c j \<noteq> Unlinking p i" "chain_ok (t_chain c) ps" "dom (heap (t_chain c)) = set ps"
proof -
  have nu: "\<not> unlinking (t_command c j)" for j by (rule locked_unlinking(2) [OF assms(1,3,4)])
  then show "\<And>j p i. t_command c j \<noteq> Unlinking p i" by (metis unlinking.simps(1))
  show "chain_ok (t_chain c) ps" "dom (heap (t_chain c)) = set ps" using assms(2) nu by (simp_all add: shape_def)
qed

lemma main_step_ok:
  assumes "main_step c (Inr c')" "threads_ok c"
  shows "threads_ok c'"
proof -
  have l: "locked c" and l': "locked c'"
    using assms main_step_locked by (auto simp: threads_ok_def)
  obtain ps where sh: "shape (t_chain c) (t_command c) ps" using assms(2) by (auto simp: threads_ok_def)
  have run: "shape s (t_command c) ps \<and> later (t_chain c) s"
    if "t_main c = Offering p rec" "execute_plugin q rec (t_chain c) = Inr (g, rec', s)" for p q g rec rec' s
  proof -
    have nu: "\<not> unlinking (t_command c k)" for k using locked_unlinking(1) [OF l] that(1) by simp
    then have "chain_ok (t_chain c) ps" "dom (heap (t_chain c)) = set ps" using sh by (simp_all add: shape_def)
    with execute_plugin_keeps [OF that(2)] nu show ?thesis
      by (auto simp: shape_def) (metis unlinking.simps(1))
  qed
  from assms(1) show ?thesis
  proof cases
    case (read_head rec)
    with assms(2) l' shape_head(1) [OF sh] show ?thesis by (auto simp: threads_ok_def)
  next
    case (lock_head p rec)
    with assms(2) l' show ?thesis by (auto simp: threads_ok_def)
  next
    case (offer_next p rec rec' s n)
    with assms(2) l' run [OF offer_next(2,3)] show ?thesis by (auto simp: threads_ok_def intro: later_ok)
  next
    case (offer_drop p rec rec' s)
    with assms(2) l' run [OF offer_drop(2,3)] show ?thesis by (auto simp: threads_ok_def intro: later_ok)
  next
    case (offer_end rec)
    with assms(2) l' show ?thesis by (auto simp: threads_ok_def)
  qed
qed

text \<open>With the lock held, what is unlinked is the node it should be, or a head read before the lock has
  been freed since.\<close>

lemma unlink_ready:
  assumes "closing p s ps" "ready_ok s (Some p) i"
  shows "unlink_plugin p i s = unlink_plugin p (plugins s) s \<or> unlink_plugin p i s = Inl UseAfterFree"
proof -
  have "heap s p \<noteq> None" using assms(1) by (auto simp: closing_def)
  then obtain h where i: "i = Some h" using assms(2) by (cases i) (auto simp: ready_ok_def)
  show ?thesis
  proof (cases "heap s h = None")
    case True
    then show ?thesis by (simp add: unlink_plugin_def i loop_fuel_def node_at_def)
  next
    case False
    with assms(2) i show ?thesis by (simp add: ready_ok_def head_ok_def)
  qed
qed

lemma unlink_shape:
  assumes "unlink_plugin p i s = Inr (rc, s')" "closing p s ps" "ready_ok s (Some p) i"
  shows "rc = 0" "chain_ok s' (remove1 p ps)" "dom (heap s') = dom (heap s) - {p}" "later s s'"
proof -
  obtain s2 where "unlink_plugin p (plugins s) s = Inr (0, s2)" "chain_ok s2 (remove1 p ps)" "heap s2 p = None"
    "fresh s2 = fresh s" "dom (heap s2) = dom (heap s) - {p}" "plugins s \<noteq> Some p \<longrightarrow> plugins s2 = plugins s"
    using unlink_plugin_ok [OF assms(2)] by blast
  moreover have "unlink_plugin p (plugins s) s = Inr (rc, s')"
    using unlink_ready [OF assms(2,3)] assms(1) by auto
  ultimately show "rc = 0" "chain_ok s' (remove1 p ps)" "dom (heap s') = dom (heap s) - {p}" "later s s'"
    by (auto intro!: laterI)
qed

text \<open>The walk of \<open>locate_plugin_by_name\<close>: the successor of a node is a node.\<close>

lemma shape_next:
  assumes "shape s tc ps" "heap s p = Some n" "next_plugin n = Some q"
  shows "q \<in> dom (heap s)"
proof -
  have "p \<in> set ps" using assms(1,2) by (auto simp: shape_def)
  then obtain as bs where ps: "ps = as @ p # bs" by (auto dest: split_list)
  with linked_suffix [of "heap s" "plugins s" as p bs] shape_facts(1) [OF assms(1)] assms(2,3)
  have "linked (heap s) (Some q) bs" by auto
  then show ?thesis by (cases bs) (auto split: option.splits)
qed

lemma shape_pointer:
  assumes "shape s tc ps" "\<forall>a. p = Some a \<longrightarrow> a \<in> dom (heap s)"
  shows "pointer_ok s p"
  using shape_facts(2) [OF assms(1)] assms(2) by (fastforce simp: pointer_ok_def not_le [symmetric])

lemma live_at_node: "live_at p s = Inr n \<Longrightarrow> heap s p = Some n"
  by (auto simp: live_at_def node_at_def split: option.splits if_splits)

lemma live_at_next:
  assumes "shape s tc ps" "live_at p s = Inr n"
  shows "\<forall>a. next_plugin n = Some a \<longrightarrow> a \<in> dom (heap s)"
  using shape_next [OF assms(1) live_at_node [OF assms(2)]] by blast

lemma shape_plugins:
  assumes "shape s tc ps"
  shows "\<forall>a. plugins s = Some a \<longrightarrow> a \<in> dom (heap s)"
  using shape_facts(1) [OF assms] by (cases ps) (auto split: option.splits)

lemma threads_okI:
  assumes "locked c'" "shape (t_chain c') (t_command c') ps" "later (t_chain c) (t_chain c')" "threads_ok c"
    and "t_main c' = t_main c" "t_command c' = (t_command c)(k := pc)" "command_ok (t_chain c') pc"
  shows "threads_ok c'"
  using assms later_ok [OF assms(3)] by (auto simp: threads_ok_def)

lemma command_step_ok:
  assumes "command_step D k c (Inr c')" "threads_ok c"
  shows "threads_ok c'"
proof -
  have l: "locked c" and l': "locked c'"
    using assms command_step_locked by (auto simp: threads_ok_def)
  obtain ps where sh: "shape (t_chain c) (t_command c) ps" using assms(2) by (auto simp: threads_ok_def)
  have ok: "command_ok (t_chain c) (t_command c k)" using assms(2) by (simp add: threads_ok_def)
  note upd = shape_upd [OF sh, of k]
  from assms(1) show ?thesis
  proof cases
    case (locate name)
    with shape_pointer [OF sh shape_plugins [OF sh]] upd [of "Locating name (plugins (t_chain c))" "t_chain c"] show ?thesis
      by (intro threads_okI [OF l' _ _ assms(2), where k = k and ps = ps]) auto
  next
    case (locate_found name p n)
    with ok upd [of "Located (Some p)" "t_chain c"] show ?thesis
      by (intro threads_okI [OF l' _ _ assms(2), where k = k and ps = ps]) auto
  next
    case (locate_next name p n)
    with shape_pointer [OF sh live_at_next [OF sh locate_next(3)]] upd [of "Locating name (next_plugin n)" "t_chain c"]
    show ?thesis
      by (intro threads_okI [OF l' _ _ assms(2), where k = k and ps = ps]) auto
  next
    case (locate_end name)
    with upd [of "Located None" "t_chain c"] show ?thesis
      by (intro threads_okI [OF l' _ _ assms(2), where k = k and ps = ps]) (auto simp: pointer_ok_def)
  next
    case (read_first p)
    with upd [of "Ready p (plugins (t_chain c))" "t_chain c"] ok shape_head [OF sh] show ?thesis
      by (intro threads_okI [OF l' _ _ assms(2), where k = k and ps = ps]) (auto simp: ready_ok_def)
  next
    case (lock_unload p i)
    with upd [of "Unloading p i" "t_chain c"] ok show ?thesis
      by (intro threads_okI [OF l' _ _ assms(2), where k = k and ps = ps]) auto
  next
    case (unload p i s)
    note none = no_unlinking [OF l sh, of k, unfolded unload, simplified]
    have "heap (t_chain c) p \<noteq> None"
      using unload(3) by (auto simp: unload_plugin_def live_at_def node_at_def split: option.splits)
    then have p: "p \<in> set ps" using none(3) by auto
    note cl = closing_unloaded [OF none(2) p unload(3)]
    have "shape s ((t_command c)(k := Unlinking p i)) ps"
      using cl none(1,3) by (auto simp: shape_def)
    moreover have "ready_ok s (Some p) i"
      using later_ok(2) [OF unload_plugin_later [OF unload(3)] ok] by (simp add: unload)
    ultimately show ?thesis
      using unload_plugin_later [OF unload(3)] unload(1)
      by (intro threads_okI [OF l' _ _ assms(2), where k = k and ps = ps]) auto
  next
    case (unlink p i rc s)
    have cl: "closing p (t_chain c) ps" using sh unlink(2) unfolding shape_def by blast
    have others: "t_command c j \<noteq> Unlinking q i'" if "j \<noteq> k" for j q i'
      using locked_command(3) [OF l, of k j] unlink(2) that by auto
    have "ready_ok (t_chain c) (Some p) i" using ok by (simp add: unlink)
    note u = unlink_shape [OF unlink(3) cl this]
    have "distinct ps" using cl by (auto simp: closing_def chain_ok_def)
    then have "shape s ((t_command c)(k := Idle)) (remove1 p ps)"
      using u sh others by (auto simp: shape_def set_remove1_eq)
    with u(4) unlink(1) show ?thesis
      by (intro threads_okI [OF l' _ _ assms(2), where k = k and ps = "remove1 p ps"]) auto
  next
    case (prepare lib options nm new s)
    note same = prepare_plugin_keeps [OF prepare(3)]
    have "later (t_chain c) s" using same by (simp add: later_def)
    with upd [of "case new of None \<Rightarrow> Idle | Some n \<Rightarrow> Opened n" s] same prepare(1,2) show ?thesis
      by (intro threads_okI [OF l' _ _ assms(2), where k = k and ps = ps]) (auto split: option.splits)
  next
    case (lock_link n)
    with upd [of "Linking n" "t_chain c"] ok show ?thesis
      by (intro threads_okI [OF l' _ _ assms(2), where k = k and ps = ps]) auto
  next
    case lock_quit
    with upd [of Quitting "t_chain c"] show ?thesis
      by (intro threads_okI [OF l' _ _ assms(2), where k = k and ps = ps]) auto
  next
    case (link n s)
    note none = no_unlinking [OF l sh, of k, unfolded link, simplified]
    have "pl_loaded n" "next_plugin n = None" using ok by (simp_all add: link)
    then have c: "chain_ok s (ps @ [fresh (t_chain c)])" using link_plugin_ok [OF none(2), of n] link(3) by auto
    note fr = link_plugin_frame [OF link(3)]
    have "shape s ((t_command c)(k := Idle)) (ps @ [fresh (t_chain c)])"
      using c fr none(1,3) by (auto simp: shape_def)
    moreover have "later (t_chain c) s" using fr by (intro laterI) auto
    ultimately show ?thesis
      using link(1) by (intro threads_okI [OF l' _ _ assms(2), where k = k and ps = "ps @ [fresh (t_chain c)]"]) auto
  qed
qed

lemma reach_ok:
  assumes "reach D K c0 r" "threads_ok c0" "r = Inr c"
  shows "threads_ok c"
  using assms
proof (induction arbitrary: c rule: reach.induct)
  case (main c1 r)
  then show ?case by (auto intro: main_step_ok)
next
  case (command c1 k r)
  then show ?case by (auto intro: command_step_ok)
qed simp

lemma quiet_ok:
  assumes "chain_ok s ps" "dom (heap s) = set ps"
  shows "threads_ok (quiet s)"
  using assms by (auto simp: threads_ok_def quiet_def locked_def shape_def)

section \<open>A thread alone\<close>

text \<open>What a thread does when no other comes in between is the sequential function.\<close>

lemma reach_execute_from:
  assumes "execute_from fuel p rec s = Inr (rec', s')"
    and "reach D K c0 (Inr (c\<lparr>t_main := Offering p rec, t_mutex := Some 0, t_chain := s\<rparr>))"
  shows "reach D K c0 (Inr (c\<lparr>t_main := Waiting, t_mutex := None, t_chain := s'\<rparr>))"
  using assms
proof (induction fuel p rec s rule: execute_from.induct)
  case (1 fuel rec s)
  have eq: "c\<lparr>t_chain := s', t_main := Waiting, t_mutex := None\<rparr> = c\<lparr>t_main := Waiting, t_mutex := None, t_chain := s'\<rparr>"
    by simp
  from reach.main [OF 1(2) offer_end [of _ rec]] 1(1) show ?case by (auto simp: eq)
next
  case (3 fuel p rec s)
  define c1 where "c1 = c\<lparr>t_main := Offering (Some p) rec, t_mutex := Some 0, t_chain := s\<rparr>"
  have c1: "t_main c1 = Offering (Some p) rec" "t_chain c1 = s" by (simp_all add: c1_def)
  note r = 3(3) [folded c1_def]
  obtain go_on rec1 s1 where e: "execute_plugin p rec s = Inr (go_on, rec1, s1)"
    and nx: "if go_on then \<exists>n. node_at p s1 = Inr n \<and> execute_from fuel (next_plugin n) rec1 s1 = Inr (rec', s')
      else s' = s1"
    using 3(2) by (auto split: if_splits)
  show ?case
  proof (cases go_on)
    case True
    then obtain n where n: "node_at p s1 = Inr n" "execute_from fuel (next_plugin n) rec1 s1 = Inr (rec', s')"
      using nx by auto
    have "main_step c1 (Inr (c1\<lparr>t_main := Offering (next_plugin n) rec1, t_chain := s1\<rparr>))"
      using e True n(1) by (intro offer_next [OF c1(1)]) (simp_all add: c1)
    moreover have "c1\<lparr>t_main := Offering (next_plugin n) rec1, t_chain := s1\<rparr> =
        c\<lparr>t_main := Offering (next_plugin n) rec1, t_mutex := Some 0, t_chain := s1\<rparr>"
      by (simp add: c1_def)
    ultimately have "reach D K c0 (Inr (c\<lparr>t_main := Offering (next_plugin n) rec1, t_mutex := Some 0, t_chain := s1\<rparr>))"
      using reach.main [OF r] by metis
    with "3.IH" [OF e refl refl _ n(1,2)] True show ?thesis by simp
  next
    case False
    have "main_step c1 (Inr (c1\<lparr>t_main := Waiting, t_mutex := None, t_chain := s1\<rparr>))"
      using e False by (intro offer_drop [OF c1(1)]) (simp add: c1)
    moreover have "c1\<lparr>t_main := Waiting, t_mutex := None, t_chain := s1\<rparr> =
        c\<lparr>t_main := Waiting, t_mutex := None, t_chain := s'\<rparr>"
      using False nx by (simp add: c1_def)
    ultimately show ?thesis using reach.main [OF r] by metis
  qed
qed simp

lemma reach_execute:
  assumes "t_main c = Waiting" "t_mutex c = None" "execute_plugin_chain rec (t_chain c) = Inr (rec', s')"
  shows "reach D K c (Inr (c\<lparr>t_chain := s'\<rparr>))"
proof -
  have "reach D K c (Inr (c\<lparr>t_main := At_head (plugins (t_chain c)) rec\<rparr>))"
    by (rule reach.main [OF reach.start read_head [OF assms(1)]])
  from reach.main [OF this lock_head [of _ "plugins (t_chain c)" rec]] assms(2)
  have "reach D K c (Inr (c\<lparr>t_main := Offering (plugins (t_chain c)) rec, t_mutex := Some 0, t_chain := t_chain c\<rparr>))"
    by simp
  from reach_execute_from [OF assms(3) [unfolded execute_plugin_chain_def] this]
  have "reach D K c (Inr (c\<lparr>t_main := Waiting, t_mutex := None, t_chain := s'\<rparr>))" .
  moreover have "c\<lparr>t_main := Waiting, t_mutex := None, t_chain := s'\<rparr> = c\<lparr>t_chain := s'\<rparr>"
    using assms(1,2) by (cases c) simp
  ultimately show ?thesis by simp
qed

lemma command_at_twice [simp]: "command_at k pc (command_at k pc' c) = command_at k pc c"
  by (simp add: command_at_def)

lemma command_at_fields [simp]:
  "(command_at k pc c)\<lparr>t_chain := s\<rparr> = command_at k pc (c\<lparr>t_chain := s\<rparr>)"
  "(command_at k pc c)\<lparr>t_mutex := m\<rparr> = command_at k pc (c\<lparr>t_mutex := m\<rparr>)"
  "(command_at k pc c)\<lparr>t_main := p\<rparr> = command_at k pc (c\<lparr>t_main := p\<rparr>)"
  by (simp_all add: command_at_def)

lemma command_at_same [simp]: "t_command c k = pc \<Longrightarrow> command_at k pc c = c"
  by (cases c) (auto simp: command_at_def)

text \<open>Up to the moment the thread \<open>k\<close> has the lock, or has closed the plugin.\<close>

lemma reach_locate_from:
  assumes "locate_from fuel name q (t_chain c) = Inr p" "k \<in> K"
    and "reach D K c0 (Inr (command_at k (Locating name q) c))"
  shows "reach D K c0 (Inr (command_at k (Located p) c))"
  using assms
proof (induction fuel name q "t_chain c" rule: locate_from.induct)
  case (1 fuel name)
  from reach.command [OF 1(3,2) locate_end [of _ k name]] 1(1) show ?case by simp
next
  case (3 fuel name a)
  obtain n where n: "live_at a (t_chain c) = Inr n" using 3(2) by auto
  show ?case
  proof (cases "name = pl_library n \<or> pl_alias n = Some name")
    case True
    with reach.command [OF 3(4,3) locate_found [of _ k name a n]] n 3(2) show ?thesis by auto
  next
    case False
    have "reach D K c0 (Inr (command_at k (Locating name (next_plugin n)) c))"
      using reach.command [OF 3(4,3) locate_next [of _ k name a n]] n False by simp
    with "3.hyps" [OF n False] 3(2,3) n False show ?thesis by simp
  qed
qed simp

lemma reach_unloading:
  assumes "reach D K c0 (Inr c)" "k \<in> K" "t_command c k = Idle" "locate_plugin_by_name name (t_chain c) = Inr p"
  shows "reach D K c0 (Inr (command_at k (Ready p (plugins (t_chain c))) c))"
    and "t_mutex c = None \<Longrightarrow>
      reach D K c0 (Inr (command_at k (Unloading p (plugins (t_chain c))) (c\<lparr>t_mutex := Some (Suc k)\<rparr>)))"
proof -
  have 1: "reach D K c0 (Inr (command_at k (Located p) c))"
    using reach_locate_from [OF assms(4) [unfolded locate_plugin_by_name_def] assms(2)
        reach.command [OF assms(1,2) locate [OF assms(3)]]] .
  show 2: "reach D K c0 (Inr (command_at k (Ready p (plugins (t_chain c))) c))"
    using reach.command [OF 1 assms(2) read_first [of _ k p]] by simp
  assume "t_mutex c = None"
  with reach.command [OF 2 assms(2) lock_unload [of _ k p "plugins (t_chain c)"]]
  show "reach D K c0 (Inr (command_at k (Unloading p (plugins (t_chain c))) (c\<lparr>t_mutex := Some (Suc k)\<rparr>)))" by simp
qed

lemma reach_unload:
  assumes "reach D K c0 (Inr c)" "k \<in> K" "t_command c k = Idle" "t_mutex c = None"
    and "unload_plugin_by_name name (t_chain c) = Inr (rc, s')"
  shows "reach D K c0 (Inr (c\<lparr>t_chain := s'\<rparr>))"
proof -
  obtain p s1 where p: "locate_plugin_by_name name (t_chain c) = Inr (Some p)" "unload_plugin p (t_chain c) = Inr s1"
    "unlink_plugin p (plugins (t_chain c)) s1 = Inr (rc, s')"
    using assms(5) by (auto simp: unload_plugin_by_name_def split: option.splits)
  have "reach D K c0 (Inr (command_at k (Unlinking p (plugins (t_chain c))) (c\<lparr>t_mutex := Some (Suc k), t_chain := s1\<rparr>)))"
    using reach.command [OF reach_unloading(2) [OF assms(1-3) p(1) assms(4)] assms(2)
        unload [of _ k p "plugins (t_chain c)" s1]] p(2) by simp
  from reach.command [OF this assms(2) unlink [of _ k p "plugins (t_chain c)" rc s']] p(3)
  have "reach D K c0 (Inr (command_at k Idle (c\<lparr>t_chain := s', t_mutex := None\<rparr>)))" by simp
  moreover have "c\<lparr>t_chain := s', t_mutex := None\<rparr> = c\<lparr>t_chain := s'\<rparr>" using assms(4) by (cases c) simp
  ultimately show ?thesis using assms(3) by simp
qed

lemma reach_load:
  assumes "reach D K c0 (Inr c)" "k \<in> K" "t_command c k = Idle" "t_mutex c = None"
    and "load_plugin D lib options name (t_chain c) = Inr (rc, s')"
  shows "reach D K c0 (Inr (c\<lparr>t_chain := s'\<rparr>))"
proof -
  obtain new s1 where p: "prepare_plugin D lib options name (t_chain c) = Inr (new, s1)"
    "case new of None \<Rightarrow> s' = s1 | Some n \<Rightarrow> link_plugin n s1 = Inr s'"
    using assms(5) by (auto simp: load_plugin_def split: option.splits)
  note 1 = reach.command [OF assms(1,2) prepare [OF assms(3) p(1)]]
  show ?thesis
  proof (cases new)
    case None
    with 1 p assms(3) show ?thesis by simp
  next
    case (Some n)
    with 1 have "reach D K c0 (Inr (command_at k (Opened n) (c\<lparr>t_chain := s1\<rparr>)))" by simp
    from reach.command [OF this assms(2) lock_link [of _ k n]] assms(4)
    have "reach D K c0 (Inr (command_at k (Linking n) (c\<lparr>t_chain := s1, t_mutex := Some (Suc k)\<rparr>)))" by simp
    from reach.command [OF this assms(2) link [of _ k n s']] p(2) Some
    have "reach D K c0 (Inr (command_at k Idle (c\<lparr>t_chain := s', t_mutex := None\<rparr>)))" by simp
    moreover have "c\<lparr>t_chain := s', t_mutex := None\<rparr> = c\<lparr>t_chain := s'\<rparr>" using assms(4) by (cases c) simp
    ultimately show ?thesis using assms(3) by simp
  qed
qed

section \<open>One command thread\<close>

text \<open>With no other command thread, what the thread has read from the list is still there.\<close>

fun solo_at :: "('h, 'x, 'f) chain \<Rightarrow> ('h, 'x) command_pc \<Rightarrow> bool" where
  "solo_at s (Locating name p) \<longleftrightarrow> (\<forall>a. p = Some a \<longrightarrow> a \<in> dom (heap s))"
| "solo_at s (Located p) \<longleftrightarrow> (\<forall>a. p = Some a \<longrightarrow> a \<in> dom (heap s))"
| "solo_at s (Ready p i) \<longleftrightarrow> i = plugins s \<and> (\<forall>a. p = Some a \<longrightarrow> a \<in> dom (heap s))"
| "solo_at s (Unloading p i) \<longleftrightarrow> i = plugins s \<and> (\<forall>a. p = Some a \<longrightarrow> a \<in> dom (heap s))"
| "solo_at s (Unlinking p i) \<longleftrightarrow> i = plugins s"
| "solo_at s _ \<longleftrightarrow> True"

definition solo :: "nat \<Rightarrow> ('h, 'x, 'f) threads \<Rightarrow> bool" where
  "solo k c \<longleftrightarrow> threads_ok c \<and> (\<forall>j. j \<noteq> k \<longrightarrow> t_command c j = Idle) \<and> solo_at (t_chain c) (t_command c k)"

lemma solo_at_cong:
  "dom (heap s') = dom (heap s) \<Longrightarrow> plugins s' = plugins s \<Longrightarrow> solo_at s' pc = solo_at s pc"
  by (cases pc) auto

lemma main_step_solo:
  assumes "main_step c (Inr c')" "solo k c"
  shows "solo k c'"
proof -
  have ok: "threads_ok c" "threads_ok c'" using assms main_step_ok by (auto simp: solo_def)
  then obtain ps where l: "locked c" and sh: "shape (t_chain c) (t_command c) ps" by (auto simp: threads_ok_def)
  have "t_command c' = t_command c \<and> dom (heap (t_chain c')) = dom (heap (t_chain c)) \<and> plugins (t_chain c') = plugins (t_chain c)"
  proof -
    have run: "dom (heap s) = dom (heap (t_chain c)) \<and> plugins s = plugins (t_chain c)"
      if "t_main c = Offering p rec" "execute_plugin q rec (t_chain c) = Inr (g, rec', s)" for p q g rec rec' s
    proof -
      have "\<not> unlinking (t_command c j)" for j using locked_unlinking(1) [OF l] that(1) by simp
      then have "chain_ok (t_chain c) ps" using sh by (simp add: shape_def)
      from execute_plugin_keeps [OF that(2) this] show ?thesis by simp
    qed
    from assms(1) show ?thesis
    proof cases
      case (offer_next p rec rec' s n)
      with run [OF offer_next(2,3)] show ?thesis by simp
    next
      case (offer_drop p rec rec' s)
      with run [OF offer_drop(2,3)] show ?thesis by simp
    qed auto
  qed
  with assms(2) ok(2) solo_at_cong [of "t_chain c'" "t_chain c" "t_command c k"] show ?thesis
    unfolding solo_def by simp
qed

lemma command_step_solo:
  assumes "command_step D k c (Inr c')" "solo k c"
  shows "solo k c'"
proof -
  have ok: "threads_ok c" "threads_ok c'" using assms command_step_ok by (auto simp: solo_def)
  then obtain ps where l: "locked c" and sh: "shape (t_chain c) (t_command c) ps" by (auto simp: threads_ok_def)
  have "solo_at (t_chain c') (t_command c' k) \<and> (\<forall>j. j \<noteq> k \<longrightarrow> t_command c' j = t_command c j)"
    using assms(1)
  proof cases
    case (locate name)
    with shape_plugins [OF sh] show ?thesis by simp
  next
    case (locate_found name p n)
    then show ?thesis using live_at_node [of p "t_chain c" n] by auto
  next
    case (locate_next name p n)
    with live_at_next [OF sh locate_next(3)] show ?thesis by simp
  next
    case (unload p i s)
    note none = no_unlinking [OF l sh, of k, unfolded unload, simplified]
    have "heap (t_chain c) p \<noteq> None"
      using unload(3) by (auto simp: unload_plugin_def live_at_def node_at_def split: option.splits)
    then have "p \<in> set ps" using none(3) by auto
    from closing_unloaded [OF none(2) this unload(3)] assms(2) show ?thesis
      by (simp add: unload solo_def)
  next
    case (prepare lib options nm new s)
    then show ?thesis by (simp split: option.splits)
  qed (use assms(2) in \<open>auto simp: solo_def\<close>)
  with assms(2) ok(2) show ?thesis by (auto simp: solo_def)
qed

lemma reach_solo:
  assumes "reach D {k} c0 r" "solo k c0" "r = Inr c"
  shows "solo k c"
  using assms
proof (induction arbitrary: c rule: reach.induct)
  case (main c1 r)
  then show ?case by (auto intro: main_step_solo)
next
  case (command c1 j r)
  then show ?case by (auto intro: command_step_solo)
qed simp

end
