(* ===== verification/Prompt_Threads.thy ===== *)
theory Prompt_Threads
imports Prelude
begin

text \<open>
  Several prompts: the threads of \<open>input_cli\<close> and the main loop, as far as they wait for one another. A
  prompt told to unload another one holds \<open>plugin_mutex\<close> while \<open>close_plugin\<close> waits in \<open>pthread_join\<close> for
  the other thread, which ends only when it comes back to the head of its loop; a prompt told to quit holds
  it while it closes and joins them all. What the commands do to the chain is left to \<open>Chain_Threads\<close>; here
  a plugin is the number of its prompt, and the plugins that are no prompts have no state. A line is one
  command; a configuration file with several is not shown.
\<close>

section \<open>Threads\<close>

text \<open>\<open>Checking\<close>: at the head of the loop; \<open>Reading\<close>: in \<open>fgets\<close>. A command that waits for the lock, with
  the plugin found or prepared: \<open>Asked_unload j\<close> of a prompt, \<open>Asked_other\<close> to unload a plugin that is none,
  \<open>Asked_load\<close>, \<open>Asked_quit\<close>. With the lock: \<open>Joining j\<close>, \<open>Closing_other\<close>, \<open>Adding\<close>; and for \<open>quit\<close>,
  \<open>Closing_all\<close> at the head of the loop of \<open>unload_all_plugins\<close>, \<open>Joining_all j\<close> in it.\<close>

datatype prompt_pc =
    Absent | Checking | Reading | Asked_unload nat | Asked_load "nat option" | Asked_other | Asked_quit
  | Joining nat | Adding "nat option" | Closing_other | Closing_all | Joining_all nat | Ended

datatype loop_pc = Receiving | At_lock | Executing

text \<open>The mutex belongs to 0, the main loop, or to \<open>Suc k\<close>, the prompt \<open>k\<close>. \<open>pr_kill\<close> is \<open>kill_thread\<close> in the
  state of a prompt, while it is allocated.\<close>

record prompts =
  pr_mutex :: "nat option"
  pr_main :: loop_pc
  pr_pc :: "nat \<Rightarrow> prompt_pc"
  pr_kill :: "nat \<Rightarrow> int option"
  pr_loaded :: "nat set"

definition prompt_at :: "nat \<Rightarrow> prompt_pc \<Rightarrow> prompts \<Rightarrow> prompts" where
  "prompt_at k pc c = c\<lparr>pr_pc := (pr_pc c)(k := pc)\<rparr>"

lemma prompt_at_simps [simp]:
  "pr_mutex (prompt_at k pc c) = pr_mutex c" "pr_main (prompt_at k pc c) = pr_main c"
  "pr_pc (prompt_at k pc c) = (pr_pc c)(k := pc)" "pr_kill (prompt_at k pc c) = pr_kill c"
  "pr_loaded (prompt_at k pc c) = pr_loaded c"
  by (simp_all add: prompt_at_def)

lemma prompt_at_twice [simp]: "prompt_at k pc (prompt_at k pc' c) = prompt_at k pc c"
  by (simp add: prompt_at_def)

inductive loop_step :: "prompts \<Rightarrow> prompts \<Rightarrow> bool" where
  receive: "pr_main c = Receiving \<Longrightarrow> loop_step c (c\<lparr>pr_main := At_lock\<rparr>)"
| lock_loop: "pr_main c = At_lock \<Longrightarrow> pr_mutex c = None \<Longrightarrow>
    loop_step c (c\<lparr>pr_main := Executing, pr_mutex := Some 0\<rparr>)"
| executed: "pr_main c = Executing \<Longrightarrow> loop_step c (c\<lparr>pr_main := Receiving, pr_mutex := None\<rparr>)"

text \<open>A line is a command that takes no lock, an \<open>unload-plugin\<close>, of a prompt or not, a \<open>load-plugin\<close>, perhaps of
  a new prompt, whose thread runs from then on, or \<open>quit\<close>. \<open>pthread_join\<close> returns when the thread has
  ended, or at once when it is the calling one. \<open>quit\<close> closes the prompts one after the other, in any order
  here, and exits after the last one: its \<open>unlock\<close> and the \<open>exit\<close> are one step.\<close>

inductive prompt_step :: "nat \<Rightarrow> prompts \<Rightarrow> prompts res \<Rightarrow> bool" for k where
  look: "pr_pc c k = Checking \<Longrightarrow> pr_kill c k = Some 0 \<Longrightarrow> prompt_step k c (Inr (prompt_at k Reading c))"
| quit: "pr_pc c k = Checking \<Longrightarrow> pr_kill c k = Some v \<Longrightarrow> v \<noteq> 0 \<Longrightarrow> prompt_step k c (Inr (prompt_at k Ended c))"
| look_freed: "pr_pc c k = Checking \<Longrightarrow> pr_kill c k = None \<Longrightarrow> prompt_step k c (Inl UseAfterFree)"
| read_other: "pr_pc c k = Reading \<Longrightarrow> prompt_step k c (Inr (prompt_at k Checking c))"
| read_unload: "pr_pc c k = Reading \<Longrightarrow> j \<in> pr_loaded c \<Longrightarrow> prompt_step k c (Inr (prompt_at k (Asked_unload j) c))"
| read_load: "pr_pc c k = Reading \<Longrightarrow> prompt_step k c (Inr (prompt_at k (Asked_load None) c))"
| read_load_prompt: "pr_pc c k = Reading \<Longrightarrow> pr_pc c j = Absent \<Longrightarrow>
    prompt_step k c (Inr (prompt_at k (Asked_load (Some j)) (prompt_at j Checking c\<lparr>pr_kill := (pr_kill c)(j \<mapsto> 0)\<rparr>)))"
| read_unload_other: "pr_pc c k = Reading \<Longrightarrow> prompt_step k c (Inr (prompt_at k Asked_other c))"
| read_quit: "pr_pc c k = Reading \<Longrightarrow> prompt_step k c (Inr (prompt_at k Asked_quit c))"
| lock_join: "pr_pc c k = Asked_unload j \<Longrightarrow> pr_mutex c = None \<Longrightarrow> j \<in> pr_loaded c \<Longrightarrow>
    prompt_step k c (Inr (prompt_at k (Joining j) (c\<lparr>pr_mutex := Some (Suc k), pr_kill := (pr_kill c)(j \<mapsto> 1)\<rparr>)))"
| lock_gone: "pr_pc c k = Asked_unload j \<Longrightarrow> pr_mutex c = None \<Longrightarrow> j \<notin> pr_loaded c \<Longrightarrow>
    prompt_step k c (Inl UseAfterFree)"
| joined: "pr_pc c k = Joining j \<Longrightarrow> pr_pc c j = Ended \<or> j = k \<Longrightarrow>
    prompt_step k c (Inr (prompt_at k Checking
      (c\<lparr>pr_mutex := None, pr_kill := (pr_kill c)(j := None), pr_loaded := pr_loaded c - {j}\<rparr>)))"
| lock_add: "pr_pc c k = Asked_load new \<Longrightarrow> pr_mutex c = None \<Longrightarrow>
    prompt_step k c (Inr (prompt_at k (Adding new) (c\<lparr>pr_mutex := Some (Suc k)\<rparr>)))"
| added: "pr_pc c k = Adding new \<Longrightarrow>
    prompt_step k c (Inr (prompt_at k Checking (c\<lparr>pr_mutex := None, pr_loaded := pr_loaded c \<union> set_option new\<rparr>)))"
| lock_other: "pr_pc c k = Asked_other \<Longrightarrow> pr_mutex c = None \<Longrightarrow>
    prompt_step k c (Inr (prompt_at k Closing_other (c\<lparr>pr_mutex := Some (Suc k)\<rparr>)))"
| closed_other: "pr_pc c k = Closing_other \<Longrightarrow> prompt_step k c (Inr (prompt_at k Checking (c\<lparr>pr_mutex := None\<rparr>)))"
| lock_all: "pr_pc c k = Asked_quit \<Longrightarrow> pr_mutex c = None \<Longrightarrow>
    prompt_step k c (Inr (prompt_at k Closing_all (c\<lparr>pr_mutex := Some (Suc k)\<rparr>)))"
| close_next: "pr_pc c k = Closing_all \<Longrightarrow> j \<in> pr_loaded c \<Longrightarrow>
    prompt_step k c (Inr (prompt_at k (Joining_all j) (c\<lparr>pr_kill := (pr_kill c)(j \<mapsto> 1)\<rparr>)))"
| joined_next: "pr_pc c k = Joining_all j \<Longrightarrow> pr_pc c j = Ended \<or> j = k \<Longrightarrow>
    prompt_step k c (Inr (prompt_at k Closing_all
      (c\<lparr>pr_kill := (pr_kill c)(j := None), pr_loaded := pr_loaded c - {j}\<rparr>)))"
| closed_all: "pr_pc c k = Closing_all \<Longrightarrow> pr_loaded c = {} \<Longrightarrow> prompt_step k c (Inl (Exited 1))"

inductive_cases loop_stepE: "loop_step c c'"
inductive_cases prompt_stepE: "prompt_step k c (Inr c')"

inductive prompts_reach :: "prompts \<Rightarrow> prompts res \<Rightarrow> bool" for c0 where
  begin_reach: "prompts_reach c0 (Inr c0)"
| loop_reach: "prompts_reach c0 (Inr c) \<Longrightarrow> loop_step c c' \<Longrightarrow> prompts_reach c0 (Inr c')"
| prompt_reach: "prompts_reach c0 (Inr c) \<Longrightarrow> prompt_step k c r \<Longrightarrow> prompts_reach c0 r"

text \<open>The prompts of \<open>K\<close>, loaded and running.\<close>

definition prompts_of :: "nat set \<Rightarrow> prompts" where
  "prompts_of K = \<lparr>pr_mutex = None, pr_main = Receiving, pr_pc = (\<lambda>k. if k \<in> K then Checking else Absent),
     pr_kill = (\<lambda>k. if k \<in> K then Some 0 else None), pr_loaded = K\<rparr>"

section \<open>The lock\<close>

fun owns_lock :: "prompt_pc \<Rightarrow> bool" where
  "owns_lock (Joining j) = True"
| "owns_lock (Adding new) = True"
| "owns_lock Closing_other = True"
| "owns_lock Closing_all = True"
| "owns_lock (Joining_all j) = True"
| "owns_lock _ = False"

text \<open>Which commands wait for it, and which are in \<open>quit\<close>.\<close>

fun asking :: "prompt_pc \<Rightarrow> bool" where
  "asking (Asked_unload j) = True"
| "asking (Asked_load new) = True"
| "asking Asked_other = True"
| "asking Asked_quit = True"
| "asking _ = False"

fun quitting :: "prompt_pc \<Rightarrow> bool" where
  "quitting Closing_all = True"
| "quitting (Joining_all j) = True"
| "quitting _ = False"

text \<open>Who holds the lock, and that a prompt in the chain, or about to be, has a state and a thread.\<close>

definition prompts_ok :: "prompts \<Rightarrow> bool" where
  "prompts_ok c \<longleftrightarrow> (pr_mutex c = Some 0 \<longleftrightarrow> pr_main c = Executing) \<and>
     (\<forall>k. pr_mutex c = Some (Suc k) \<longleftrightarrow> owns_lock (pr_pc c k)) \<and>
     (\<forall>j\<in>pr_loaded c. pr_pc c j \<noteq> Absent) \<and>
     (\<forall>k j. pr_pc c k = Asked_load (Some j) \<or> pr_pc c k = Adding (Some j) \<longrightarrow> pr_pc c j \<noteq> Absent) \<and>
     (\<forall>k j. pr_pc c k = Joining j \<or> pr_pc c k = Joining_all j \<longrightarrow> j \<in> pr_loaded c \<and> (\<exists>v. pr_kill c j = Some v \<and> v \<noteq> 0))"

lemma prompts_of_ok: "prompts_ok (prompts_of K)"
  by (auto simp: prompts_ok_def prompts_of_def)

lemma loop_step_ok: "loop_step c c' \<Longrightarrow> prompts_ok c \<Longrightarrow> prompts_ok c'"
  by (erule loop_stepE) (auto simp: prompts_ok_def)

lemma owner:
  assumes "prompts_ok c" "owns_lock (pr_pc c k)"
  shows "pr_mutex c = Some (Suc k)" "pr_main c \<noteq> Executing" "k' \<noteq> k \<Longrightarrow> \<not> owns_lock (pr_pc c k')"
    "k' \<noteq> k \<Longrightarrow> pr_pc c k' \<noteq> Joining j \<and> pr_pc c k' \<noteq> Joining_all j"
proof -
  show m: "pr_mutex c = Some (Suc k)" using assms by (simp add: prompts_ok_def)
  then show "pr_main c \<noteq> Executing" "k' \<noteq> k \<Longrightarrow> \<not> owns_lock (pr_pc c k')"
    using assms(1) by (auto simp: prompts_ok_def)
  then show "k' \<noteq> k \<Longrightarrow> pr_pc c k' \<noteq> Joining j \<and> pr_pc c k' \<noteq> Joining_all j" by force
qed

lemma prompt_step_ok:
  assumes "prompt_step k c (Inr c')" "prompts_ok c"
  shows "prompts_ok c'"
  using assms(1)
proof cases
  case (joined j)
  then have "owns_lock (pr_pc c k)" by simp
  note o = owner [OF assms(2) this]
  from joined assms(2) o(1,2) o(3,4) show ?thesis unfolding prompts_ok_def by (auto dest: spec [of _ k])
next
  case (added new)
  then have "owns_lock (pr_pc c k)" by simp
  note o = owner [OF assms(2) this]
  from added assms(2) o(1,2) o(3,4) show ?thesis unfolding prompts_ok_def by (auto dest: spec [of _ k])
next
  case closed_other
  then have "owns_lock (pr_pc c k)" by simp
  note o = owner [OF assms(2) this]
  from closed_other assms(2) o(1,2) o(3,4) show ?thesis unfolding prompts_ok_def by (auto dest: spec [of _ k])
next
  case (close_next j)
  then have "owns_lock (pr_pc c k)" by simp
  note o = owner [OF assms(2) this]
  from close_next assms(2) o(1,2) o(3,4) show ?thesis unfolding prompts_ok_def by (auto dest: spec [of _ k])
next
  case (joined_next j)
  then have "owns_lock (pr_pc c k)" by simp
  note o = owner [OF assms(2) this]
  from joined_next assms(2) o(1,2) o(3,4) show ?thesis unfolding prompts_ok_def by (auto dest: spec [of _ k])
qed (use assms(2) in \<open>auto simp: prompts_ok_def\<close>)

lemma reach_prompts_ok: "prompts_reach c0 r \<Longrightarrow> prompts_ok c0 \<Longrightarrow> r = Inr c \<Longrightarrow> prompts_ok c"
proof (induction arbitrary: c rule: prompts_reach.induct)
  case (loop_reach c1 c')
  then show ?case by (auto intro: loop_step_ok)
next
  case (prompt_reach c1 k r)
  then show ?case by (auto intro: prompt_step_ok)
qed simp

lemma reach_trans: "prompts_reach c r \<Longrightarrow> prompts_reach c0 (Inr c) \<Longrightarrow> prompts_reach c0 r"
  by (induction rule: prompts_reach.induct) (auto intro: prompts_reach.intros)

section \<open>A deadlock\<close>

text \<open>Two prompts that wait for one another for ever: one for the end of the other's thread, with the lock,
  the other for the lock.\<close>

definition deadlocked :: "nat \<Rightarrow> nat \<Rightarrow> prompts \<Rightarrow> bool" where
  "deadlocked i j c \<longleftrightarrow> i \<noteq> j \<and> pr_pc c i = Joining j \<and> pr_mutex c = Some (Suc i) \<and> pr_main c \<noteq> Executing \<and>
     asking (pr_pc c j)"

lemma deadlocked_loop: "loop_step c c' \<Longrightarrow> deadlocked i j c \<Longrightarrow> deadlocked i j c'"
  by (erule loop_stepE) (auto simp: deadlocked_def)

lemma deadlocked_prompt:
  assumes "prompt_step k c (Inr c')" "deadlocked i j c" "prompts_ok c"
  shows "deadlocked i j c'"
proof -
  have "owns_lock (pr_pc c i)" using assms(2) by (simp add: deadlocked_def)
  note o = owner [OF assms(3) this]
  from assms(1) show ?thesis
  proof cases
    case (joined l)
    then have "k = i" using o(3) [of k] by auto
    with joined assms(2) show ?thesis by (auto simp: deadlocked_def)
  next
    case (added new)
    then have "k = i" using o(3) [of k] by auto
    with added assms(2) show ?thesis by (auto simp: deadlocked_def)
  next
    case closed_other
    then have "k = i" using o(3) [of k] by auto
    with closed_other assms(2) show ?thesis by (auto simp: deadlocked_def)
  next
    case (close_next l)
    then have "k = i" using o(3) [of k] by auto
    with close_next assms(2) show ?thesis by (auto simp: deadlocked_def)
  next
    case (joined_next l)
    then have "k = i" using o(3) [of k] by auto
    with joined_next assms(2) show ?thesis by (auto simp: deadlocked_def)
  qed (use assms(2) in \<open>auto simp: deadlocked_def\<close>)
qed

lemma deadlocked_for_ever:
  "prompts_reach c0 r \<Longrightarrow> prompts_ok c0 \<Longrightarrow> deadlocked i j c0 \<Longrightarrow> r = Inr c \<Longrightarrow> deadlocked i j c"
proof (induction arbitrary: c rule: prompts_reach.induct)
  case (loop_reach c1 c')
  then show ?case by (auto intro: deadlocked_loop)
next
  case (prompt_reach c1 k r)
  from prompt_reach.hyps(2) [unfolded prompt_reach.prems(3)] show ?case
    by (rule deadlocked_prompt) (use prompt_reach reach_prompts_ok in auto)
qed simp

text \<open>In particular the second stays at its command.\<close>

lemma deadlocked_asks:
  assumes "prompt_step k c (Inr c')" "deadlocked i j c"
  shows "pr_pc c' j = pr_pc c j"
proof -
  have j: "asking (pr_pc c j)" "pr_mutex c \<noteq> None"
    using assms(2) by (auto simp: deadlocked_def)
  from assms(1) show ?thesis by cases (use j in auto)
qed

lemma deadlocked_asks_for_ever:
  "prompts_reach c0 r \<Longrightarrow> prompts_ok c0 \<Longrightarrow> deadlocked i j c0 \<Longrightarrow> r = Inr c \<Longrightarrow> pr_pc c j = pr_pc c0 j"
proof (induction arbitrary: c rule: prompts_reach.induct)
  case (loop_reach c1 c')
  then show ?case by (auto elim!: loop_stepE)
next
  case (prompt_reach c1 k r)
  have "deadlocked i j c1" using deadlocked_for_ever [OF prompt_reach.hyps(1) prompt_reach.prems(1,2) refl] .
  from deadlocked_asks [OF prompt_reach.hyps(2) [unfolded prompt_reach.prems(3)] this] show ?case
    using prompt_reach.IH [OF prompt_reach.prems(1,2) refl] by simp
qed simp

text \<open>It takes two prompts and two lines: each asks for the other, or one for any plugin.\<close>

lemma deadlock_reached:
  assumes "i \<in> K" "j \<in> K" "i \<noteq> j"
  shows "\<exists>c. prompts_reach (prompts_of K) (Inr c) \<and> deadlocked i j c \<and> pr_pc c j = Asked_unload i"
proof -
  define c0 where "c0 = prompts_of K"
  have c0: "pr_pc c0 i = Checking" "pr_pc c0 j = Checking" "pr_kill c0 i = Some 0" "pr_kill c0 j = Some 0"
    "pr_mutex c0 = None" "pr_main c0 = Receiving" "j \<in> pr_loaded c0" "i \<in> pr_loaded c0"
    using assms by (simp_all add: c0_def prompts_of_def)
  define c1 where "c1 = prompt_at i Reading c0"
  define c2 where "c2 = prompt_at j Reading c1"
  define c3 where "c3 = prompt_at i (Asked_unload j) c2"
  define c4 where "c4 = prompt_at j (Asked_unload i) c3"
  define c5 where "c5 = prompt_at i (Joining j) (c4\<lparr>pr_mutex := Some (Suc i), pr_kill := (pr_kill c4)(j \<mapsto> 1)\<rparr>)"
  note defs = c1_def c2_def c3_def c4_def c5_def
  have s: "prompt_step i c0 (Inr c1)" "prompt_step j c1 (Inr c2)" "prompt_step i c2 (Inr c3)" "prompt_step j c3 (Inr c4)"
    unfolding c1_def c2_def c3_def c4_def using assms(3) c0 by (auto intro: prompt_step.intros)
  have s5: "prompt_step i c4 (Inr c5)"
    unfolding c5_def by (rule lock_join) (use assms(3) c0 in \<open>simp_all add: c1_def c2_def c3_def c4_def\<close>)
  have "prompts_reach c0 (Inr c5)"
    by (rule prompt_reach [OF prompt_reach [OF prompt_reach [OF prompt_reach [OF prompt_reach [OF begin_reach s(1)] s(2)] s(3)] s(4)] s5])
  moreover have "deadlocked i j c5" "pr_pc c5 j = Asked_unload i" using assms(3) c0 by (auto simp: deadlocked_def defs)
  ultimately show ?thesis unfolding c0_def by blast
qed

section \<open>Without one\<close>

text \<open>A prompt that has been told to end, and is not asking for the lock, ends.\<close>

lemma prompt_ends:
  assumes "prompts_ok c" "owns_lock (pr_pc c k)" "j \<noteq> k" "j \<in> pr_loaded c" "pr_kill c j = Some v" "v \<noteq> 0"
    and "\<not> asking (pr_pc c j)"
  shows "prompts_reach c (Inr (prompt_at j Ended c))"
proof -
  have ends: "prompts_reach c (Inr (prompt_at j Ended c))"
    if "prompts_reach c (Inr c1)" "pr_pc c1 j = Checking" "pr_kill c1 j = Some v" "prompt_at j Ended c1 = prompt_at j Ended c" for c1
    using prompt_reach [OF that(1) quit [of c1 j v, OF that(2,3) assms(6)]] that(4) by simp
  have "\<not> owns_lock (pr_pc c j)" using owner(3) [OF assms(1,2,3)] .
  moreover have "pr_pc c j \<noteq> Absent" using assms(1,4) by (simp add: prompts_ok_def)
  ultimately consider "pr_pc c j = Checking" | "pr_pc c j = Reading" | "pr_pc c j = Ended"
    using assms(7) by (cases "pr_pc c j") auto
  then show ?thesis
  proof cases
    case 1
    with assms(5) show ?thesis by (intro ends [OF begin_reach]) simp_all
  next
    case 2
    with assms(5) show ?thesis
      by (intro ends [OF prompt_reach [OF begin_reach read_other [of c j]]]) simp_all
  next
    case 3
    then have "prompt_at j Ended c = c" by (cases c) (auto simp: prompt_at_def)
    then show ?thesis using begin_reach by simp
  qed
qed

text \<open>\<open>quit\<close> gets to its end unless a prompt it has not closed yet asks for the lock.\<close>

lemma quit_ends:
  assumes "finite (pr_loaded c)" "prompts_ok c" "pr_pc c k = Closing_all"
    and "\<And>j. j \<in> pr_loaded c \<Longrightarrow> j \<noteq> k \<Longrightarrow> \<not> asking (pr_pc c j)"
  shows "prompts_reach c (Inl (Exited 1))"
  using assms
proof (induction "card (pr_loaded c)" arbitrary: c)
  case 0
  then have "pr_loaded c = {}" by simp
  from prompt_reach [OF begin_reach closed_all [of c k, OF 0(4) this]] show ?case .
next
  case (Suc m)
  then obtain j where j: "j \<in> pr_loaded c" by fastforce
  define c1 where "c1 = prompt_at k (Joining_all j) (c\<lparr>pr_kill := (pr_kill c)(j \<mapsto> 1)\<rparr>)"
  have s1: "prompt_step k c (Inr c1)" unfolding c1_def by (rule close_next [of c k j, OF Suc(5) j])
  have ok1: "prompts_ok c1" by (rule prompt_step_ok [OF s1 Suc(4)])
  obtain c2 where c2: "prompts_reach c1 (Inr c2)" "pr_pc c2 k = Joining_all j" "pr_pc c2 j = Ended \<or> j = k"
    "pr_loaded c2 = pr_loaded c" "\<forall>l. l \<noteq> k \<and> l \<noteq> j \<longrightarrow> pr_pc c2 l = pr_pc c l"
  proof (cases "j = k")
    case True
    with that [of c1] begin_reach show ?thesis by (simp add: c1_def)
  next
    case False
    have "prompts_reach c1 (Inr (prompt_at j Ended c1))"
      using False j Suc(6) [OF j] by (intro prompt_ends [OF ok1, of k, where v = 1]) (simp_all add: c1_def)
    with that [of "prompt_at j Ended c1"] False show ?thesis by (simp add: c1_def)
  qed
  define c3 where "c3 = prompt_at k Closing_all (c2\<lparr>pr_kill := (pr_kill c2)(j := None), pr_loaded := pr_loaded c2 - {j}\<rparr>)"
  have "prompt_step k c2 (Inr c3)" unfolding c3_def by (rule joined_next [of c2 k j, OF c2(2,3)])
  with c2(1) have r1: "prompts_reach c1 (Inr c3)" by (rule prompt_reach)
  have r: "prompts_reach c (Inr c3)" by (rule reach_trans [OF r1 prompt_reach [OF begin_reach s1]])
  have "prompts_reach c3 (Inl (Exited 1))"
  proof (rule Suc(1))
    show "m = card (pr_loaded c3)" using Suc(2) j by (simp add: c3_def c2(4) card_Diff_singleton)
    show "finite (pr_loaded c3)" using Suc(3) by (simp add: c3_def c2(4))
    show "prompts_ok c3" by (rule reach_prompts_ok [OF r Suc(4) refl])
    show "pr_pc c3 k = Closing_all" by (simp add: c3_def)
    show "\<not> asking (pr_pc c3 l)" if "l \<in> pr_loaded c3" "l \<noteq> k" for l
      using that Suc(6) [of l] c2(4,5) by (simp add: c3_def)
  qed
  with r show ?case by (rule reach_trans [rotated])
qed

text \<open>Otherwise the lock comes free, or the program ends.\<close>

definition waited_for :: "prompts \<Rightarrow> nat \<Rightarrow> nat \<Rightarrow> bool" where
  "waited_for c i j \<longleftrightarrow> i \<noteq> j \<and> (pr_pc c i = Joining j \<or> quitting (pr_pc c i) \<and> j \<in> pr_loaded c)"

lemma lock_given_back:
  assumes "prompts_ok c" "\<And>i j. waited_for c i j \<Longrightarrow> \<not> asking (pr_pc c j)"
  shows "(\<exists>c'. prompts_reach c (Inr c') \<and> pr_mutex c' = None) \<or>
    (\<exists>i. quitting (pr_pc c i)) \<and> (finite (pr_loaded c) \<longrightarrow> prompts_reach c (Inl (Exited 1)))"
proof (cases "pr_mutex c")
  case None
  then show ?thesis using begin_reach by blast
next
  case (Some q)
  show ?thesis
  proof (cases q)
    case 0
    with Some have "pr_main c = Executing" using assms(1) by (simp add: prompts_ok_def)
    from loop_reach [OF begin_reach executed [OF this]] show ?thesis by (intro disjI1 exI conjI) auto
  next
    case (Suc k)
    with Some have own: "owns_lock (pr_pc c k)" using assms(1) unfolding prompts_ok_def by blast
    have join: "\<exists>c'. prompts_reach c (Inr c') \<and> (pr_pc c' j = Ended \<or> j = k) \<and> pr_pc c' k = pr_pc c k \<and>
        pr_loaded c' = pr_loaded c \<and> (\<forall>l. l \<noteq> j \<longrightarrow> pr_pc c' l = pr_pc c l)"
      if jn: "pr_pc c k = Joining j \<or> pr_pc c k = Joining_all j" for j
    proof (cases "j = k")
      case True
      then show ?thesis using begin_reach by blast
    next
      case False
      obtain v where v: "pr_kill c j = Some v" "v \<noteq> 0" and l: "j \<in> pr_loaded c"
        using assms(1) jn unfolding prompts_ok_def by blast
      have "waited_for c k j" using jn False l by (auto simp: waited_for_def)
      from prompt_ends [OF assms(1) own False l v assms(2) [OF this]] False show ?thesis
        by (intro exI [of _ "prompt_at j Ended c"]) simp
    qed
    have other: "\<not> asking (pr_pc c j)" if "quitting (pr_pc c k)" "j \<in> pr_loaded c" "j \<noteq> k" for j
      using assms(2) [of k j] that by (simp add: waited_for_def)
    from own consider (adding) new where "pr_pc c k = Adding new" | (other) "pr_pc c k = Closing_other"
      | (joining) j where "pr_pc c k = Joining j" | (closing) "pr_pc c k = Closing_all"
      | (joining_all) j where "pr_pc c k = Joining_all j" by (cases "pr_pc c k") auto
    then show ?thesis
    proof cases
      case adding
      from prompt_reach [OF begin_reach added [of c k, OF this]] show ?thesis by (intro disjI1 exI conjI) auto
    next
      case other
      from prompt_reach [OF begin_reach closed_other [of c k, OF this]] show ?thesis by (intro disjI1 exI conjI) auto
    next
      case (joining j)
      with join obtain c' where c': "prompts_reach c (Inr c')" "pr_pc c' j = Ended \<or> j = k" "pr_pc c' k = Joining j"
        by metis
      from prompt_reach [OF c'(1) joined [of c' k j, OF c'(3,2)]] show ?thesis by (intro disjI1 exI conjI) auto
    next
      case closing
      then have "finite (pr_loaded c) \<longrightarrow> prompts_reach c (Inl (Exited 1))"
        using quit_ends [OF _ assms(1) closing] other by auto
      with closing show ?thesis by (metis quitting.simps(1))
    next
      case (joining_all j)
      with join obtain c' where c': "prompts_reach c (Inr c')" "pr_pc c' j = Ended \<or> j = k" "pr_pc c' k = Joining_all j"
        "pr_loaded c' = pr_loaded c" "\<forall>l. l \<noteq> j \<longrightarrow> pr_pc c' l = pr_pc c l" by metis
      define c1 where "c1 = prompt_at k Closing_all (c'\<lparr>pr_kill := (pr_kill c')(j := None), pr_loaded := pr_loaded c' - {j}\<rparr>)"
      have "prompt_step k c' (Inr c1)" unfolding c1_def by (rule joined_next [of c' k j, OF c'(3,2)])
      with c'(1) have r: "prompts_reach c (Inr c1)" by (rule prompt_reach)
      have "prompts_reach c1 (Inl (Exited 1))" if "finite (pr_loaded c)"
      proof (rule quit_ends)
        show "finite (pr_loaded c1)" using that by (simp add: c1_def c'(4))
        show "prompts_ok c1" by (rule reach_prompts_ok [OF r assms(1) refl])
        show "pr_pc c1 k = Closing_all" by (simp add: c1_def)
        show "\<not> asking (pr_pc c1 l)" if "l \<in> pr_loaded c1" "l \<noteq> k" for l
          using that other [of l] joining_all c'(4,5) by (simp add: c1_def)
      qed
      with r have "finite (pr_loaded c) \<longrightarrow> prompts_reach c (Inl (Exited 1))" by (blast intro: reach_trans)
      with joining_all show ?thesis by (metis quitting.simps(2))
    qed
  qed
qed

end
