(* ===== verification/Cli_Thread.thy ===== *)
theory Cli_Thread
imports Listener Plugin_Cli
begin

text \<open>
  The thread of \<open>plugins/input_cli.c\<close>, whose lines are commands of the listener, compared with a
  configuration file of the same lines, and what becomes of it when the plugin is unloaded from its own
  prompt.
\<close>

section \<open>The thread\<close>

text \<open>\<open>kill_thread\<close> of the structure at \<open>ps\<close>, as the loop reads it in every round.\<close>

definition kill_thread :: "nat \<Rightarrow> cli_world \<Rightarrow> int res" where
  "kill_thread ps x = (case cw_states x ps of None \<Rightarrow> Inl UseAfterFree | Some k \<Rightarrow> Inr k)"

text \<open>One round of \<open>thread_loop\<close>: \<open>buf\<close> is nothing before the first \<open>fgets\<close> that reads something; at the
  end of the input \<open>fgets\<close> leaves it as it is. \<open>input\<close> is what is left on the standard input, \<open>kill\<close>
  reads the flag from the world, and \<open>run\<close> is the listener's \<open>run_command\<close>. The first component of the
  result says whether the loop goes on.\<close>

definition cli_round ::
  "('w \<Rightarrow> int res) \<Rightarrow> 'w runner \<Rightarrow> string option \<times> string \<times> 'w \<Rightarrow> (bool \<times> string option \<times> string \<times> 'w) res" where
  "cli_round kill run = (\<lambda>(buf, input, w).
     bindR (kill w) (\<lambda>k.
       if k \<noteq> 0 then Inr (False, buf, input, w)
       else let (buf', input') =
                  (case fgets PATH_MAX input of
                     None \<Rightarrow> (buf, input)
                   | Some (line, rest) \<Rightarrow> (Some (takeWhile (\<lambda>c. c \<noteq> NUL) line), rest))
            in case buf' of
                 None \<Rightarrow> Inl UninitRead
               | Some b \<Rightarrow> bindR (parse_command run b w) (\<lambda>w'. Inr (True, buf', input', w'))))"

text \<open>The first \<open>n\<close> rounds.\<close>

primrec thread_loop ::
  "('w \<Rightarrow> int res) \<Rightarrow> 'w runner \<Rightarrow> nat \<Rightarrow> string option \<times> string \<times> 'w \<Rightarrow> (bool \<times> string option \<times> string \<times> 'w) res" where
  "thread_loop kill run 0 st = Inr (True, st)"
| "thread_loop kill run (Suc n) st =
     bindR (cli_round kill run st) (\<lambda>(go_on, st'). if go_on then thread_loop kill run n st' else Inr (False, st'))"

section \<open>The prompt and configuration files\<close>

definition plain_line :: "string \<Rightarrow> bool" where
  "plain_line l \<longleftrightarrow> NUL \<notin> set l \<and> (l = [] \<or> hd l \<noteq> CHR ''#'')"

lemma config_lines_plain:
  assumes "plain_line l"
  shows "config_lines run (l # ls) w = bindR (parse_command run l w) (config_lines run ls)"
    and "takeWhile (\<lambda>c. c \<noteq> NUL) l = l"
proof -
  show t: "takeWhile (\<lambda>c. c \<noteq> NUL) l = l"
    using assms by (auto simp: plain_line_def takeWhile_eq_all_conv)
  have "(l \<noteq> [] \<and> hd l = CHR ''#'') = False" using assms by (auto simp: plain_line_def)
  then show "config_lines run (l # ls) w = bindR (parse_command run l w) (config_lines run ls)"
    unfolding config_lines.simps Let_def t by (simp only: if_False)
qed

lemma config_lines_append:
  "config_lines run (ls @ ms) w = bindR (config_lines run ls w) (config_lines run ms)"
proof -
  have "config_lines run (ls @ ms) = (\<lambda>w. bindR (config_lines run ls w) (config_lines run ms))"
  proof (induction ls)
    case (Cons l ls)
    show ?case by (simp add: Cons.IH Let_def bindR_assoc fun_eq_iff)
  qed (simp add: fun_eq_iff)
  then show ?thesis by simp
qed

text \<open>At the end of the input.\<close>

lemma thread_loop_end:
  assumes "\<And>w. kill w = Inr 0" "plain_line b"
  shows "thread_loop kill run n (Some b, [], w) =
    bindR (config_lines run (replicate n b) w) (\<lambda>w'. Inr (True, Some b, [], w'))"
proof (induction n arbitrary: w)
  case (Suc n)
  have "cli_round kill run (Some b, [], w) = bindR (parse_command run b w) (\<lambda>w'. Inr (True, Some b, [], w'))"
    using assms(1) by (simp add: cli_round_def fgets_def)
  with Suc.IH show ?case
    by (cases "parse_command run b w") (simp_all add: config_lines_plain(1) [OF assms(2)] del: config_lines.simps)
qed simp

lemma thread_loop_text:
  assumes "\<And>w. kill w = Inr 0" "\<forall>l\<in>set (fgets_all PATH_MAX input). plain_line l"
    and "fgets_all PATH_MAX input \<noteq> [] \<or> (\<exists>b. buf = Some b \<and> plain_line b)"
  shows "thread_loop kill run (length (fgets_all PATH_MAX input) + n) (buf, input, w) =
    (let ls = fgets_all PATH_MAX input; b = (if ls = [] then the buf else last ls)
     in bindR (config_lines run (ls @ replicate n b) w) (\<lambda>w'. Inr (True, Some b, [], w')))"
  using assms(2,3)
proof (induction "fgets_all PATH_MAX input" arbitrary: input buf w)
  case Nil
  have "input = []"
    using fgets_all_nonempty [of input PATH_MAX] Nil(1) by (auto simp: buffer_sizes)
  with Nil thread_loop_end [where kill = kill and run = run and n = n and w = w, OF assms(1)] show ?case by auto
next
  case (Cons l ls)
  then obtain rest where f: "fgets PATH_MAX input = Some (l, rest)" and ls: "ls = fgets_all PATH_MAX rest"
  proof (cases "fgets PATH_MAX input")
    case None
    with Cons(2) show ?thesis by (simp add: fgets_all_None)
  next
    case (Some p)
    with Cons(2) that show ?thesis by (cases p) (simp add: fgets_all_Some buffer_sizes)
  qed
  have l: "plain_line l" "\<forall>l\<in>set ls. plain_line l" using Cons(2) Cons.prems(1) by (simp_all flip: Cons(2))
  note cl = config_lines_plain [OF l(1)]
  have r: "cli_round kill run (buf, input, w) = bindR (parse_command run l w) (\<lambda>w'. Inr (True, Some l, rest, w'))"
    by (simp add: cli_round_def assms(1) f cl(2))
  show ?case
  proof (cases "parse_command run l w")
    case (Inl u)
    with r show ?thesis by (simp add: Let_def cl(1) del: config_lines.simps flip: Cons(2))
  next
    case (Inr w1)
    have "thread_loop kill run (length (fgets_all PATH_MAX rest) + n) (Some l, rest, w1) =
      (let ls = fgets_all PATH_MAX rest; b = (if ls = [] then the (Some l) else last ls)
       in bindR (config_lines run (ls @ replicate n b) w1) (\<lambda>w'. Inr (True, Some b, [], w')))"
      using l ls by (intro Cons(1)) auto
    with r Inr ls show ?thesis by (simp add: Let_def cl(1) del: config_lines.simps flip: Cons(2))
  qed
qed

section \<open>Unloading the prompt from itself\<close>

lemma prompt_unloaded:
  assumes ok: "chain_ok (l_chain w) ps" and f: "find (\<lambda>a. names_plugin (the (heap (l_chain w) a)) name) ps = Some p"
    and n: "n = the (heap (l_chain w) p)" "pfn_close_plugin n = cli_close_plugin" "pl_state n = h"
    and h: "cw_states (world (l_chain w)) h = Some 0"
    and c: "find (\<lambda>c. names_command c ''unload-plugin'') (s_commands (l_chain w)) = Some cmd"
      "cmd_function cmd = Some C_unload_plugin"
    and name: "name \<noteq> []" "CHR '' '' \<notin> set name" "newline \<notin> set name"
  shows "\<exists>w'. parse_command (run_listener S (Suc d)) (''unload-plugin '' @ name @ [newline]) w = Inr w' \<and>
    chain_ok (l_chain w') (remove1 p ps) \<and> kill_thread h (world (l_chain w')) = Inl UseAfterFree"
proof -
  define x where "x = (world (l_chain w))\<lparr>cw_states := (cw_states (world (l_chain w)))(h := None)\<rparr>"
  have "pfn_close_plugin n (pl_state n) (world (l_chain w)) = Inr x"
    using n h by (simp add: cli_close_plugin_def x_def Let_def)
  from unload_by_name_ok [OF ok f n(1) this] obtain s' where s': "unload_plugin_by_name name (l_chain w) = Inr (0, s')"
    "chain_ok s' (remove1 p ps)" "world s' = x" by blast
  have "parse_command (run_listener S (Suc d)) (join CHR '' '' [''unload-plugin'', name] @ [newline]) w =
      bindR (run_listener S (Suc d) ''unload-plugin'' [name] w) (\<lambda>(rc, w'). Inr w')"
    using name by (subst parse_command_line) (auto simp: newline_def)
  also have "run_listener S (Suc d) ''unload-plugin'' [name] w = Inr (0, w\<lparr>l_chain := s'\<rparr>)"
    using c s'(1) by (simp add: run_command_find call_function_def c_unload_plugin_def on_chain_def)
  finally show ?thesis using s'(2,3) by (simp add: kill_thread_def x_def)
qed

end
