(* ===== verification/Thread_Properties.thy ===== *)
theory Thread_Properties
imports Chain_Threads Prompt_Threads Cli_Thread Listener_Properties
begin

text \<open>
  Properties of the listener's threads: the interleaving of the main loop with command threads on the
  plugin chain, and the prompt of \<open>input_cli\<close>.
\<close>

section \<open>The lock\<close>

text \<open>C9: mutual exclusion, and what it protects. However the main loop and any number of command threads
  interleave, at most one of them is in a section that needs the lock; whenever no command thread is in
  one, the chain is a list of loaded plugins without cycles or freed nodes; and a thread that unlinks a
  plugin finds it, so that the message of \<open>unload_plugin_by_name\<close> about a likely bug is never printed.\<close>

theorem chain_threads_exclusive:
  assumes "chain_ok s ps" "dom (heap s) = set ps" "reach D K (quiet s) (Inr c)"
  shows "(main_holds_lock (t_main c) \<longrightarrow> (\<forall>k. \<not> holds_lock (t_command c k))) \<and>
    (\<forall>j k. holds_lock (t_command c j) \<and> holds_lock (t_command c k) \<longrightarrow> j = k) \<and>
    ((\<forall>k. \<not> holds_lock (t_command c k)) \<longrightarrow> (\<exists>qs. chain_ok (t_chain c) qs)) \<and>
    (\<forall>k p i rc s'. t_command c k = Unlinking p i \<and> unlink_plugin p i (t_chain c) = Inr (rc, s') \<longrightarrow> rc = 0)"
proof -
  have ok: "threads_ok c" by (rule reach_ok [OF assms(3) quiet_ok [OF assms(1,2)] refl])
  then obtain qs where l: "locked c" and sh: "shape (t_chain c) (t_command c) qs" by (auto simp: threads_ok_def)
  have "rc = 0" if u: "t_command c k = Unlinking p i" "unlink_plugin p i (t_chain c) = Inr (rc, s')" for k p i rc s'
  proof -
    have "closing p (t_chain c) qs" using sh u(1) unfolding shape_def by blast
    moreover have "command_ok (t_chain c) (t_command c k)" using ok by (simp add: threads_ok_def)
    ultimately show ?thesis using unlink_shape(1) [OF u(2)] u(1) by simp
  qed
  moreover have "chain_ok (t_chain c) qs" if "\<forall>k. \<not> holds_lock (t_command c k)"
    using sh that unlinking_holds unfolding shape_def by blast
  ultimately show ?thesis
    using locked_main(2) [OF l] locked_command(3) [OF l] by blast
qed

lemma demo_chain_dom: "dom (heap demo_chain) = set [0, 1]"
  by (auto simp: demo_chain_def)

theorem chain_threads_exclusive_witness:
  "\<exists>c qs. reach (\<lambda>_. None) {0, 1} (quiet demo_chain) (Inr c) \<and> holds_lock (t_command c 1) \<and>
     \<not> holds_lock (t_command c 0) \<and> \<not> main_holds_lock (t_main c)"
proof -
  define c where "c = command_at 1 (Unloading (Some 1) (Some 0)) ((quiet demo_chain)\<lparr>t_mutex := Some (Suc 1)\<rparr>)"
  have "locate_plugin_by_name ''csv.so'' (t_chain (quiet demo_chain)) = Inr (Some 1)"
    using locate_ok [OF demo_chain_ok, of "''csv.so''"] by (simp add: quiet_def names_plugin_def demo_chain_def)
  from reach_unloading(2) [OF reach.start _ _ this, of 1 "{0, 1}" "\<lambda>_. None"]
  have r: "reach (\<lambda>_. None) {0, 1} (quiet demo_chain) (Inr c)"
    by (simp add: c_def quiet_def demo_chain_def)
  have h: "holds_lock (t_command c 1)" by (simp add: c_def)
  note x = chain_threads_exclusive [OF demo_chain_ok demo_chain_dom r]
  have "\<not> holds_lock (t_command c 0)" "\<not> main_holds_lock (t_main c)"
    using x h zero_neq_one by blast+
  with r h show ?thesis by blast
qed

text \<open>C10: with one command thread, the only race is the one about the head of the chain. Its search
  meets loaded plugins only, and what it has read before the lock is still there when it has it: it
  closes a plugin that is loaded, unlinks it, and links a new one, without an error; its \<open>quit\<close> is a single
  step here, which ends the program. The main loop fails only if the head it read was freed before it got the lock, or if a plugin itself does.\<close>

theorem one_command_thread:
  assumes "chain_ok s ps" "dom (heap s) = set ps" "reach D {k} (quiet s) (Inr c)"
  shows "(\<forall>name p. t_command c k = Locating name (Some p) \<longrightarrow> (\<exists>n. live_at p (t_chain c) = Inr n)) \<and>
    (\<forall>p i. t_command c k = Unloading (Some p) i \<longrightarrow> (\<exists>n. live_at p (t_chain c) = Inr n)) \<and>
    (\<forall>p i. t_command c k = Unlinking p i \<longrightarrow> (\<exists>s'. unlink_plugin p i (t_chain c) = Inr (0, s'))) \<and>
    (\<forall>n. t_command c k = Linking n \<longrightarrow> (\<exists>s'. link_plugin n (t_chain c) = Inr s')) \<and>
    (\<forall>p rec u. t_main c = Offering (Some p) rec \<and> execute_plugin p rec (t_chain c) = Inl u \<longrightarrow>
       heap (t_chain c) p = None \<or>
       (\<exists>n. heap (t_chain c) p = Some n \<and> offer rec n (world (t_chain c)) = Inl u))"
proof -
  have "solo k (quiet s)"
    using quiet_ok [OF assms(1,2)] by (simp add: solo_def) (simp add: quiet_def)
  then have so: "solo k c" by (rule reach_solo [OF assms(3) _ refl])
  then obtain qs where l: "locked c" and sh: "shape (t_chain c) (t_command c) qs"
    and ok: "command_ok (t_chain c) (t_command c k)" by (auto simp: solo_def threads_ok_def)
  have others: "\<not> unlinking (t_command c j)" if "j \<noteq> k" for j using so that by (simp add: solo_def)
  have steady: "chain_ok (t_chain c) qs \<and> dom (heap (t_chain c)) = set qs" if "\<not> unlinking (t_command c k)"
    using sh others that by (simp add: shape_def) metis
  have live: "\<exists>n. live_at p (t_chain c) = Inr n" if "p \<in> set qs" "chain_ok (t_chain c) qs" for p
  proof -
    note node = chain_node [OF that(2,1)]
    obtain n where "heap (t_chain c) p = Some n" "pl_loaded n" using node by blast
    then show ?thesis by (simp add: live_at_def node_at_def)
  qed
  have "\<exists>n. live_at p (t_chain c) = Inr n" if "t_command c k = Unloading (Some p) i" for p i
    using so steady live [of p] that by (auto simp: solo_def)
  moreover have "\<exists>s'. unlink_plugin p i (t_chain c) = Inr (0, s')" if "t_command c k = Unlinking p i" for p i
  proof -
    have "closing p (t_chain c) qs" using sh that unfolding shape_def by blast
    from unlink_plugin_ok [OF this] so that show ?thesis by (auto simp: solo_def)
  qed
  moreover have "\<exists>s'. link_plugin n (t_chain c) = Inr s'" if "t_command c k = Linking n" for n
    using link_plugin_ok [of "t_chain c" qs n] steady ok that by auto
  moreover have "heap (t_chain c) p = None \<or> (\<exists>n. heap (t_chain c) p = Some n \<and> offer rec n (world (t_chain c)) = Inl u)"
    if m: "t_main c = Offering (Some p) rec" "execute_plugin p rec (t_chain c) = Inl u" for p rec u
  proof (cases "heap (t_chain c) p")
    case (Some n)
    have "\<not> unlinking (t_command c k)" using locked_unlinking(1) [OF l] m(1) by simp
    with steady Some have "pl_loaded n" using chain_node [of "t_chain c" qs p] by auto
    with Some m(2) show ?thesis
      by (auto simp: execute_plugin_def live_at_def node_at_def bindR_eq_Inl)
  qed simp
  moreover have "\<exists>n. live_at p (t_chain c) = Inr n" if "t_command c k = Locating name (Some p)" for name p
    using so steady live [of p] that by (auto simp: solo_def)
  ultimately show ?thesis by blast
qed

theorem one_command_thread_witness:
  "\<exists>c n. reach (\<lambda>_. None) {1} (quiet demo_chain) (Inr c) \<and> t_command c 1 = Unloading (Some 1) (Some 0) \<and>
     live_at 1 (t_chain c) = Inr n"
proof -
  define c where "c = command_at 1 (Unloading (Some 1) (Some 0)) ((quiet demo_chain)\<lparr>t_mutex := Some (Suc 1)\<rparr>)"
  have "locate_plugin_by_name ''csv.so'' (t_chain (quiet demo_chain)) = Inr (Some 1)"
    using locate_ok [OF demo_chain_ok, of "''csv.so''"] by (simp add: quiet_def names_plugin_def demo_chain_def)
  from reach_unloading(2) [OF reach.start _ _ this, of 1 "{1}" "\<lambda>_. None"]
  have r: "reach (\<lambda>_. None) {1} (quiet demo_chain) (Inr c)"
    by (simp add: c_def quiet_def demo_chain_def)
  have "t_command c 1 = Unloading (Some 1) (Some 0)" by (simp add: c_def)
  with one_command_thread [OF demo_chain_ok demo_chain_dom r] r show ?thesis by blast
qed

section \<open>The races\<close>

text \<open>C11: both races are real. One command thread is enough to free the node the main loop begins with: it
  reads the head of the chain, the other thread unloads that plugin, and the main loop, once it has the
  lock, reads freed memory. Two command threads told to unload the same plugin both find it, and the
  second closes it when its node has been freed.\<close>

theorem chain_races:
  assumes "chain_ok s (p # ps)" "names_plugin (the (heap s p)) name" "j \<noteq> k"
    and "pfn_close_plugin (the (heap s p)) (pl_state (the (heap s p))) (world s) = Inr x"
  shows "(\<exists>c. reach D {k} (quiet s) (Inr c) \<and> main_step c (Inl UseAfterFree)) \<and>
    (\<exists>c. reach D {j, k} (quiet s) (Inr c) \<and> command_step D j c (Inl UseAfterFree))"
proof (rule conjI)
  have f: "find (\<lambda>a. names_plugin (the (heap s a)) name) (p # ps) = Some p" using assms(2) by simp
  have loc: "locate_plugin_by_name name s = Inr (Some p)" using locate_ok [OF assms(1)] f by simp
  obtain s' where un: "unload_plugin_by_name name s = Inr (0, s')" and gone: "heap s' p = None"
    using unload_by_name_ok [OF assms(1) f refl assms(4)] by auto
  have head: "plugins s = Some p" using assms(1) by (simp add: chain_ok_def)
  show "\<exists>c. reach D {k} (quiet s) (Inr c) \<and> main_step c (Inl UseAfterFree)"
  proof (intro exI conjI)
    fix rec
    have "reach D {k} (quiet s) (Inr ((quiet s)\<lparr>t_main := At_head (Some p) rec\<rparr>))"
      using reach.main [OF reach.start read_head [of "quiet s" rec]] head by (simp add: quiet_def)
    from reach_unload [OF this, of k name 0 s'] un
    have "reach D {k} (quiet s) (Inr ((quiet s)\<lparr>t_main := At_head (Some p) rec, t_chain := s'\<rparr>))"
      by (simp add: quiet_def)
    from reach.main [OF this lock_head [of _ "Some p" rec]]
    show "reach D {k} (quiet s) (Inr ((quiet s)\<lparr>t_main := Offering (Some p) rec, t_chain := s', t_mutex := Some 0\<rparr>))"
      by (simp add: quiet_def)
    show "main_step ((quiet s)\<lparr>t_main := Offering (Some p) rec, t_chain := s', t_mutex := Some 0\<rparr>) (Inl UseAfterFree)"
      using gone by (intro offer_fails [of _ p rec]) (simp_all add: execute_plugin_def live_at_def node_at_def)
  qed
  define c1 where "c1 = command_at j (Ready (Some p) (Some p)) (quiet s)"
  have "reach D {j, k} (quiet s) (Inr c1)"
    using reach_unloading(1) [OF reach.start, of j "{j, k}" "quiet s" name "Some p" D] loc head
    by (simp add: quiet_def c1_def)
  from reach_unload [OF this, of k name 0 s'] un assms(3)
  have "reach D {j, k} (quiet s) (Inr (c1\<lparr>t_chain := s'\<rparr>))" by (simp add: c1_def quiet_def)
  from reach.command [OF this, of j] lock_unload [of "c1\<lparr>t_chain := s'\<rparr>" j "Some p" "Some p" D]
  have "reach D {j, k} (quiet s) (Inr (command_at j (Unloading (Some p) (Some p)) (c1\<lparr>t_chain := s', t_mutex := Some (Suc j)\<rparr>)))"
    by (simp add: c1_def quiet_def)
  moreover have "command_step D j (command_at j (Unloading (Some p) (Some p)) (c1\<lparr>t_chain := s', t_mutex := Some (Suc j)\<rparr>))
      (Inl UseAfterFree)"
    using gone by (intro unload_fails [of _ _ p "Some p"]) (simp_all add: unload_plugin_def live_at_def node_at_def)
  ultimately show "\<exists>c. reach D {j, k} (quiet s) (Inr c) \<and> command_step D j c (Inl UseAfterFree)" by blast
qed

theorem chain_races_witness:
  "\<exists>c. reach (\<lambda>_. None) {3} (quiet demo_chain) (Inr c) \<and> main_step c (Inl UseAfterFree)"
  using chain_races [OF demo_chain_ok, of "''f''" 2 3 demo_plugin_world "\<lambda>_. None"]
  by (simp add: names_plugin_def demo_chain_def close_nothing_def)

text \<open>C12: the sequential functions are the threads undisturbed. From a state in which nobody holds the
  lock, a main loop that waits for a message, or a command thread between two commands, can run
  \<open>execute_plugin_chain\<close>, \<open>unload_plugin_by_name\<close> or \<open>load_plugin\<close> step by step to exactly the result of
  the function, and is then where it was.\<close>

theorem sequential_runs:
  assumes "t_mutex c = None"
  shows "(t_main c = Waiting \<and> execute_plugin_chain rec (t_chain c) = Inr (rec', s1) \<longrightarrow>
      reach D K c (Inr (c\<lparr>t_chain := s1\<rparr>))) \<and>
    (k \<in> K \<and> t_command c k = Idle \<and> unload_plugin_by_name name (t_chain c) = Inr (rc, s2) \<longrightarrow>
      reach D K c (Inr (c\<lparr>t_chain := s2\<rparr>))) \<and>
    (k \<in> K \<and> t_command c k = Idle \<and> load_plugin D lib options name' (t_chain c) = Inr (rc, s3) \<longrightarrow>
      reach D K c (Inr (c\<lparr>t_chain := s3\<rparr>)))"
  using assms reach_execute reach_unload [OF reach.start] reach_load [OF reach.start] by metis

theorem sequential_runs_witness:
  "\<exists>s'. execute_plugin_chain demo_record demo_chain = Inr (demo_record, s') \<and>
     reach (\<lambda>_. None) {} (quiet demo_chain) (Inr (quiet s'))"
proof -
  have "\<exists>rec' s'. execute_plugin_chain demo_record demo_chain = Inr (rec', s') \<and> rec' = demo_record"
    using shipped.chain_executes [OF demo_chain_ok, of None demo_record demo_record] demo_chain_shipped demo_record_printable
    by (auto simp: processable_def)
  then obtain s' where s': "execute_plugin_chain demo_record demo_chain = Inr (demo_record, s')" by auto
  have "reach (\<lambda>_. None) {} (quiet demo_chain) (Inr ((quiet demo_chain)\<lparr>t_chain := s'\<rparr>))"
    using sequential_runs [of "quiet demo_chain" demo_record demo_record s' "\<lambda>_. None" "{}"] s' by (simp add: quiet_def)
  with s' show ?thesis by (simp add: quiet_def)
qed

section \<open>The prompt\<close>

text \<open>C34: the prompt and a configuration file do the same with the same text, as long as no line is a
  comment: each line is run once, in order. But the prompt does not stop there. At the end of its input
  \<open>fgets\<close> leaves the buffer as it is, and the thread runs the last line again, in every round, however
  many; with no line at all it runs what happens to be in the buffer.\<close>

theorem prompt_reads_config:
  assumes "\<And>w. kill w = Inr 0" "\<forall>l\<in>set (fgets_all PATH_MAX input). plain_line l" "input \<noteq> []"
    and "sys_fopen S path = Some input"
  shows "thread_loop kill runc (length (fgets_all PATH_MAX input) + n) (None, input, w) =
      bindR (config_lines runc (fgets_all PATH_MAX input) w) (\<lambda>w1.
        bindR (config_lines runc (replicate n (last (fgets_all PATH_MAX input))) w1) (\<lambda>w2.
          Inr (True, Some (last (fgets_all PATH_MAX input)), [], w2))) \<and>
    c_config S runc [path] w0 = bindR (config_lines runc (fgets_all PATH_MAX input) w0) (\<lambda>w1. Inr (0, w1)) \<and>
    thread_loop kill runc (Suc n) (None, [], w) = Inl UninitRead"
proof -
  have ne: "fgets_all PATH_MAX input \<noteq> []" using fgets_all_nonempty [OF assms(3)] by (simp add: buffer_sizes)
  have "thread_loop kill runc (Suc n) (None, [], w) = Inl UninitRead"
    using assms(1) by (simp add: cli_round_def fgets_def)
  with thread_loop_text [where kill = kill and run = runc, OF assms(1,2), of None n w] ne assms(4)
  show ?thesis by (simp add: Let_def config_lines_append c_config_def bindR_assoc)
qed

definition echo_command :: "(nat, unit plugin_world, unit) listener runner" where
  "echo_command = (\<lambda>name args w. Inr (0, w\<lparr>l_stdout := l_stdout w @ [name]\<rparr>))"

theorem prompt_reads_config_witness:
  "\<exists>w'. thread_loop (\<lambda>w. Inr 0) echo_command 4 (None, ''a'' @ [newline] @ ''b'' @ [newline], initial_listener demo_plugin_world) =
     Inr (True, Some (''b'' @ [newline]), [], w') \<and> l_stdout w' = [''a'', ''b'', ''b'', ''b'']"
proof -
  have l: "fgets_all PATH_MAX (''a'' @ [newline] @ ''b'' @ [newline]) = [''a'' @ [newline], ''b'' @ [newline]]"
    using fgets_all_lines [of PATH_MAX "[''a'', ''b'']"] by (simp add: buffer_sizes newline_def)
  have p: "\<forall>l\<in>set (fgets_all PATH_MAX (''a'' @ [newline] @ ''b'' @ [newline])). plain_line l"
    unfolding l by (simp add: plain_line_def newline_def)
  have "sys_fopen (demo_system\<lparr>sys_fopen := \<lambda>_. Some (''a'' @ [newline] @ ''b'' @ [newline])\<rparr>) [] =
      Some (''a'' @ [newline] @ ''b'' @ [newline])" by simp
  note x = prompt_reads_config [OF _ p _ this, of "\<lambda>w. Inr 0" echo_command 2 "initial_listener demo_plugin_world", THEN conjunct1]
  have c: "config_lines echo_command ((c # [newline]) # ls) w = config_lines echo_command ls (w\<lparr>l_stdout := l_stdout w @ [[c]]\<rparr>)"
    if "c = CHR ''a'' \<or> c = CHR ''b''" for c ls w
    using parse_command_line [of "[c]" "[]" echo_command w] config_lines_plain(1) [of "[c, newline]" echo_command ls w] that
    by (auto simp: plain_line_def newline_def echo_command_def)
  have replicate_eq: "replicate 2 b = [b, b]" for b :: string by (simp add: numeral_2_eq_2)
  have four: "4 = Suc (Suc (Suc (Suc 0)))" by simp
  show ?thesis
    using x unfolding l by (simp add: c four replicate_eq initial_listener_def del: config_lines.simps(2) thread_loop.simps)
qed

text \<open>A prompt told to unload itself ends the listener. The command succeeds: the plugin is closed and
  unlinked, and the chain is in order. But \<open>close_plugin\<close> cannot wait for the thread it runs in, frees the
  thread's state, and the thread's next look at \<open>kill_thread\<close> is one at freed memory.\<close>

theorem prompt_unloads_itself:
  assumes "chain_ok (l_chain w) ps" "find (\<lambda>a. names_plugin (the (heap (l_chain w) a)) name) ps = Some p"
    and "n = the (heap (l_chain w) p)" "pfn_close_plugin n = cli_close_plugin" "pl_state n = h"
    and "cw_states (world (l_chain w)) h = Some 0"
    and "find (\<lambda>c. names_command c ''unload-plugin'') (s_commands (l_chain w)) = Some cmd"
      "cmd_function cmd = Some C_unload_plugin"
    and "name \<noteq> []" "CHR '' '' \<notin> set name" "newline \<notin> set name" "NUL \<notin> set name" "length name + 15 < PATH_MAX"
  shows "\<exists>buf w'. thread_loop (\<lambda>w. kill_thread h (world (l_chain w))) (run_listener S (Suc d)) 1
      (None, ''unload-plugin '' @ name @ [newline] @ rest, w) = Inr (True, buf, rest, w') \<and>
    chain_ok (l_chain w') (remove1 p ps) \<and>
    thread_loop (\<lambda>w. kill_thread h (world (l_chain w))) (run_listener S (Suc d)) (Suc k) (buf, rest, w') = Inl UseAfterFree"
proof -
  define line where "line = ''unload-plugin '' @ name @ [newline]"
  obtain w' where w': "parse_command (run_listener S (Suc d)) line w = Inr w'" "chain_ok (l_chain w') (remove1 p ps)"
    "kill_thread h (world (l_chain w')) = Inl UseAfterFree"
    using prompt_unloaded [OF assms(1-11), of S d] unfolding line_def by blast
  have "fgets PATH_MAX ((''unload-plugin '' @ name) @ newline # rest) = Some ((''unload-plugin '' @ name) @ [newline], rest)"
    using assms(11,13) by (intro fgets_line) (auto simp: newline_def)
  then have f: "fgets PATH_MAX (''unload-plugin '' @ name @ [newline] @ rest) = Some (line, rest)"
    by (simp add: line_def)
  have nul: "takeWhile (\<lambda>c. c \<noteq> NUL) line = line"
    using assms(12) by (auto simp: takeWhile_eq_all_conv line_def newline_def)
  have "kill_thread h (world (l_chain w)) = Inr 0" using assms(6) by (simp add: kill_thread_def)
  then have "thread_loop (\<lambda>w. kill_thread h (world (l_chain w))) (run_listener S (Suc d)) 1
      (None, ''unload-plugin '' @ name @ [newline] @ rest, w) = Inr (True, Some line, rest, w')"
    using f w'(1) by (simp add: cli_round_def nul del: run_listener.simps)
  moreover have "thread_loop (\<lambda>w. kill_thread h (world (l_chain w))) (run_listener S (Suc d)) (Suc k) (Some line, rest, w') =
      Inl UseAfterFree"
    using w'(3) by (simp add: cli_round_def)
  ultimately show ?thesis using w'(2) by blast
qed

definition demo_prompt :: "(nat, cli_world, unit) listener" where
  "demo_prompt = (initial_listener \<lparr>cw_states = [1 \<mapsto> 0], cw_next = 2, cw_threads = [1]\<rparr>)
     \<lparr>l_chain := \<lparr>heap = [0 \<mapsto> \<lparr>pl_paused = False, pl_library = ''cli.so'', pl_options = None, pl_alias = None,
          pfn_close_plugin = cli_close_plugin, pfn_ok_to_accept_data = cli_ok_to_accept_data,
          pfn_process_data = cli_process_data, pl_state = 1, next_plugin = None, pl_loaded = True\<rparr>],
        fresh = 1, plugins = Some 0, s_commands = rev (butlast commands),
        world = \<lparr>cw_states = [1 \<mapsto> 0], cw_next = 2, cw_threads = [1]\<rparr>\<rparr>\<rparr>"

definition demo_cli_system :: "(nat, cli_world, unit) system" where
  "demo_cli_system = \<lparr>sys_dlopen = [''cli.so'' \<mapsto> cli_library],
     sys_plugin_command = (\<lambda>_ _ _ x. Inr (0, x)), sys_ftok = (\<lambda>_ _. 1), sys_msgget = (\<lambda>_ _. 7),
     sys_fopen = (\<lambda>_. None), sys_lsblk = None, sys_hostname = ''h'', sys_garbage = 0\<rparr>"

theorem prompt_unloads_itself_witness:
  "\<exists>buf w'. thread_loop (\<lambda>w. kill_thread 1 (world (l_chain w))) (run_listener demo_cli_system 1) 1
      (None, ''unload-plugin '' @ ''cli.so'' @ [newline] @ ''help'', demo_prompt) = Inr (True, buf, ''help'', w') \<and>
    thread_loop (\<lambda>w. kill_thread 1 (world (l_chain w))) (run_listener demo_cli_system 1) 1 (buf, ''help'', w') = Inl UseAfterFree"
proof -
  have ok: "chain_ok (l_chain demo_prompt) [0]" by (simp add: chain_ok_def demo_prompt_def)
  have f: "find (\<lambda>a. names_plugin (the (heap (l_chain demo_prompt) a)) ''cli.so'') [0] = Some 0"
    by (simp add: demo_prompt_def names_plugin_def)
  define cmd where "cmd = the (find (\<lambda>c. names_command c ''unload-plugin'') (rev (butlast (commands :: (unit fun_ptr, nat) command list))))"
  have c: "find (\<lambda>c. names_command c ''unload-plugin'') (s_commands (l_chain demo_prompt)) = Some cmd"
    "cmd_function cmd = Some C_unload_plugin"
    by (simp_all add: cmd_def demo_prompt_def commands_def names_command_def listener_command_def)
  from prompt_unloads_itself [OF ok f refl _ _ _ c, of 1 demo_cli_system 0 "''help''" 0] show ?thesis
    by (auto simp: demo_prompt_def newline_def buffer_sizes simp del: run_listener.simps thread_loop.simps)
qed

section \<open>Several prompts\<close>

text \<open>C13: two prompts can stop the listener for good. With at least two running, one can ask to unload the
  other while that one asks to unload it: then the first holds the lock and waits in \<open>pthread_join\<close> for the
  second, which waits for the lock. In no later state does one of them go on or the lock come free, so
  the main loop never offers a record to the chain again.\<close>

theorem prompts_deadlock:
  assumes "i \<in> K" "j \<in> K" "i \<noteq> j"
  shows "\<exists>c. prompts_reach (prompts_of K) (Inr c) \<and> pr_pc c i = Joining j \<and> pr_pc c j = Asked_unload i \<and>
    (\<forall>c'. prompts_reach c (Inr c') \<longrightarrow> pr_mutex c' = Some (Suc i) \<and> pr_pc c' i = Joining j \<and>
       pr_pc c' j = Asked_unload i \<and> pr_main c' \<noteq> Executing)"
proof -
  obtain c where c: "prompts_reach (prompts_of K) (Inr c)" "deadlocked i j c" "pr_pc c j = Asked_unload i"
    using deadlock_reached [OF assms] by blast
  have ok: "prompts_ok c" by (rule reach_prompts_ok [OF c(1) prompts_of_ok refl])
  have "deadlocked i j c' \<and> pr_pc c' j = Asked_unload i" if "prompts_reach c (Inr c')" for c'
    using deadlocked_for_ever [OF that ok c(2) refl] deadlocked_asks_for_ever [OF that ok c(2) refl] c(3) by simp
  with c show ?thesis by (auto simp: deadlocked_def)
qed

theorem prompts_deadlock_witness:
  "\<exists>c. prompts_reach (prompts_of {0, 1}) (Inr c) \<and> pr_pc c 0 = Joining 1 \<and> pr_pc c 1 = Asked_unload 0"
  using prompts_deadlock [of 0 "{0, 1}" 1] by auto

text \<open>C14: this is the only way for the lock to stay taken. In every state the prompts and the main loop can
  reach, either two prompts wait for one another like this, one with the lock joining the other, or in a
  \<open>quit\<close> that has still to join it, and the other asking for the lock; or there is a continuation in which
  the lock is free; or \<open>quit\<close> holds it and, with finitely many prompts, there is one in which the program
  exits. So a single prompt never stops the listener.\<close>

theorem lock_comes_free:
  assumes "prompts_reach (prompts_of K) (Inr c)"
  shows "(\<exists>i j. i \<noteq> j \<and> (pr_pc c i = Joining j \<or> quitting (pr_pc c i) \<and> j \<in> pr_loaded c) \<and>
      pr_mutex c = Some (Suc i) \<and> asking (pr_pc c j)) \<or>
    (\<exists>c'. prompts_reach c (Inr c') \<and> pr_mutex c' = None) \<or>
    (\<exists>i. quitting (pr_pc c i)) \<and> (finite (pr_loaded c) \<longrightarrow> prompts_reach c (Inl (Exited 1)))"
proof -
  have ok: "prompts_ok c" by (rule reach_prompts_ok [OF assms prompts_of_ok refl])
  have "pr_mutex c = Some (Suc i)" if "waited_for c i j" for i j
  proof -
    have "owns_lock (pr_pc c i)" using that by (cases "pr_pc c i") (auto simp: waited_for_def)
    then show ?thesis by (rule owner(1) [OF ok])
  qed
  with lock_given_back [OF ok] show ?thesis unfolding waited_for_def by blast
qed

theorem lock_comes_free_witness:
  "\<exists>c c'. prompts_reach (prompts_of {0}) (Inr c) \<and> pr_mutex c = Some 0 \<and> prompts_reach c (Inr c') \<and> pr_mutex c' = None"
proof -
  define c1 where "c1 = prompts_of {0}\<lparr>pr_main := At_lock\<rparr>"
  define c2 where "c2 = c1\<lparr>pr_main := Executing, pr_mutex := Some 0\<rparr>"
  have "loop_step (prompts_of {0}) c1" "loop_step c1 c2"
    unfolding c1_def c2_def by (rule receive, simp add: prompts_of_def, rule lock_loop) (simp_all add: prompts_of_def)
  then have r: "prompts_reach (prompts_of {0}) (Inr c2)" by (blast intro: begin_reach loop_reach)
  have "pr_pc c2 k \<noteq> Joining j" "\<not> quitting (pr_pc c2 k)" for k j by (simp_all add: c2_def c1_def prompts_of_def)
  with lock_comes_free [OF r] have "\<exists>c'. prompts_reach c2 (Inr c') \<and> pr_mutex c' = None" by blast
  moreover have "pr_mutex c2 = Some 0" by (simp add: c2_def)
  ultimately show ?thesis using r by blast
qed

end
