(* ===== verification/Spec2Isabelle.thy ===== *)
theory Spec2Isabelle
imports Monitor_Properties Listener_Properties Wrapper_Properties Hook_Properties Thread_Properties
begin

text \<open>
  A verification library for \<^emph>\<open>io-monitor\<close>, a pair of programs that watch the input and output of an
  application. The shared library \<open>io_monitor.so\<close> is preloaded into the application; generated wrappers
  around the C library's functions call its function \<open>record\<close>, which decides whether the call is to be
  reported, builds a \<open>struct monitor_record_t\<close> and sends it over a System V message queue or a TCP
  connection. The program \<open>mq_listener\<close> receives the records, adds the host name and the device of the
  file, and hands each to a chain of plugins, which filter, print or post it.

  \<^bold>\<open>The monitor\<close> (\<open>src/io_monitor\<close>, \<open>src/include\<close>)

    \<^item> \<open>Domains_Ops\<close>: the enumerations of \<open>domains.h\<close> and \<open>ops.h\<close>, and \<open>enum_to_strings.sh\<close>, which makes the
      name tables from the lines of these headers. \<open>Domain_Mask\<close>: \<open>domain_list_to_bit_mask\<close> of
      \<open>utility_routines.h\<close> and the bits it sets.
    \<^item> \<open>Monitor_Record\<close>: the struct of \<open>monitor_record.h\<close> and the message of \<open>mq.h\<close>. A \<open>char\<close> array is the
      string in front of its first NUL; an array with no NUL is a string as long as the array.
    \<^item> \<open>Monitor_State\<close>: the static variables of \<open>io_monitor.c\<close> as the record \<open>mon\<close>, and
      \<open>initialize_monitor\<close> with \<open>load_library_functions\<close> as functions of the environment.
    \<^item> \<open>Monitor_Gate\<close>: \<open>record\<close> up to the point where it builds a record, that is, all its early returns:
      calls that are ignored, the pause with its two start conditions, count- and time-based sampling.
      \<open>Sampling\<close> runs the gate on sequences of calls.
    \<^item> \<open>Monitor_Send\<close>: \<open>send_msg_queue\<close>. \<open>Recorder\<close>: the rest of \<open>record\<close>, \<open>send_tcp_socket\<close> with its calls
      back into the wrappers, \<open>real_ip\<close>, \<open>init\<close> and \<open>fini\<close>. \<open>Reporting\<close>: their lemmas. \<open>Exec_Helpers\<close>:
      \<open>va_list_to_table\<close> and the three \<open>orig_vexec\<close> functions.
    \<^item> \<open>Interposer\<close>: \<open>generate_interposer.sh\<close> as a transformation of text, and the 150 lines of
      \<open>monitored_functions.data\<close> it is applied to. \<open>Interposer_Calls\<close>: what it makes of any prototype
      written as those are. \<open>Interposer_Table\<close>: what it makes of each line, as a table.
      \<open>Wrapped_Calls\<close>: the meaning of the call of \<open>record\<close> in a wrapper.
    \<^item> \<open>Http_Detect\<close>: \<open>check_for_http.cpp\<close>, which the hooks of \<open>read\<close>, \<open>recv\<close>, \<open>write\<close>, \<open>send\<close> call.
    \<^item> \<open>Hook_Syntax\<close>: a parser for the C text of the hooks, the last column of \<open>monitored_functions.data\<close>.
      \<open>Hook_Table\<close>: each line of the file as a program: types, syntax tree, arguments of \<open>record\<close>.
      \<open>Hook_Run\<close>: what such a program does. \<open>Hook_Typing\<close>: its typing rules, which are sound.
      \<open>Hook_Analysis\<close>: what can be read off the syntax tree of a hook about \<open>error_code\<close>, \<open>count\<close> and
      side effects.
    \<^item> \<open>Wrapper_Run\<close>: a generated function as a whole, from its arguments to its result. \<open>Wrapper_Facts\<close>:
      all of them are well typed. \<open>Wrapper_Errors\<close>: the error code they record, against the conventions
      of the C library. \<open>Wrapper_Effects\<close>: the number of bytes, and the hooks without effect.
      \<open>Own_Calls\<close>: the wrappers around the socket calls of \<open>send_tcp_socket\<close>. \<open>Wrapper_Calls\<close>: wrappers
      with the \<open>record\<close> of the monitor. \<open>Hook_Faults\<close>: for which calls a hook is safe.
    \<^item> \<open>Monitor_Properties\<close>, \<open>Wrapper_Properties\<close>, \<open>Hook_Properties\<close>: the properties of the monitor.

  \<^bold>\<open>The listener\<close> (\<open>src/mq_listener\<close>, \<open>src/plugins\<close>)

    \<^item> \<open>Resolver\<close>: \<open>resolver.cpp\<close>, on the sorted association lists of \<open>Std_Map\<close> and the \<open>fgets\<close> of
      \<open>C_Stdio\<close>.
    \<^item> \<open>Command_Parser\<close>: \<open>command_parser.c\<close>. What a command does to the program is a parameter there.
    \<^item> \<open>Plugin_Chain\<close>: \<open>plugin_chain.c\<close>, with the list on a heap of nodes, so that a freed node is a value
      one can meet. \<open>Chain_Refinement\<close>: the abstract view, a list of plugins.
    \<^item> \<open>Chain_Threads\<close>: the main loop and the threads that run commands on the chain, step by step, with
      the mutex; its invariant over all interleavings. \<open>Prompt_Threads\<close>: several prompts, which wait for
      one another in \<open>pthread_join\<close> and for the mutex.
    \<^item> \<open>Plugin_Filter\<close>, \<open>Plugin_Output\<close>, \<open>Plugin_Influx\<close>, \<open>Plugin_Cli\<close>: the plugins \<open>filter_domains\<close>;
      \<open>output_csv\<close>, \<open>output_table\<close> and \<open>sample_plugin\<close>; \<open>output_influxdb\<close>; \<open>input_cli\<close>, whose thread is
      \<open>Cli_Thread\<close>. \<open>Plugin_Set\<close>: all six as libraries the chain can load, on one memory, and what the chain
      relies on in them.
    \<^item> \<open>Listener\<close>: \<open>mq_listener.c\<close>: the table of commands, the commands, \<open>main\<close> up to its loop, and the
      loop. \<open>Listener_Loop\<close>: what is kept by all of it.
    \<^item> \<open>Listener_Properties\<close>, \<open>Thread_Properties\<close>: the properties of the listener. This theory: the
      properties of both programs together, and the invariant of every reachable state.

  \<^bold>\<open>Conventions\<close> (\<open>Prelude\<close>). A definition whose C code can go wrong has a result of the type \<open>res\<close>, whose
  left values \<open>ub\<close> name what went wrong: a NULL pointer, an access out of bounds, an overrun, a freed
  object, a variable never set, a bad shift, a bad \<open>free\<close>, no more stack, or a call of \<open>exit\<close>; and
  \<open>IllFormed\<close> for the text of a wrapper that no compiler accepts, which C7 excludes. So \<open>Inr\<close>
  is the statement that the code returns and that no such thing has happened. Unsigned integers that are
  shifted, wrap or are compared unsigned are words of their width; \<open>int\<close> variables are integers, brought
  back into their range with \<open>int32\<close> where the code may leave it; a \<open>double\<close> or \<open>float\<close> is the rational
  number it stands for, and each operation rounds to the nearest one of its format (\<open>C_Float\<close>).

  \<^bold>\<open>Parameters.\<close> The operating system is the record \<open>platform\<close> for the monitor (time, process, queue and
  socket calls, on a world of any type) and \<open>system\<close> for the listener (libraries, files, queue, host name,
  the output of \<open>lsblk\<close>); libcurl is two functions. No property assumes anything of them but what its
  statement says. Macros and variables the monitor uses and no file defines are fields of \<open>platform\<close>.

  \<^bold>\<open>Interfaces.\<close> The locale \<open>machine\<close> (\<open>Machine\<close>) is a step function with an invariant, run on a list of
  inputs; it is interpreted on count-based sampling and on the listener's loop. The locale \<open>ipc_channel\<close>
  (\<open>Reporting\<close>) is what \<open>record\<close> needs of a transport; it is interpreted on the queue and on TCP. The
  locale \<open>ordered_map\<close> is what the resolver needs of \<open>std::map\<close>; \<open>interpreter\<close> what the parser needs of
  \<open>run_command\<close>; \<open>plugin_set\<close> what the chain needs of its plugins. Each is interpreted on the model.

  \<^bold>\<open>Bounds.\<close> \<open>record_event P d\<close> is \<open>record\<close> with stack for \<open>d\<close> nested calls. Two are enough over TCP unless
  SOCKETS is monitored, one over the queue (C5, C4); with SOCKETS none is (C15). The parser of hooks has
  fuel for four times the tokens, and the table shows that it reads every hook to its end. \<open>run_listener S d\<close> is
  \<open>run_command\<close> with stack for \<open>d\<close> nested configuration files. The loops over the chain have the fuel
  \<open>loop_fuel\<close>, one more than the nodes ever allocated, which is enough for every list without cycles
  (\<open>Chain_Refinement\<close>); running out of it would be a value that no property allows. The retries of
  \<open>send_msg_queue\<close> are five, by its own counter.

  \<^bold>\<open>Properties.\<close> C1, C2: the two programs together, and every reachable state of the listener. C3: the
  chain refines a list of plugins. C4, C5, C15: \<open>record\<close> accounts for every call, or recurses. C6 to C8,
  C21 to C26: the generated wrappers: when they come back, their types, the monitor's own calls, the
  error codes and numbers of bytes they record, \<open>exec\<close>, their arguments, descriptors. C9 to C14: threads.
  C16 to C18: the gate and sampling. C19: masks. C20: retries. C27 to C29: devices. C30, C31: unloading.
  C32 to C34: commands and the prompt. C35 to C38: plugins. C39, C40: HTTP. The other theorems of the
  property theories are of the same kind, about smaller parts.

  \<^bold>\<open>Wrappers.\<close> \<open>run_wrapper\<close> is a wrapper as a function of its arguments and of the original function, which
  is a parameter, as is what \<open>errno\<close> and the streams are before and after it. Only for \<open>execl\<close>, \<open>execlp\<close> and
  \<open>execle\<close> the original function is the monitor's own helper, whose call of \<open>execv\<close>, \<open>execvp\<close> or \<open>execvpe\<close> is
  a wrapper again (\<open>original_function\<close>). The hook runs on the
  variables of the wrapper, with integers of their width; its calls are \<open>fileno\<close>, \<open>dirfd\<close>, \<open>real_ip\<close>,
  \<open>sprintf\<close> of a number, \<open>check_for_http\<close> and \<open>init\<close>, the last four those of the model of the monitor.
  C8 closes the circle: the wrappers \<open>send_tcp_socket\<close> calls are the ones \<open>Recorder\<close> has assumed.

  \<^bold>\<open>Threads.\<close> A step of \<open>Chain_Threads\<close> is what a thread does between two points at which another can
  come in between; what is within a step is one of the sequential functions of \<open>Plugin_Chain\<close>. The
  work of \<open>load_plugin\<close> before the lock and the closing of a plugin are one step each, so a race on the
  list of commands, which no lock protects, is not shown. In \<open>quit\<close> the closing of all plugins and the exit
  are one step: what other threads meet between two closings, or between its \<open>unlock\<close> and its \<open>exit\<close>, is
  not shown. \<open>Prompt_Threads\<close> leaves out what the commands do to the chain and has instead the states in
  which a prompt waits (C13, C14), with \<open>quit\<close> closing one prompt after the other; the order of the chain,
  unknown names and configuration files read from a prompt are left out there.

  \<^bold>\<open>Not modelled.\<close> The layout by \<open>indent\<close>; what is printed on the terminal, except by the output plugins and the
  command \<open>help\<close>; the failure of \<open>malloc\<close>; the lifetime of the strings that \<open>free_parsed_command\<close> and
  \<open>parse_command\<close> free; the use of a library's code after \<open>dlclose\<close>; calls of wrappers by the C library
  itself; the build rules and the tests.
\<close>

section \<open>The running listener\<close>

definition running_listener :: "(nat, unit plugin_world, unit) listener" where
  "running_listener = (initial_listener demo_plugin_world)
     \<lparr>l_chain := (initial_chain demo_plugin_world)\<lparr>s_commands := rev (butlast commands)\<rparr>,
      message_queue_key := 1, message_queue_id := 7, show_runtime_commands := True\<rparr>"

text \<open>C2: in every state the listener can reach, by any command line, any sequence of messages and any
  lines of input, whatever plugins they load and unload and whichever files they include, the plugin
  chain is a list of loaded plugins without cycles or freed nodes, and the resolver's maps are ordered.\<close>

theorem reachable_states_ok:
  assumes "reachable S d w"
  shows "listener_ok w"
  by (rule reachable_listener_ok [OF assms])

theorem reachable_states_ok_witness: "listener_ok running_listener"
proof -
  define w0 where "w0 = (initial_listener demo_plugin_world :: (nat, unit plugin_world, unit) listener)
    \<lparr>l_chain := (initial_chain demo_plugin_world)\<lparr>s_commands := rev (butlast commands)\<rparr>\<rparr>"
  have c: "(initial_listener demo_plugin_world :: (nat, unit plugin_world, unit) listener)
      \<lparr>l_chain := (l_chain (initial_listener demo_plugin_world :: (nat, unit plugin_world, unit) listener))
        \<lparr>s_commands := rev (butlast commands) @
           s_commands (l_chain (initial_listener demo_plugin_world :: (nat, unit plugin_world, unit) listener))\<rparr>\<rparr> = w0"
    by (simp add: w0_def initial_listener_def initial_chain_def)
  have "run_listener demo_system 1 ''m'' [''mq1''] w0 =
      Inr (0, w0\<lparr>message_queue_key := 1, message_queue_id := 7\<rparr>)"
    by (simp add: w0_def run_command_find commands_def names_command_def listener_command_def
        call_function_def c_mq_path_def demo_system_def Let_def)
  then have "parse_args (run_listener demo_system 1) [''mq_listener'', ''-m'', ''mq1''] w0 =
      Inr (0, w0\<lparr>message_queue_key := 1, message_queue_id := 7\<rparr>)"
    by (simp add: parse_args_def max_tokens_def run_collected_def del: run_listener.simps)
  then have m: "listener_main demo_system 1 [''mq_listener'', ''-m'', ''mq1''] (initial_listener demo_plugin_world) =
      Inr (None, running_listener)"
    by (simp add: listener_main_def commands_array c capture_device_info_def demo_system_def running_listener_def
        w0_def [symmetric] del: run_listener.simps)
  from reachable_states_ok [OF reachable.start [OF m]] show ?thesis .
qed

section \<open>From the monitor to the listener\<close>

text \<open>C1: the two programs fit together. Let the chain hold any instances of the six plugins of
  \<open>src/plugins\<close>, loaded any number of times in any order, \<open>output_influxdb\<close> only if \<open>net\<close> is a libcurl, which
  may answer as it likes. Let the host name fit its array and the names of devices theirs, of ten bytes with
  the NUL. Then the listener processes any sequence of records the monitor makes, of any intercepted calls
  in any state and on any platform, without undefined behaviour, and is ready for the next, however many
  times receiving fails in between. Where \<open>output_influxdb\<close> may be loaded, the strings of a record must not
  begin with a blank, a comma or an equals sign: there it reads a variable that was never set. The
  record that comes out of the chain carries the call's strings and descriptor, and the listener's host name; all that
  the listener may add is a device. No command is run in between.\<close>

theorem monitor_records_processed:
  assumes "loop_ok net S l"
    and "\<forall>(w, m, e)\<in>set es. ev_dom_type e \<noteq> END_DOMAINS \<and> ev_op_type e \<noteq> END_OPS"
    and "recs = map (\<lambda>(w, m, e). make_record P w m e) es" "List.map_filter (\<lambda>r. r) received = recs"
    and "net = None \<or> (\<forall>rec\<in>set recs. taggable rec)"
  shows "\<exists>outs l'. run (handle_message S) recs l = Inr (outs, l') \<and> input_loop S received l = Inr l' \<and>
    loop_ok net S l' \<and> length outs = length es \<and>
    (\<forall>i<length es. \<exists>dev. outs ! i = (recs ! i)\<lparr>mr_hostname := sys_hostname S, mr_device := dev\<rparr>)"
proof -
  have "\<forall>rec\<in>set recs. printable rec"
    using assms(2) by (auto simp: assms(3) intro!: make_record_printable)
  then have adm: "\<forall>rec\<in>set recs. processable net rec"
    using assms(5) by (auto simp: processable_def)
  obtain outs l' where r: "run (handle_message S) recs l = Inr (outs, l')" "loop_ok net S l'" "length outs = length recs"
    using messages.run_ok [OF assms(1) adm] by blast
  have "\<exists>dev. outs ! i = (recs ! i)\<lparr>mr_hostname := sys_hostname S, mr_device := dev\<rparr>" if "i < length recs" for i
    using messages.run_nth [OF assms(1) adm r(1) that] spec_device_upd by metis
  moreover have "input_loop S received l = Inr l'" using r(1) assms(4) by (simp add: input_loop_run)
  ultimately show ?thesis using r by (simp add: assms(3))
qed

definition demo_curl :: "unit curl" where
  "demo_curl = (\<lambda>x. (True, x), \<lambda>url postdata x. (False, x))"

theorem monitor_records_processed_witness:
  "\<exists>s' l'. load_plugin [''influx.so'' \<mapsto> influx_library demo_curl] ''influx.so'' None None demo_chain = Inr (0, s') \<and>
     input_loop demo_system
       [Some (make_record (demo_platform 0 0) () demo_mon (demo_open ''/home/a'')), None,
        Some (make_record (demo_platform 0 0) () demo_mon demo_write)]
       (running_listener\<lparr>l_chain := s'\<rparr>) = Inr l' \<and> loop_ok (Some demo_curl) demo_system l'"
proof -
  define lib :: "string \<Rightarrow> (nat, unit plugin_world, unit fun_ptr) library option"
    where "lib = [''influx.so'' \<mapsto> influx_library demo_curl]"
  define n :: "(nat, unit plugin_world) node" where "n = \<lparr>pl_paused = False, pl_library = ''influx.so'', pl_options = None, pl_alias = None,
    pfn_close_plugin = influx_close_plugin, pfn_ok_to_accept_data = accept_always,
    pfn_process_data = influx_process_data demo_curl, pl_state = 0, next_plugin = None, pl_loaded = True\<rparr>"
  obtain s' where "link_plugin n demo_chain = Inr s'"
    using link_plugin_ok [OF demo_chain_ok, of n] by (auto simp: n_def)
  then have s': "load_plugin lib ''influx.so'' None None demo_chain = Inr (0, s')"
    by (simp add: load_plugin_eq lib_def influx_library_def open_stateless_def plugin_codes
        register_plugin_command_def n_def)
  obtain ps where ps: "chain_ok s' ps" "\<forall>e\<in>set (entries s' ps). shipped (Some demo_curl) (world s') e"
    using load_plugin_shipped [OF s' demo_chain_ok _ demo_chain_shipped, of "Some demo_curl"]
    by (auto simp: lib_def shipped_library_def)
  have "loop_ok (Some demo_curl) demo_system (running_listener\<lparr>l_chain := s'\<rparr>)"
    using ps by (auto simp: loop_ok_def demo_system_def buffer_sizes running_listener_def initial_listener_def
        initial_resolver_ok short_devices_def path_to_dev_def initial_resolver_def fd_map_def resolver_ok_def map_ok_def)
  from monitor_records_processed [OF this, of "[((), demo_mon, demo_open ''/home/a''), ((), demo_mon, demo_write)]" _ "demo_platform 0 0"
      "[Some (make_record (demo_platform 0 0) () demo_mon (demo_open ''/home/a'')), None,
        Some (make_record (demo_platform 0 0) () demo_mon demo_write)]", OF _ refl]
    s' show ?thesis
    by (auto simp: lib_def demo_open_def demo_write_def map_filter_simps taggable_def make_record_def record_field_s_def
        special_def zero_record_def buffer_sizes)
qed

end
